(* ===== verification/Prelude.thy ===== *)
theory Prelude
  imports Main "HOL-Library.Word"
begin

text \<open>
  Shared ground of the development: the machine integers of the Rust sources (\<open>u8\<close> to
  \<open>u256\<close>, \<open>i128\<close>) with their saturating operations, the monotone-clock helpers the
  modules use, and the interface of an event-driven component whose operations keep an
  invariant. \<open>U256\<close> is alloy's 256-bit integer, whose operators wrap.
\<close>

named_theorems word_facts \<open>unsigned readings of the saturating operations\<close>

type_synonym u8 = "8 word"
type_synonym u32 = "32 word"
type_synonym u64 = "64 word"
type_synonym u128 = "128 word"
type_synonym i128 = "128 word"
type_synonym u256 = "256 word"
type_synonym address = "160 word"

section \<open>Saturating unsigned arithmetic\<close>

definition sat_add :: "'a::len word \<Rightarrow> 'a word \<Rightarrow> 'a word" where
  "sat_add a b = (if unat a + unat b < 2 ^ LENGTH('a) then a + b else - 1)"

definition sat_sub :: "'a::len word \<Rightarrow> 'a word \<Rightarrow> 'a word" where
  "sat_sub a b = (if b \<le> a then a - b else 0)"

definition sat_mul :: "'a::len word \<Rightarrow> 'a word \<Rightarrow> 'a word" where
  "sat_mul a b = (if unat a * unat b < 2 ^ LENGTH('a) then a * b else - 1)"

lemma unat_max_word: "unat (- 1 :: 'a::len word) = 2 ^ LENGTH('a) - 1"
  by (simp add: unsigned_minus_1_eq_mask mask_eq_exp_minus_1)

lemma le_max_word_iff: "(n :: nat) < 2 ^ k \<longleftrightarrow> n \<le> 2 ^ k - 1"
  by (simp add: le_diff_conv2 Suc_le_eq flip: less_eq_Suc_le)

lemma unat_le_max_word: "unat (w :: 'a::len word) \<le> 2 ^ LENGTH('a) - 1"
  by (rule le_max_word_iff [THEN iffD1, OF unsigned_less])

lemma unat_sat_add [word_facts]:
  fixes a b :: "'a::len word"
  shows "unat (sat_add a b) = min (unat a + unat b) (2 ^ LENGTH('a) - 1)"
  by (simp add: sat_add_def unat_add_lem [THEN iffD1] unat_max_word le_max_word_iff min_def)

lemma unat_sat_sub [word_facts]:
  fixes a b :: "'a::len word"
  shows "unat (sat_sub a b) = unat a - unat b"
  by (auto simp: sat_sub_def unat_sub word_le_nat_alt)

lemma unat_sat_mul [word_facts]:
  fixes a b :: "'a::len word"
  shows "unat (sat_mul a b) = min (unat a * unat b) (2 ^ LENGTH('a) - 1)"
  by (simp add: sat_mul_def unat_mult_lem [THEN iffD1] unat_max_word le_max_word_iff min_def)

lemma sat_sub_le [simp]: "sat_sub a b \<le> (a :: 'a::len word)"
  by (simp add: word_le_nat_alt unat_sat_sub)

lemma sat_sub_zero [simp]: "sat_sub a 0 = (a :: 'a::len word)"
  by (simp add: sat_sub_def)

lemma unat_ucast_up:
  fixes w :: "'a::len word"
  assumes "LENGTH('a) \<le> LENGTH('b::len)"
  shows "unat (ucast w :: 'b word) = unat w"
proof -
  have "unat w < 2 ^ LENGTH('a)" by (rule unsigned_less)
  also have "(2 :: nat) ^ LENGTH('a) \<le> 2 ^ LENGTH('b)" using assms by (intro power_increasing) simp_all
  finally show ?thesis by (simp add: unsigned_ucast_eq take_bit_nat_eq_self)
qed

text \<open>Scaling down by a ratio: the product may wrap, and without wrapping the quotient stays below.\<close>

lemma unat_scale_down:
  fixes x k d :: "'a::len word"
  assumes "unat x * unat k < 2 ^ LENGTH('a)"
  shows "unat ((x * k) div d) = unat x * unat k div unat d"
  using assms by (simp add: unat_div unat_mult_lem)

lemma scale_down_le:
  fixes x k d :: "'a::len word"
  assumes "unat x * unat k < 2 ^ LENGTH('a)" and "unat k \<le> unat d"
  shows "(x * k) div d \<le> x"
proof (cases "unat d = 0")
  case True
  then show ?thesis using assms by (simp add: word_le_nat_alt unat_div)
next
  case False
  have "unat x * unat k div unat d \<le> unat x * unat d div unat d"
    using assms(2) by (intro div_le_mono mult_le_mono2)
  with False have "unat x * unat k div unat d \<le> unat x" by simp
  then show ?thesis
    using assms(1) by (simp add: word_le_nat_alt unat_scale_down)
qed

section \<open>Event-driven components\<close>

text \<open>
  The contract every stateful module is checked against: a step function over events and
  an invariant each step keeps. A history of events is a list, run by \<open>foldl\<close>.
\<close>

locale stateful =
  fixes step :: "'s \<Rightarrow> 'e \<Rightarrow> 's"
    and inv :: "'s \<Rightarrow> bool"
  assumes step_inv: "inv s \<Longrightarrow> inv (step s e)"
begin

lemma run_inv: "inv s \<Longrightarrow> inv (foldl step s es)"
  by (induction es arbitrary: s) (auto intro: step_inv)

end

text \<open>A component whose steps only move up a preorder: nothing already there is undone.\<close>

locale monotone_stateful = stateful step inv
  for step :: "'s \<Rightarrow> 'e \<Rightarrow> 's" and inv :: "'s \<Rightarrow> bool" +
  fixes below :: "'s \<Rightarrow> 's \<Rightarrow> bool"
  assumes below_refl: "below s s"
    and below_trans: "below s t \<Longrightarrow> below t u \<Longrightarrow> below s u"
    and step_below: "inv s \<Longrightarrow> below s (step s e)"
begin

lemma run_below: "inv s \<Longrightarrow> below s (foldl step s es)"
proof (induction es arbitrary: s)
  case Nil
  then show ?case by (simp add: below_refl)
next
  case (Cons e es)
  have "below s (step s e)" using Cons.prems by (rule step_below)
  moreover have "below (step s e) (foldl step (step s e) es)"
    using Cons.prems by (intro Cons.IH step_inv)
  ultimately show ?case by (simp add: below_trans)
qed

end

text \<open>
  A component driving another one: seen through \<open>abs\<close>, each of its steps is a sequence of
  steps of the driven component, taken from those its event allows and at most as many as
  the event costs. Whatever holds of all histories of the driven component then holds under
  the driver.
\<close>

locale simulation =
  fixes cstep :: "'c \<Rightarrow> 'e \<Rightarrow> 'c"
    and astep :: "'a \<Rightarrow> 'f \<Rightarrow> 'a"
    and abs :: "'c \<Rightarrow> 'a"
    and allowed :: "'e \<Rightarrow> 'f set"
    and cost :: "'e \<Rightarrow> nat"
  assumes step_sim: "\<exists>fs. set fs \<subseteq> allowed e \<and> length fs \<le> cost e \<and> abs (cstep s e) = foldl astep (abs s) fs"
begin

lemma run_sim:
  "\<exists>fs. set fs \<subseteq> (\<Union>e \<in> set es. allowed e) \<and> length fs \<le> sum_list (map cost es)
     \<and> abs (foldl cstep s es) = foldl astep (abs s) fs"
proof (induction es arbitrary: s)
  case Nil
  then show ?case by (intro exI [of _ "[]"]) simp
next
  case (Cons e es)
  obtain fs where "set fs \<subseteq> allowed e" "length fs \<le> cost e" "abs (cstep s e) = foldl astep (abs s) fs"
    using step_sim by blast
  moreover obtain gs where "set gs \<subseteq> (\<Union>e \<in> set es. allowed e)" "length gs \<le> sum_list (map cost es)"
    "abs (foldl cstep (cstep s e) es) = foldl astep (abs (cstep s e)) gs" using Cons.IH by blast
  ultimately show ?case by (intro exI [of _ "fs @ gs"]) auto
qed

end

section \<open>Bounded windows\<close>

text \<open>
  Two modules keep only the most recent entries of a stream: the price ring of the trail
  state and the block-statistics deque. Their contract: a push never fails on a
  well-formed window and the contents become the last \<open>cap\<close> entries.
\<close>

definition lastn :: "nat \<Rightarrow> 'a list \<Rightarrow> 'a list" where
  "lastn n xs = drop (length xs - n) xs"

lemma lastn_all [simp]: "length xs \<le> n \<Longrightarrow> lastn n xs = xs"
  by (simp add: lastn_def)

lemma length_lastn [simp]: "length (lastn n xs) = min n (length xs)"
  by (simp add: lastn_def)

lemma lastn_snoc: "0 < n \<Longrightarrow> lastn n (xs @ [x]) = lastn (n - 1) xs @ [x]"
  by (cases "length xs < n") (auto simp: lastn_def Suc_diff_le)

lemma lastn_lastn: "m \<le> n \<Longrightarrow> lastn m (lastn n xs) = lastn m xs"
  by (cases "length xs \<le> n") (simp_all add: lastn_def)

lemma lastn_push: "0 < n \<Longrightarrow> lastn n (lastn n xs @ [x]) = lastn n (xs @ [x])"
  by (simp add: lastn_snoc lastn_lastn)

lemma set_lastn_subset: "set (lastn n xs) \<subseteq> set xs"
  by (simp add: lastn_def set_drop_subset)

locale bounded_window =
  fixes push :: "'b \<Rightarrow> 'a \<Rightarrow> 'b option"
    and contents :: "'b \<Rightarrow> 'a list"
    and inv :: "'b \<Rightarrow> bool"
    and cap :: nat
  assumes cap_pos: "0 < cap"
    and push_spec: "inv b \<Longrightarrow>
      \<exists>b'. push b x = Some b' \<and> inv b' \<and> contents b' = lastn cap (contents b @ [x])"
begin

fun push_all :: "'b \<Rightarrow> 'a list \<Rightarrow> 'b option" where
  "push_all b [] = Some b"
| "push_all b (x # xs) = (case push b x of None \<Rightarrow> None | Some b' \<Rightarrow> push_all b' xs)"

lemma push_all_window:
  "inv b \<Longrightarrow> contents b = lastn cap ys \<Longrightarrow>
   \<exists>b'. push_all b xs = Some b' \<and> inv b' \<and> contents b' = lastn cap (ys @ xs)"
proof (induction xs arbitrary: b ys)
  case Nil
  then show ?case by simp
next
  case (Cons x xs)
  obtain b' where b': "push b x = Some b'" "inv b'" "contents b' = lastn cap (contents b @ [x])"
    using push_spec [OF Cons.prems(1)] by blast
  have "contents b' = lastn cap (ys @ [x])"
    using b'(3) Cons.prems(2) by (simp add: lastn_push cap_pos)
  from Cons.IH [OF b'(2) this] show ?case using b'(1) by simp
qed

end

end
