(* ===== verification/F64.thy ===== *)
theory F64
  imports Prelude "HOL-Library.Log_Nat" Complex_Main
begin

text \<open>
  The \<open>f64\<close> of the Rust sources: IEEE-754 binary64 with rounding to nearest, ties to even.
  A finite value is the rational it stands for; every arithmetic operation computes exactly
  and then rounds (\<open>rnd\<close>), overflowing to an infinity. The two zeros are one value here: the
  sources divide only by quantities they have first compared with zero, so the sign of a
  zero is never observed. Casts to integers truncate and saturate, as Rust's \<open>as\<close> does.
\<close>

datatype f64 = NaN | PInf | NInf | Fin rat

section \<open>Rounding\<close>

text \<open>The exponent of the leading binary digit of a positive rational.\<close>

definition ilog2 :: "rat \<Rightarrow> int" where
  "ilog2 q = (let (n, d) = quotient_of q; k = bitlen n - bitlen d
     in if 2 powi k \<le> q then k else k - 1)"

text \<open>Round to the nearest integer, ties to even.\<close>

definition rne :: "rat \<Rightarrow> int" where
  "rne x = (let f = \<lfloor>x\<rfloor>; d = x - of_int f
     in if d < 1 / 2 then f else if 1 / 2 < d then f + 1
        else if even f then f else f + 1)"

text \<open>The exponent of the last place: 53 significant bits, never below \<open>2 ^ -1074\<close>.\<close>

definition ulp_exp :: "rat \<Rightarrow> int" where
  "ulp_exp x = max (ilog2 \<bar>x\<bar> - 52) (- 1074)"

definition rnd_fin :: "rat \<Rightarrow> rat" where
  "rnd_fin x = (if x = 0 then 0
     else of_int (rne (x / 2 powi ulp_exp x)) * 2 powi ulp_exp x)"

definition rnd :: "rat \<Rightarrow> f64" where
  "rnd x = (let r = rnd_fin x
     in if 2 ^ 1024 \<le> r then PInf else if r \<le> - (2 ^ 1024) then NInf else Fin r)"

section \<open>Operations\<close>

fun fsgn :: "f64 \<Rightarrow> rat" where
  "fsgn NaN = 0"
| "fsgn PInf = 1"
| "fsgn NInf = - 1"
| "fsgn (Fin a) = sgn a"

definition finf :: "rat \<Rightarrow> f64" where
  "finf s = (if s = 0 then NaN else if 0 < s then PInf else NInf)"

fun fneg :: "f64 \<Rightarrow> f64" where
  "fneg NaN = NaN"
| "fneg PInf = NInf"
| "fneg NInf = PInf"
| "fneg (Fin a) = Fin (- a)"

fun fadd :: "f64 \<Rightarrow> f64 \<Rightarrow> f64" where
  "fadd (Fin a) (Fin b) = rnd (a + b)"
| "fadd NaN y = NaN"
| "fadd x NaN = NaN"
| "fadd PInf NInf = NaN"
| "fadd NInf PInf = NaN"
| "fadd PInf y = PInf"
| "fadd NInf y = NInf"
| "fadd x y = y"

definition fsub :: "f64 \<Rightarrow> f64 \<Rightarrow> f64" where
  "fsub x y = fadd x (fneg y)"

fun fmul :: "f64 \<Rightarrow> f64 \<Rightarrow> f64" where
  "fmul (Fin a) (Fin b) = rnd (a * b)"
| "fmul NaN y = NaN"
| "fmul x NaN = NaN"
| "fmul x y = finf (fsgn x * fsgn y)"

fun fdiv :: "f64 \<Rightarrow> f64 \<Rightarrow> f64" where
  "fdiv (Fin a) (Fin b) = (if b = 0 then finf (sgn a) else rnd (a / b))"
| "fdiv NaN y = NaN"
| "fdiv x NaN = NaN"
| "fdiv (Fin a) y = Fin 0"
| "fdiv x (Fin b) = finf (fsgn x * (if b < 0 then - 1 else 1))"
| "fdiv x y = NaN"

text \<open>Comparisons: every comparison with NaN is false.\<close>

fun fle :: "f64 \<Rightarrow> f64 \<Rightarrow> bool" where
  "fle (Fin a) (Fin b) = (a \<le> b)"
| "fle NaN y = False"
| "fle x NaN = False"
| "fle NInf y = True"
| "fle x PInf = True"
| "fle x y = False"

fun flt :: "f64 \<Rightarrow> f64 \<Rightarrow> bool" where
  "flt (Fin a) (Fin b) = (a < b)"
| "flt NaN y = False"
| "flt x NaN = False"
| "flt NInf NInf = False"
| "flt NInf y = True"
| "flt PInf PInf = False"
| "flt x PInf = True"
| "flt x y = False"

definition feq :: "f64 \<Rightarrow> f64 \<Rightarrow> bool" where
  "feq x y \<longleftrightarrow> x \<noteq> NaN \<and> x = y"

text \<open>\<open>f64::max\<close> and \<open>f64::min\<close> return the other argument when one is NaN; \<open>clamp\<close> keeps NaN.\<close>

definition fmax :: "f64 \<Rightarrow> f64 \<Rightarrow> f64" where
  "fmax x y = (if x = NaN then y else if y = NaN then x else if flt x y then y else x)"

definition fmin :: "f64 \<Rightarrow> f64 \<Rightarrow> f64" where
  "fmin x y = (if x = NaN then y else if y = NaN then x else if flt y x then y else x)"

definition fclamp :: "f64 \<Rightarrow> f64 \<Rightarrow> f64 \<Rightarrow> f64" where
  "fclamp lo hi x = (if flt x lo then lo else if flt hi x then hi else x)"

fun fabs :: "f64 \<Rightarrow> f64" where
  "fabs NaN = NaN"
| "fabs PInf = PInf"
| "fabs NInf = PInf"
| "fabs (Fin a) = Fin \<bar>a\<bar>"

section \<open>Conversions\<close>

text \<open>An integer as f64 (\<open>n as f64\<close>, or its decimal digits parsed), and a decimal literal.\<close>

definition f64_of_int :: "int \<Rightarrow> f64" where
  "f64_of_int n = rnd (of_int n)"

definition f64_of_word :: "'a::len word \<Rightarrow> f64" where
  "f64_of_word w = f64_of_int (uint w)"

definition flit :: "rat \<Rightarrow> f64" where
  "flit q = rnd q"

definition trunc_rat :: "rat \<Rightarrow> int" where
  "trunc_rat q = (if 0 \<le> q then \<lfloor>q\<rfloor> else \<lceil>q\<rceil>)"

text \<open>\<open>x as u64\<close> / \<open>x as u128\<close>: truncate, saturate at both ends, NaN to 0.\<close>

fun f64_to_word :: "f64 \<Rightarrow> 'a::len word" where
  "f64_to_word NaN = 0"
| "f64_to_word NInf = 0"
| "f64_to_word PInf = - 1"
| "f64_to_word (Fin q) =
     (if trunc_rat q \<le> 0 then 0
      else if 2 ^ LENGTH('a) \<le> trunc_rat q then - 1 else word_of_int (trunc_rat q))"

text \<open>\<open>f64::round\<close>: to the nearest integer, ties away from zero.\<close>

fun fround :: "f64 \<Rightarrow> f64" where
  "fround (Fin q) = Fin (of_int (if 0 \<le> q then \<lfloor>q + 1 / 2\<rfloor> else \<lceil>q - 1 / 2\<rceil>))"
| "fround x = x"

section \<open>Properties of rounding\<close>

lemma two_powi_pos [simp]: "(0 :: rat) < 2 powi k"
  by simp

lemma two_powi_mono: "j \<le> k \<Longrightarrow> (2 :: rat) powi j \<le> 2 powi k"
  by (rule power_int_increasing) auto

lemma two_powi_less_cancel: "(2 :: rat) powi j < 2 powi k \<Longrightarrow> j < k"
  by (metis not_le two_powi_mono)

lemma two_powi_split: "(2 :: rat) powi (j + k) = 2 powi j * 2 powi k"
  by (simp add: power_int_add)

lemma bitlen_rat_bounds:
  assumes "0 < n"
  shows "2 powi (bitlen n - 1) \<le> (of_int n :: rat)" "(of_int n :: rat) < 2 powi bitlen n"
proof -
  have "1 \<le> bitlen n" using assms by (simp add: bitlen_nonneg bitlen_eq_zero_iff order_less_le int_one_le_iff_zero_less)
  then have e: "(2 :: rat) powi (bitlen n - 1) = of_int (2 ^ nat (bitlen n - 1))"
      "(2 :: rat) powi bitlen n = of_int (2 ^ nat (bitlen n))"
    by (simp_all add: power_int_def)
  show "2 powi (bitlen n - 1) \<le> (of_int n :: rat)"
    unfolding e(1) of_int_le_iff using bitlen_bounds [OF assms] by simp
  show "(of_int n :: rat) < 2 powi bitlen n"
    unfolding e(2) of_int_less_iff using bitlen_bounds [OF assms] by simp
qed

lemma ilog2_bounds:
  assumes "0 < q"
  shows "2 powi ilog2 q \<le> q \<and> q < 2 powi (ilog2 q + 1)"
proof -
  obtain n d where nd: "quotient_of q = (n, d)" by (cases "quotient_of q")
  have d: "0 < d" using quotient_of_denom_pos [OF nd] .
  have q: "q = of_int n / of_int d" using quotient_of_div [OF nd] .
  have n: "0 < n" using assms d unfolding q by (simp add: zero_less_divide_iff)
  let ?k = "bitlen n - bitlen d"
  have up: "q < 2 powi (?k + 1)"
  proof -
    have "of_int n < (2 powi bitlen n :: rat)" using bitlen_rat_bounds [OF n] by simp
    also have "\<dots> = 2 powi (?k + 1) * 2 powi (bitlen d - 1)"
      by (simp flip: two_powi_split)
    also have "\<dots> \<le> 2 powi (?k + 1) * of_int d"
      using bitlen_rat_bounds [OF d] by (intro mult_left_mono) auto
    finally show ?thesis using d unfolding q by (simp add: divide_less_eq)
  qed
  have low: "2 powi (?k - 1) \<le> q"
  proof -
    have "2 powi (?k - 1) * of_int d \<le> 2 powi (?k - 1) * (2 powi bitlen d :: rat)"
      using bitlen_rat_bounds [OF d] by (intro mult_left_mono) auto
    also have "\<dots> = 2 powi (bitlen n - 1)"
      by (simp flip: two_powi_split)
    also have "\<dots> \<le> of_int n" using bitlen_rat_bounds [OF n] by simp
    finally show ?thesis using d unfolding q by (simp add: le_divide_eq)
  qed
  show ?thesis
    using up low by (auto simp: ilog2_def nd Let_def)
qed

lemma ilog2_unique:
  assumes "2 powi k \<le> q" and "q < 2 powi (k + 1)"
  shows "ilog2 q = k"
proof -
  have q: "0 < q" using assms(1) two_powi_pos [of k] by linarith
  have "2 powi k < (2 powi (ilog2 q + 1) :: rat)" "2 powi ilog2 q < (2 powi (k + 1) :: rat)"
    using assms ilog2_bounds [OF q] by linarith+
  then have "k < ilog2 q + 1" "ilog2 q < k + 1" by (auto dest: two_powi_less_cancel)
  then show ?thesis by simp
qed

lemma ilog2_mono:
  assumes "0 < x" and "x \<le> y"
  shows "ilog2 x \<le> ilog2 y"
proof -
  have "2 powi ilog2 x < (2 powi (ilog2 y + 1) :: rat)"
    using assms ilog2_bounds [of x] ilog2_bounds [of y] by linarith
  then show ?thesis by (auto dest: two_powi_less_cancel)
qed

lemma rne_of_int [simp]: "rne (of_int n) = n"
  by (simp add: rne_def Let_def)

lemma rne_bounds: "x - 1 / 2 \<le> of_int (rne x)" "of_int (rne x) \<le> x + 1 / 2"
  by (auto simp: rne_def Let_def; linarith)+

lemma rne_mono:
  assumes "x \<le> y"
  shows "rne x \<le> rne y"
proof (cases "\<lfloor>x\<rfloor> = \<lfloor>y\<rfloor>")
  case True
  then show ?thesis using assms by (auto simp: rne_def Let_def)
next
  case False
  then have "\<lfloor>x\<rfloor> + 1 \<le> \<lfloor>y\<rfloor>" using floor_mono [OF assms] by linarith
  moreover have "rne x \<le> \<lfloor>x\<rfloor> + 1" "\<lfloor>y\<rfloor> \<le> rne y" by (auto simp: rne_def Let_def)
  ultimately show ?thesis by linarith
qed

lemma rne_minus: "rne (- x) = - rne x"
proof (cases "of_int \<lfloor>x\<rfloor> = x")
  case True
  then obtain n where "x = of_int n" by metis
  then show ?thesis by (metis of_int_minus rne_of_int)
next
  case False
  moreover have "of_int \<lfloor>x\<rfloor> \<le> x" "x < of_int \<lfloor>x\<rfloor> + 1" by linarith+
  ultimately have lt: "of_int \<lfloor>x\<rfloor> < x" by linarith
  then have f: "\<lfloor>- x\<rfloor> = - \<lfloor>x\<rfloor> - 1"
    by (intro floor_unique) (simp_all, linarith)
  show ?thesis unfolding rne_def Let_def f using False
    by auto
qed


lemma ulp_exp_mono:
  assumes "0 < x" and "x \<le> y"
  shows "ulp_exp x \<le> ulp_exp y"
  using ilog2_mono [OF assms] assms by (simp add: ulp_exp_def)

lemma rnd_fin_minus: "rnd_fin (- x) = - rnd_fin x"
  by (simp add: rnd_fin_def ulp_exp_def rne_minus flip: minus_divide_left)

lemma rnd_fin_nonneg: "0 \<le> x \<Longrightarrow> 0 \<le> rnd_fin x"
  using rne_mono [of 0 "x / 2 powi ulp_exp x"] rne_of_int [of 0]
  by (auto simp: rnd_fin_def)

text \<open>A binade boundary is on the grid of every smaller value: rounding never crosses it.\<close>

lemma powi_of_int: "0 \<le> k \<Longrightarrow> (2 :: rat) powi k = of_int (2 ^ nat k)"
  by (simp add: power_int_def)

lemma rnd_fin_le_pow:
  assumes "0 < x" and "x \<le> 2 powi k" and "ulp_exp x \<le> k"
  shows "rnd_fin x \<le> 2 powi k"
proof -
  let ?e = "ulp_exp x"
  have p: "(2 :: rat) powi (k - ?e) = of_int (2 ^ nat (k - ?e))"
    using assms(3) by (intro powi_of_int) simp
  have "x / 2 powi ?e \<le> 2 powi (k - ?e)"
    using assms(2) by (simp add: divide_le_eq flip: two_powi_split)
  then have "rne (x / 2 powi ?e) \<le> 2 ^ nat (k - ?e)"
    unfolding p by (metis rne_mono rne_of_int)
  then have "(of_int (rne (x / 2 powi ?e)) :: rat) \<le> 2 powi (k - ?e)"
    unfolding p of_int_le_iff .
  then have "of_int (rne (x / 2 powi ?e)) * 2 powi ?e \<le> (2 powi (k - ?e) * 2 powi ?e :: rat)"
    by (intro mult_right_mono) auto
  then show ?thesis using assms(1) by (simp add: rnd_fin_def flip: two_powi_split)
qed

lemma rnd_fin_ge_pow:
  assumes "2 powi k \<le> x" and "ulp_exp x \<le> k"
  shows "2 powi k \<le> rnd_fin x"
proof -
  let ?e = "ulp_exp x"
  have p: "(2 :: rat) powi (k - ?e) = of_int (2 ^ nat (k - ?e))"
    using assms(2) by (intro powi_of_int) simp
  have "2 powi (k - ?e) \<le> x / 2 powi ?e"
    using assms(1) by (simp add: le_divide_eq flip: two_powi_split)
  then have "2 ^ nat (k - ?e) \<le> rne (x / 2 powi ?e)"
    unfolding p by (metis rne_mono rne_of_int)
  then have "2 powi (k - ?e) \<le> (of_int (rne (x / 2 powi ?e)) :: rat)"
    unfolding p of_int_le_iff .
  then have "(2 powi (k - ?e) * 2 powi ?e :: rat) \<le> of_int (rne (x / 2 powi ?e)) * 2 powi ?e"
    by (intro mult_right_mono) auto
  moreover have "x \<noteq> 0" using assms(1) two_powi_pos [of k] by linarith
  ultimately show ?thesis by (simp add: rnd_fin_def flip: two_powi_split)
qed

lemma rnd_fin_mono_pos:
  assumes "0 < x" and "x \<le> y"
  shows "rnd_fin x \<le> rnd_fin y"
proof (cases "ulp_exp x = ulp_exp y")
  case True
  have "rne (x / 2 powi ulp_exp y) \<le> rne (y / 2 powi ulp_exp y)"
    using assms by (intro rne_mono divide_right_mono) auto
  then show ?thesis using assms True by (auto simp: rnd_fin_def intro!: mult_right_mono)
next
  case False
  then have lt: "ulp_exp x < ulp_exp y" using ulp_exp_mono [OF assms] by simp
  have y: "0 < y" using assms by simp
  have ey: "ulp_exp y = ilog2 y - 52" using lt assms y by (auto simp: ulp_exp_def)
  have il: "ilog2 x < ilog2 y" using lt assms y unfolding ulp_exp_def by (auto split: if_splits simp: max_def)
  have "x \<le> 2 powi ilog2 y"
    using ilog2_bounds [OF assms(1)] two_powi_mono [of "ilog2 x + 1" "ilog2 y"] il by linarith
  then have "rnd_fin x \<le> 2 powi ilog2 y"
    using assms(1) lt ey by (intro rnd_fin_le_pow) auto
  also have "\<dots> \<le> rnd_fin y"
    using ilog2_bounds [OF y] ey by (intro rnd_fin_ge_pow) auto
  finally show ?thesis .
qed

lemma rnd_fin_mono:
  assumes "x \<le> y"
  shows "rnd_fin x \<le> rnd_fin y"
proof -
  consider "0 < x" | "x \<le> 0" "0 \<le> y" | "y < 0" by linarith
  then show ?thesis
  proof cases
    case 1
    then show ?thesis using assms by (rule rnd_fin_mono_pos)
  next
    case 2
    have "0 \<le> rnd_fin (- x)" "0 \<le> rnd_fin y" using 2 by (auto intro: rnd_fin_nonneg)
    then show ?thesis by (simp add: rnd_fin_minus)
  next
    case 3
    then have "rnd_fin (- y) \<le> rnd_fin (- x)" using assms by (intro rnd_fin_mono_pos) auto
    then show ?thesis by (simp add: rnd_fin_minus)
  qed
qed

lemma rnd_mono: "x \<le> y \<Longrightarrow> fle (rnd x) (rnd y)"
  using rnd_fin_mono [of x y] by (auto simp: rnd_def Let_def)

lemma rnd_not_NaN [simp]: "rnd x \<noteq> NaN" "NaN \<noteq> rnd x"
  by (auto simp: rnd_def Let_def)

text \<open>In the normal range rounding moves a value by at most one part in \<open>2 ^ 53\<close>.\<close>

lemma rnd_fin_rel:
  assumes "2 powi (- 1022) \<le> x"
  shows "x * (1 - 1 / 2 ^ 53) \<le> rnd_fin x" and "rnd_fin x \<le> x * (1 + 1 / 2 ^ 53)"
proof -
  have x: "0 < x" using assms two_powi_pos [of "- 1022"] by linarith
  note b = ilog2_bounds [OF x]
  have "(2 :: rat) powi (- 1022) < 2 powi (ilog2 x + 1)" using assms b by linarith
  then have "- 1022 < ilog2 x + 1" by (rule two_powi_less_cancel)
  then have e: "ulp_exp x = ilog2 x - 52" using x by (simp add: ulp_exp_def)
  have split: "(2 :: rat) powi ilog2 x = 2 powi ulp_exp x * 2 ^ 52"
    using two_powi_split [of "ulp_exp x" 52] by (simp add: e)
  let ?u = "(2 :: rat) powi ulp_exp x"
  have u: "0 < ?u" by simp
  have ux: "?u * 2 ^ 52 \<le> x" using b split by simp
  have r: "rnd_fin x = of_int (rne (x / ?u)) * ?u" using x by (simp add: rnd_fin_def)
  have "(x / ?u - 1 / 2) * ?u \<le> rnd_fin x" "rnd_fin x \<le> (x / ?u + 1 / 2) * ?u"
    unfolding r using rne_bounds [of "x / ?u"] u by (auto intro!: mult_right_mono)
  moreover have "x / ?u * ?u = x" using u by simp
  ultimately have "x - ?u / 2 \<le> rnd_fin x" "rnd_fin x \<le> x + ?u / 2"
    by (simp_all only: left_diff_distrib distrib_right)
  then show "x * (1 - 1 / 2 ^ 53) \<le> rnd_fin x" "rnd_fin x \<le> x * (1 + 1 / 2 ^ 53)"
    using ux by (simp_all add: algebra_simps)
qed

text \<open>Values with at most 53 significant bits are exact.\<close>

lemma rnd_fin_dyadic:
  assumes "\<bar>m\<bar> < 2 ^ 53" and "- 1074 \<le> e"
  shows "rnd_fin (of_int m * 2 powi e) = of_int m * 2 powi e"
proof (cases "m = 0")
  case True
  then show ?thesis by (simp add: rnd_fin_def)
next
  case False
  define x where "x = (of_int m * 2 powi e :: rat)"
  have ax: "\<bar>x\<bar> = of_int \<bar>m\<bar> * 2 powi e" by (simp add: x_def abs_mult)
  have pos: "0 < \<bar>x\<bar>" using False by (simp add: x_def)
  have "(of_int \<bar>m\<bar> :: rat) < of_int (2 ^ 53)" using assms(1) unfolding of_int_less_iff .
  then have "of_int \<bar>m\<bar> * 2 powi e < (2 ^ 53 * 2 powi e :: rat)" by simp
  then have "\<bar>x\<bar> < 2 powi (e + 53)" unfolding ax by (simp add: power_int_add)
  then have "2 powi ilog2 \<bar>x\<bar> < (2 powi (e + 53) :: rat)"
    using ilog2_bounds [OF pos] by linarith
  then have "ilog2 \<bar>x\<bar> < e + 53" by (rule two_powi_less_cancel)
  then have e: "ulp_exp x \<le> e" using assms(2) by (simp add: ulp_exp_def)
  have "x / 2 powi ulp_exp x = of_int m * 2 powi (e - ulp_exp x)"
    by (simp add: x_def power_int_diff)
  also have "\<dots> = of_int (m * 2 ^ nat (e - ulp_exp x))"
    using e by (simp add: powi_of_int)
  finally have eq: "x / 2 powi ulp_exp x = of_int (m * 2 ^ nat (e - ulp_exp x))" .
  have "of_int (rne (x / 2 powi ulp_exp x)) = x / 2 powi ulp_exp x"
    unfolding eq rne_of_int ..
  then have "rnd_fin x = x" using pos by (simp add: rnd_fin_def)
  then show ?thesis by (simp add: x_def)
qed

lemma rnd_dyadic:
  assumes "\<bar>m\<bar> < 2 ^ 53" and "- 1074 \<le> e" and "e \<le> 970"
  shows "rnd (of_int m * 2 powi e) = Fin (of_int m * 2 powi e)"
proof -
  have "(2 :: rat) powi e \<le> 2 powi 970" using assms(3) by (rule two_powi_mono)
  moreover have "(of_int \<bar>m\<bar> :: rat) < of_int (2 ^ 53)" using assms(1) unfolding of_int_less_iff .
  ultimately have "of_int \<bar>m\<bar> * 2 powi e < (of_int (2 ^ 53) * 2 powi 970 :: rat)"
    by (intro mult_less_le_imp_less) auto
  also have "\<dots> = 2 powi 1023" by (simp add: power_int_def)
  also have "(2 :: rat) powi 1023 < 2 powi 1024" by (rule power_int_strict_increasing) auto
  finally have "\<bar>of_int m * 2 powi e\<bar> < (2 ^ 1024 :: rat)"
    by (simp add: abs_mult power_int_def)
  then show ?thesis
    using rnd_fin_dyadic [OF assms(1,2)] by (auto simp: rnd_def Let_def)
qed

lemma rnd_int: "\<bar>m\<bar> < 2 ^ 53 \<Longrightarrow> rnd (of_int m) = Fin (of_int m)"
  using rnd_dyadic [of m 0] by simp

lemma rnd_zero [simp]: "rnd 0 = Fin 0"
  using rnd_int [of 0] by simp

lemma rnd_one [simp]: "rnd 1 = Fin 1"
  using rnd_int [of 1] by simp

lemma rnd_numeral [simp]: "(numeral n :: int) < 2 ^ 53 \<Longrightarrow> rnd (numeral n) = Fin (numeral n)"
  using rnd_int [of "numeral n"] by simp

lemma rnd_neg_numeral [simp]:
  "(numeral n :: int) < 2 ^ 53 \<Longrightarrow> rnd (- numeral n) = Fin (- numeral n)"
  using rnd_int [of "- numeral n"] by simp

lemma rnd_over_pow2:
  assumes "\<bar>m\<bar> < 2 ^ 53" and "k \<le> 1074"
  shows "rnd (of_int m / 2 ^ k) = Fin (of_int m / 2 ^ k)"
  using rnd_dyadic [of m "- int k"] assms
  by (simp add: power_int_minus divide_inverse)

lemma rnd_half: "rnd (1 / 2) = Fin (1 / 2)"
  using rnd_over_pow2 [of 1 1] by simp

section \<open>Order facts\<close>

lemma fle_refl [simp]: "x \<noteq> NaN \<Longrightarrow> fle x x"
  by (cases x) auto

lemma fle_NaN [simp]: "\<not> fle x NaN" "\<not> flt x NaN"
  by (cases x; simp)+

lemma fle_trans: "fle x y \<Longrightarrow> fle y z \<Longrightarrow> fle x z"
  by (cases x; cases y; cases z) auto

lemma flt_fle: "flt x y \<Longrightarrow> fle x y"
  by (cases x; cases y) auto

lemma flt_irrefl [simp]: "\<not> flt x x"
  by (cases x) auto

lemma flt_fle_trans: "flt x y \<Longrightarrow> fle y z \<Longrightarrow> flt x z"
  by (cases x; cases y; cases z) auto

lemma fle_flt_trans: "fle x y \<Longrightarrow> flt y z \<Longrightarrow> flt x z"
  by (cases x; cases y; cases z) auto

lemma not_fle_flt: "x \<noteq> NaN \<Longrightarrow> y \<noteq> NaN \<Longrightarrow> \<not> fle x y \<longleftrightarrow> flt y x"
  by (cases x; cases y) auto

lemma not_flt_fle: "x \<noteq> NaN \<Longrightarrow> y \<noteq> NaN \<Longrightarrow> \<not> flt x y \<longleftrightarrow> fle y x"
  by (cases x; cases y) auto

lemma fle_antisym: "fle x y \<Longrightarrow> fle y x \<Longrightarrow> x = y"
  by (cases x; cases y) auto

lemma fle_not_NaN: "fle x y \<Longrightarrow> x \<noteq> NaN \<and> y \<noteq> NaN"
  by (cases x; cases y) auto

lemma flt_not_NaN: "flt x y \<Longrightarrow> x \<noteq> NaN \<and> y \<noteq> NaN"
  by (cases x; cases y) auto

lemma fmin_le2: "y \<noteq> NaN \<Longrightarrow> fle (fmin x y) y"
  by (cases x; cases y) (auto simp: fmin_def)

lemma fmax_ge:
  "x \<noteq> NaN \<Longrightarrow> fle x (fmax x y)"
  "y \<noteq> NaN \<Longrightarrow> fle y (fmax x y)"
  by (cases x; cases y; auto simp: fmax_def)+

lemma fclamp_range:
  assumes "fle lo hi" and "x \<noteq> NaN"
  shows "fle lo (fclamp lo hi x) \<and> fle (fclamp lo hi x) hi"
  using assms by (cases x; cases lo; cases hi) (auto simp: fclamp_def)

text \<open>Multiplying by a non-negative factor and adding keep the order.\<close>

lemma fmul_Fin_mono:
  assumes "0 \<le> c" and "a \<le> b"
  shows "fle (fmul (Fin c) (Fin a)) (fmul (Fin c) (Fin b))"
  using assms by (auto intro: rnd_mono mult_left_mono)

lemma f64_of_int_mono: "m \<le> n \<Longrightarrow> fle (f64_of_int m) (f64_of_int n)"
  by (simp add: f64_of_int_def rnd_mono)

lemma f64_of_int_small: "\<bar>n\<bar> < 2 ^ 53 \<Longrightarrow> f64_of_int n = Fin (of_int n)"
  by (simp add: f64_of_int_def rnd_int)

section \<open>Accumulated rounding error\<close>

text \<open>\<open>y\<close> is the exact \<open>x\<close> up to \<open>k\<close> roundings.\<close>

definition near :: "nat \<Rightarrow> rat \<Rightarrow> rat \<Rightarrow> bool" where
  "near k x y \<longleftrightarrow> x * (1 - 1 / 2 ^ 53) ^ k \<le> y \<and> y \<le> x * (1 + 1 / 2 ^ 53) ^ k"

lemma near_refl [simp]: "near 0 x x"
  by (simp add: near_def)

lemma near_zero [simp]: "near k 0 y \<longleftrightarrow> y = 0"
  by (auto simp: near_def)

lemma near_weaken:
  assumes "near k x y" and "k \<le> m" and "0 \<le> x"
  shows "near m x y"
proof -
  have "(1 - 1 / 2 ^ 53 :: rat) ^ m \<le> (1 - 1 / 2 ^ 53) ^ k" using assms(2) by (intro power_decreasing) simp_all
  then have "x * (1 - 1 / 2 ^ 53) ^ m \<le> x * (1 - 1 / 2 ^ 53) ^ k" using assms(3) by (rule mult_left_mono)
  moreover have "(1 + 1 / 2 ^ 53 :: rat) ^ k \<le> (1 + 1 / 2 ^ 53) ^ m" using assms(2) by (intro power_increasing) simp_all
  then have "x * (1 + 1 / 2 ^ 53) ^ k \<le> x * (1 + 1 / 2 ^ 53) ^ m" using assms(3) by (rule mult_left_mono)
  ultimately show ?thesis using assms(1) unfolding near_def by linarith
qed

lemma near_add: "near k x y \<Longrightarrow> near k x' y' \<Longrightarrow> near k (x + x') (y + y')"
  unfolding near_def by (simp add: distrib_right add_mono)

lemma near_scale:
  assumes "near k x y" and "0 \<le> c"
  shows "near k (c * x) (c * y)"
proof -
  have "c * (x * (1 - 1 / 2 ^ 53) ^ k) \<le> c * y" "c * y \<le> c * (x * (1 + 1 / 2 ^ 53) ^ k)"
    using assms by (auto simp: near_def intro!: mult_left_mono)
  then show ?thesis by (simp add: near_def ac_simps)
qed

lemma near_pos: "near k x y \<Longrightarrow> 0 < x \<Longrightarrow> 0 < y"
  unfolding near_def by (elim conjE, erule less_le_trans [rotated]) simp

text \<open>In closed form: \<open>k\<close> roundings stay within \<open>k / 2 ^ 52\<close>.\<close>

lemma power_below: "0 \<le> (e :: rat) \<Longrightarrow> e \<le> 1 \<Longrightarrow> 1 - of_nat k * e \<le> (1 - e) ^ k"
proof (induction k)
  case (Suc k)
  have "1 - of_nat (Suc k) * e \<le> (1 - of_nat k * e) * (1 - e)" using Suc.prems by (simp add: algebra_simps)
  also have "\<dots> \<le> (1 - e) ^ k * (1 - e)" using Suc by (intro mult_right_mono) simp_all
  finally show ?case by (simp add: mult.commute)
qed simp

lemma power_above: "0 \<le> (e :: rat) \<Longrightarrow> 2 * of_nat k * e \<le> 1 \<Longrightarrow> (1 + e) ^ k \<le> 1 + 2 * of_nat k * e"
proof (induction k)
  case (Suc k)
  have s: "2 * of_nat k * e \<le> 1" using Suc.prems by (simp add: algebra_simps)
  have "(1 + e) ^ k * (1 + e) \<le> (1 + 2 * of_nat k * e) * (1 + e)"
    using Suc.IH [OF Suc.prems(1) s] Suc.prems(1) by (intro mult_right_mono) simp_all
  also have "\<dots> \<le> 1 + 2 * of_nat (Suc k) * e"
    using mult_right_mono [OF s Suc.prems(1)] by (simp add: algebra_simps)
  finally show ?case by (simp add: mult.commute)
qed simp

lemma near_interval:
  assumes "near k x y" and "0 \<le> x" and "k \<le> 2 ^ 52"
  shows "x * (1 - of_nat k / 2 ^ 52) \<le> y" and "y \<le> x * (1 + of_nat k / 2 ^ 52)"
proof -
  have "(of_nat k :: rat) \<le> of_nat (2 ^ 52)" using assms(3) unfolding of_nat_le_iff .
  then have "(1 + 1 / 2 ^ 53) ^ k \<le> (1 + of_nat k / 2 ^ 52 :: rat)"
    using power_above [of "1 / 2 ^ 53" k] by (simp add: field_simps)
  then have "x * (1 + 1 / 2 ^ 53) ^ k \<le> x * (1 + of_nat k / 2 ^ 52)" using assms(2) by (rule mult_left_mono)
  then show "y \<le> x * (1 + of_nat k / 2 ^ 52)" using assms(1) by (simp add: near_def)
  have "(1 - of_nat k / 2 ^ 52 :: rat) \<le> 1 - of_nat k * (1 / 2 ^ 53)" by (simp add: field_simps)
  also have "(1 - of_nat k * (1 / 2 ^ 53) :: rat) \<le> (1 - 1 / 2 ^ 53) ^ k" by (rule power_below) simp_all
  finally have "(1 - of_nat k / 2 ^ 52 :: rat) \<le> (1 - 1 / 2 ^ 53) ^ k" .
  then have "x * (1 - of_nat k / 2 ^ 52) \<le> x * (1 - 1 / 2 ^ 53) ^ k" using assms(2) by (rule mult_left_mono)
  then show "x * (1 - of_nat k / 2 ^ 52) \<le> y" using assms(1) by (simp add: near_def)
qed

lemma near_rnd:
  assumes n: "near k x y" and x: "0 \<le> x" and y: "y = 0 \<or> 2 powi (- 1022) \<le> y" "y \<le> 2 ^ 1000"
  obtains q where "rnd y = Fin q" and "near (Suc k) x q"
proof (cases "y = 0")
  case True
  then have "x = 0" using near_pos [OF n] x by force
  then show thesis using that [of 0] True by simp
next
  case False
  then have lo: "2 powi (- 1022) \<le> y" using y by simp
  note r = rnd_fin_rel [OF lo]
  have y0: "0 \<le> y" using lo two_powi_pos [of "- 1022"] by linarith
  have "y * (1 + 1 / 2 ^ 53) \<le> 2 ^ 1000 * (1 + 1 / 2 ^ 53)" using y(2) by (rule mult_right_mono) simp
  also have "\<dots> < (2 ^ 1024 :: rat)" by simp
  finally have small: "rnd_fin y < 2 ^ 1024" using r by linarith
  have "0 \<le> rnd_fin y" using y0 by (rule rnd_fin_nonneg)
  moreover have "- (2 ^ 1024) < (0 :: rat)" by simp
  ultimately have "\<not> rnd_fin y \<le> - (2 ^ 1024)" by linarith
  with small have q: "rnd y = Fin (rnd_fin y)" by (simp add: rnd_def Let_def)
  have "x * (1 - 1 / 2 ^ 53) ^ k * (1 - 1 / 2 ^ 53) \<le> y * (1 - 1 / 2 ^ 53)"
    using n by (intro mult_right_mono) (simp_all add: near_def)
  moreover have "y * (1 + 1 / 2 ^ 53) \<le> x * (1 + 1 / 2 ^ 53) ^ k * (1 + 1 / 2 ^ 53)"
    using n by (intro mult_right_mono) (simp_all add: near_def)
  ultimately have "near (Suc k) x (rnd_fin y)"
    unfolding near_def power_Suc2 using r by (simp only: mult.assoc) linarith
  with q show thesis by (rule that)
qed

end
