(* ===== verification/AdaptiveTrail.thy ===== *)
theory AdaptiveTrail
  imports F64
begin

text \<open>
  \<open>crates/bsc-runner/src/trader/adaptive_trail.rs\<close>, the pure part: the per-position trail
  state with its circular price history, and \<open>step\<close>, which folds one price observation into
  the state and decides whether the position is left. An array access out of range panics
  in Rust; the panic is the result \<open>None\<close>, and \<open>trail_wf\<close> states never reach it.
\<close>

section \<open>Configuration and state\<close>

record trail_config =
  tc_enabled :: bool
  tc_arm_pct :: f64
  tc_trail_pct :: f64
  tc_hard_sl_pct :: f64
  tc_max_hold_blocks :: u64
  tc_ws_url :: string
  tc_rpc_url :: string
  tc_breakeven_at_pct :: f64
  tc_breakeven_lock_pct :: f64

definition trail_config_default :: trail_config where
  "trail_config_default = \<lparr>tc_enabled = False, tc_arm_pct = flit (20 / 100),
     tc_trail_pct = flit (10 / 100), tc_hard_sl_pct = flit (30 / 100),
     tc_max_hold_blocks = 4000, tc_ws_url = [], tc_rpc_url = [],
     tc_breakeven_at_pct = flit (15 / 100), tc_breakeven_lock_pct = flit (5 / 100)\<rparr>"

definition PRICE_HISTORY_LEN :: nat where
  "PRICE_HISTORY_LEN = 10"

record trail_state =
  ts_entry_price :: f64
  ts_peak_price :: f64
  ts_last_price :: f64
  ts_armed :: bool
  ts_opened_block :: u64
  ts_last_observed_block :: u64
  ts_price_history :: "f64 list"
  ts_history_count :: u8
  ts_history_idx :: u8
  ts_breakeven_ratcheted :: bool

definition trail_state_default :: trail_state where
  "trail_state_default = \<lparr>ts_entry_price = Fin 0, ts_peak_price = Fin 0, ts_last_price = Fin 0,
     ts_armed = False, ts_opened_block = 0, ts_last_observed_block = 0,
     ts_price_history = replicate PRICE_HISTORY_LEN (Fin 0), ts_history_count = 0,
     ts_history_idx = 0, ts_breakeven_ratcheted = False\<rparr>"

datatype exit_reason = HardStopLoss | BreakevenLocked | SignalDump | SignalVote | Trail | Timeout

fun exit_label :: "exit_reason \<Rightarrow> string" where
  "exit_label HardStopLoss = ''hard_sl''"
| "exit_label BreakevenLocked = ''be_locked''"
| "exit_label SignalDump = ''signal_dump''"
| "exit_label SignalVote = ''signal_vote''"
| "exit_label Trail = ''trail''"
| "exit_label Timeout = ''timeout''"

section \<open>One tick\<close>

text \<open>Update the peak and the last observation, push the price into the ring.\<close>

definition observe_peak :: "trail_state \<Rightarrow> f64 \<Rightarrow> u64 \<Rightarrow> trail_state" where
  "observe_peak s price block =
     (if flt (ts_peak_price s) price then s\<lparr>ts_peak_price := price\<rparr> else s)
       \<lparr>ts_last_price := price, ts_last_observed_block := block\<rparr>"

definition push_history :: "trail_state \<Rightarrow> f64 \<Rightarrow> trail_state option" where
  "push_history s price =
     (let idx = unat (ts_history_idx s)
      in if idx < length (ts_price_history s)
         then Some (s\<lparr>ts_price_history := (ts_price_history s)[idx := price],
                 ts_history_idx := of_nat ((idx + 1) mod PRICE_HISTORY_LEN),
                 ts_history_count := (if unat (ts_history_count s) < PRICE_HISTORY_LEN
                    then ts_history_count s + 1 else ts_history_count s)\<rparr>)
         else None)"

definition arm_threshold :: "trail_config \<Rightarrow> trail_state \<Rightarrow> f64" where
  "arm_threshold cfg s = fmul (ts_entry_price s) (fadd (Fin 1) (tc_arm_pct cfg))"

definition ratchet_threshold :: "trail_config \<Rightarrow> trail_state \<Rightarrow> f64" where
  "ratchet_threshold cfg s = fmul (ts_entry_price s) (fadd (Fin 1) (tc_breakeven_at_pct cfg))"

definition update_arm :: "trail_config \<Rightarrow> trail_state \<Rightarrow> trail_state" where
  "update_arm cfg s =
     (if \<not> ts_armed s \<and> fle (arm_threshold cfg s) (ts_peak_price s)
      then s\<lparr>ts_armed := True\<rparr> else s)"

definition update_ratchet :: "trail_config \<Rightarrow> trail_state \<Rightarrow> trail_state" where
  "update_ratchet cfg s =
     (if \<not> ts_breakeven_ratcheted s \<and> fle (ratchet_threshold cfg s) (ts_peak_price s)
      then s\<lparr>ts_breakeven_ratcheted := True\<rparr> else s)"

definition hard_sl_floor :: "trail_config \<Rightarrow> trail_state \<Rightarrow> f64" where
  "hard_sl_floor cfg s = fmul (ts_entry_price s) (fsub (Fin 1) (tc_hard_sl_pct cfg))"

definition lock_floor :: "trail_config \<Rightarrow> trail_state \<Rightarrow> f64" where
  "lock_floor cfg s = fmul (ts_entry_price s) (fadd (Fin 1) (tc_breakeven_lock_pct cfg))"

definition effective_floor :: "trail_config \<Rightarrow> trail_state \<Rightarrow> f64" where
  "effective_floor cfg s =
     (if ts_breakeven_ratcheted s then fmax (hard_sl_floor cfg s) (lock_floor cfg s)
      else hard_sl_floor cfg s)"

text \<open>The stop-loss check with its two reasons.\<close>

definition check_floor :: "trail_config \<Rightarrow> trail_state \<Rightarrow> f64 \<Rightarrow> exit_reason option" where
  "check_floor cfg s price =
     (if fle price (effective_floor cfg s)
      then (if ts_breakeven_ratcheted s \<and> flt (hard_sl_floor cfg s) (lock_floor cfg s)
            then Some BreakevenLocked else Some HardStopLoss)
      else None)"

definition local_max :: "trail_state \<Rightarrow> f64" where
  "local_max s = foldl fmax (Fin 0) (ts_price_history s)"

definition oldest_price :: "trail_state \<Rightarrow> f64" where
  "oldest_price s = ts_price_history s ! (unat (ts_history_idx s) mod PRICE_HISTORY_LEN)"

text \<open>\<open>dist_from_local_max\<close> and \<open>vel_10\<close> of a price against the history.\<close>

definition dist_from_local_max :: "trail_state \<Rightarrow> f64 \<Rightarrow> f64" where
  "dist_from_local_max s price = fdiv (fsub (local_max s) price) (local_max s)"

definition vel_10 :: "trail_state \<Rightarrow> f64 \<Rightarrow> f64" where
  "vel_10 s price = fdiv (fdiv (fsub price (oldest_price s)) (oldest_price s)) (Fin 10)"

definition dist_signal :: "trail_state \<Rightarrow> f64 \<Rightarrow> bool" where
  "dist_signal s price = flt (flit (30 / 100)) (dist_from_local_max s price)"

definition vel_signal :: "trail_state \<Rightarrow> f64 \<Rightarrow> bool" where
  "vel_signal s price = flt (vel_10 s price) (flit (- 1 / 100))"

definition check_signal_dump :: "trail_state \<Rightarrow> f64 \<Rightarrow> exit_reason option" where
  "check_signal_dump s price =
     (if ts_armed s \<and> PRICE_HISTORY_LEN \<le> unat (ts_history_count s)
      then (if flt (Fin 0) (local_max s) \<and> flt (Fin 0) (oldest_price s)
            then (if dist_signal s price \<and> vel_signal s price then Some SignalDump else None)
            else None)
      else None)"

definition trail_floor :: "trail_config \<Rightarrow> trail_state \<Rightarrow> f64" where
  "trail_floor cfg s = fmul (ts_peak_price s) (fsub (Fin 1) (tc_trail_pct cfg))"

definition check_trail :: "trail_config \<Rightarrow> trail_state \<Rightarrow> f64 \<Rightarrow> exit_reason option" where
  "check_trail cfg s price =
     (if ts_armed s then (if fle price (trail_floor cfg s) then Some Trail else None) else None)"

definition check_timeout :: "trail_config \<Rightarrow> trail_state \<Rightarrow> u64 \<Rightarrow> exit_reason option" where
  "check_timeout cfg s block =
     (if tc_max_hold_blocks cfg \<le> sat_sub block (ts_opened_block s) then Some Timeout else None)"

text \<open>The checks in the code's order; the first that fires wins.\<close>

definition decide_exit :: "trail_config \<Rightarrow> trail_state \<Rightarrow> f64 \<Rightarrow> u64 \<Rightarrow> exit_reason option" where
  "decide_exit cfg s price block =
     (case check_floor cfg s price of Some r \<Rightarrow> Some r | None \<Rightarrow>
      (case check_signal_dump s price of Some r \<Rightarrow> Some r | None \<Rightarrow>
       (case check_trail cfg s price of Some r \<Rightarrow> Some r | None \<Rightarrow>
        check_timeout cfg s block)))"

definition trail_step ::
  "trail_state \<Rightarrow> trail_config \<Rightarrow> f64 \<Rightarrow> u64 \<Rightarrow> (trail_state \<times> exit_reason option) option" where
  "trail_step s cfg price block =
     (case push_history (observe_peak s price block) price of
        None \<Rightarrow> None
      | Some s1 \<Rightarrow>
          (let s2 = update_ratchet cfg (update_arm cfg s1)
           in Some (s2, decide_exit cfg s2 price block)))"

text \<open>The observations of one position, tick by tick, until an exit (or a panic).\<close>

fun trail_run ::
  "trail_config \<Rightarrow> trail_state \<Rightarrow> (f64 \<times> u64) list \<Rightarrow> (trail_state \<times> exit_reason option) option" where
  "trail_run cfg s [] = Some (s, None)"
| "trail_run cfg s ((p, b) # obs) =
     (case trail_step s cfg p b of
        None \<Rightarrow> None
      | Some (s', Some r) \<Rightarrow> Some (s', Some r)
      | Some (s', None) \<Rightarrow> trail_run cfg s' obs)"

section \<open>The price ring\<close>

definition trail_wf :: "trail_state \<Rightarrow> bool" where
  "trail_wf s \<longleftrightarrow> length (ts_price_history s) = PRICE_HISTORY_LEN
     \<and> unat (ts_history_idx s) < PRICE_HISTORY_LEN
     \<and> unat (ts_history_count s) \<le> PRICE_HISTORY_LEN
     \<and> (unat (ts_history_count s) < PRICE_HISTORY_LEN \<longrightarrow> ts_history_idx s = ts_history_count s)"

text \<open>The prices the ring holds, oldest first.\<close>

definition recent_prices :: "trail_state \<Rightarrow> f64 list" where
  "recent_prices s =
     (let idx = unat (ts_history_idx s); h = ts_price_history s
      in if unat (ts_history_count s) < PRICE_HISTORY_LEN then take (unat (ts_history_count s)) h
         else drop idx h @ take idx h)"

lemma unat_u8_Suc: "unat (w :: u8) < 255 \<Longrightarrow> unat (w + 1) = unat w + 1"
  by (simp add: unat_word_ariths)

lemma unat_of_nat_u8: "n < 256 \<Longrightarrow> unat (of_nat n :: u8) = n"
  by (simp add: unat_of_nat)

lemma push_history_ring:
  assumes wf: "trail_wf s"
  shows "\<exists>s'. push_history s p = Some s' \<and> trail_wf s'
           \<and> recent_prices s' = lastn PRICE_HISTORY_LEN (recent_prices s @ [p])"
proof -
  let ?i = "unat (ts_history_idx s)" and ?c = "unat (ts_history_count s)"
  let ?h = "ts_price_history s"
  have L: "length ?h = 10" "?i < 10" "?c \<le> 10" "?c < 10 \<Longrightarrow> ?i = ?c"
    using wf by (auto simp: trail_wf_def PRICE_HISTORY_LEN_def)
  obtain s' where s': "push_history s p = Some s'" and
    h': "ts_price_history s' = ?h[?i := p]" and
    i': "unat (ts_history_idx s') = (?i + 1) mod 10" and
    c': "unat (ts_history_count s') = (if ?c < 10 then ?c + 1 else ?c)"
    using L by (auto simp: push_history_def PRICE_HISTORY_LEN_def unat_of_nat_u8 unat_u8_Suc Let_def)
  have wf': "trail_wf s'"
    using L by (auto simp: trail_wf_def PRICE_HISTORY_LEN_def h' i' c' word_unat_eq_iff split: if_splits)
  consider "?c < 9" | "?c = 9" | "?c = 10" using L(3) by linarith
  then have "recent_prices s' = lastn 10 (recent_prices s @ [p])"
  proof cases
    case 1
    then show ?thesis
      using L by (simp add: recent_prices_def PRICE_HISTORY_LEN_def h' c' Let_def take_Suc_conv_app_nth)
  next
    case 2
    then show ?thesis
      using L by (simp add: recent_prices_def PRICE_HISTORY_LEN_def h' c' i' Let_def upd_conv_take_nth_drop)
  next
    case 3
    have "lastn 10 (drop ?i ?h @ take ?i ?h @ [p]) = drop (Suc ?i) ?h @ take ?i ?h @ [p]"
      using L(1,2) by (simp add: lastn_def drop_Suc_Cons Cons_nth_drop_Suc [of ?i ?h, symmetric])
    then show ?thesis
      using L 3 by (cases "?i = 9")
        (simp_all add: recent_prices_def PRICE_HISTORY_LEN_def h' c' i' Let_def
          upd_conv_take_nth_drop)
  qed
  with s' wf' show ?thesis by (auto simp: PRICE_HISTORY_LEN_def)
qed


interpretation price_ring: bounded_window push_history recent_prices trail_wf PRICE_HISTORY_LEN
proof unfold_locales
  show "0 < PRICE_HISTORY_LEN" by (simp add: PRICE_HISTORY_LEN_def)
qed (rule push_history_ring)

section \<open>A tick, part by part\<close>

lemma observe_peak_simps [simp]:
  "ts_entry_price (observe_peak s p b) = ts_entry_price s"
  "ts_last_price (observe_peak s p b) = p"
  "ts_last_observed_block (observe_peak s p b) = b"
  "ts_opened_block (observe_peak s p b) = ts_opened_block s"
  "ts_armed (observe_peak s p b) = ts_armed s"
  "ts_breakeven_ratcheted (observe_peak s p b) = ts_breakeven_ratcheted s"
  "ts_price_history (observe_peak s p b) = ts_price_history s"
  "ts_history_idx (observe_peak s p b) = ts_history_idx s"
  "ts_history_count (observe_peak s p b) = ts_history_count s"
  "ts_peak_price (observe_peak s p b) =
     (if flt (ts_peak_price s) p then p else ts_peak_price s)"
  by (simp_all add: observe_peak_def)

lemma observe_peak_wf [simp]: "trail_wf (observe_peak s p b) = trail_wf s"
  by (simp add: trail_wf_def)

lemma recent_prices_observe [simp]: "recent_prices (observe_peak s p b) = recent_prices s"
  by (simp add: recent_prices_def Let_def cong: if_cong)

lemma push_history_frame:
  assumes "push_history s p = Some s'"
  shows "ts_entry_price s' = ts_entry_price s \<and> ts_peak_price s' = ts_peak_price s
       \<and> ts_last_price s' = ts_last_price s \<and> ts_armed s' = ts_armed s
       \<and> ts_opened_block s' = ts_opened_block s
       \<and> ts_last_observed_block s' = ts_last_observed_block s
       \<and> ts_breakeven_ratcheted s' = ts_breakeven_ratcheted s"
  using assms by (auto simp: push_history_def Let_def split: if_splits)

lemma update_flags_frame:
  "trail_wf (update_ratchet cfg (update_arm cfg s)) = trail_wf s"
  "recent_prices (update_ratchet cfg (update_arm cfg s)) = recent_prices s"
  "ts_entry_price (update_ratchet cfg (update_arm cfg s)) = ts_entry_price s"
  "ts_peak_price (update_ratchet cfg (update_arm cfg s)) = ts_peak_price s"
  "ts_last_price (update_ratchet cfg (update_arm cfg s)) = ts_last_price s"
  "ts_opened_block (update_ratchet cfg (update_arm cfg s)) = ts_opened_block s"
  "ts_armed (update_ratchet cfg (update_arm cfg s)) =
     (ts_armed s \<or> fle (arm_threshold cfg s) (ts_peak_price s))"
  "ts_breakeven_ratcheted (update_ratchet cfg (update_arm cfg s)) =
     (ts_breakeven_ratcheted s \<or> fle (ratchet_threshold cfg s) (ts_peak_price s))"
  by (auto simp: update_ratchet_def update_arm_def trail_wf_def recent_prices_def Let_def
      ratchet_threshold_def cong: if_cong)

text \<open>What one tick does to a well-formed state, field by field.\<close>

definition tick_effect :: "trail_config \<Rightarrow> trail_state \<Rightarrow> f64 \<Rightarrow> trail_state \<Rightarrow> bool" where
  "tick_effect cfg s p s' \<longleftrightarrow> trail_wf s'
     \<and> recent_prices s' = lastn PRICE_HISTORY_LEN (recent_prices s @ [p])
     \<and> ts_entry_price s' = ts_entry_price s \<and> ts_opened_block s' = ts_opened_block s
     \<and> ts_last_price s' = p
     \<and> ts_peak_price s' = (if flt (ts_peak_price s) p then p else ts_peak_price s)
     \<and> ts_armed s' = (ts_armed s \<or> fle (arm_threshold cfg s) (ts_peak_price s'))
     \<and> ts_breakeven_ratcheted s' =
         (ts_breakeven_ratcheted s \<or> fle (ratchet_threshold cfg s) (ts_peak_price s'))"

lemma trail_step_spec:
  assumes "trail_wf s"
  obtains s' where "trail_step s cfg p b = Some (s', decide_exit cfg s' p b)"
    and "tick_effect cfg s p s'"
proof -
  have "trail_wf (observe_peak s p b)" using assms by simp
  from push_history_ring [OF this, of p] obtain s1 where
    s1: "push_history (observe_peak s p b) p = Some s1" "trail_wf s1"
      "recent_prices s1 = lastn PRICE_HISTORY_LEN (recent_prices s @ [p])" by auto
  let ?s2 = "update_ratchet cfg (update_arm cfg s1)"
  have "tick_effect cfg s p ?s2"
    using s1(2,3) push_history_frame [OF s1(1)]
    by (auto simp: tick_effect_def update_flags_frame arm_threshold_def ratchet_threshold_def)
  moreover have "trail_step s cfg p b = Some (?s2, decide_exit cfg ?s2 p b)"
    by (simp add: trail_step_def s1(1) Let_def)
  ultimately show thesis using that by blast
qed

section \<open>Exit priority\<close>

text \<open>The reasons in the order the code checks them; the smaller reason wins.\<close>

fun reason_rank :: "exit_reason \<Rightarrow> nat" where
  "reason_rank HardStopLoss = 0"
| "reason_rank BreakevenLocked = 1"
| "reason_rank SignalVote = 2"
| "reason_rank SignalDump = 3"
| "reason_rank Trail = 4"
| "reason_rank Timeout = 5"

lemma reason_rank_inj: "reason_rank x = reason_rank y \<longleftrightarrow> x = y"
  by (cases x; cases y) auto

instantiation exit_reason :: linorder
begin

definition less_eq_exit_reason :: "exit_reason \<Rightarrow> exit_reason \<Rightarrow> bool" where
  "less_eq_exit_reason x y \<longleftrightarrow> reason_rank x \<le> reason_rank y"

definition less_exit_reason :: "exit_reason \<Rightarrow> exit_reason \<Rightarrow> bool" where
  "less_exit_reason x y \<longleftrightarrow> reason_rank x < reason_rank y"

instance
  by standard (auto simp: less_eq_exit_reason_def less_exit_reason_def reason_rank_inj
      simp flip: reason_rank_inj)

end

text \<open>When each reason holds of a state, on its own, in any order.\<close>

fun reason_holds :: "trail_config \<Rightarrow> trail_state \<Rightarrow> f64 \<Rightarrow> u64 \<Rightarrow> exit_reason \<Rightarrow> bool" where
  "reason_holds cfg s p b HardStopLoss =
     (fle p (effective_floor cfg s)
      \<and> \<not> (ts_breakeven_ratcheted s \<and> flt (hard_sl_floor cfg s) (lock_floor cfg s)))"
| "reason_holds cfg s p b BreakevenLocked =
     (ts_breakeven_ratcheted s \<and> flt (hard_sl_floor cfg s) (lock_floor cfg s)
      \<and> fle p (lock_floor cfg s))"
| "reason_holds cfg s p b SignalVote = False"
| "reason_holds cfg s p b SignalDump =
     (ts_armed s \<and> ts_history_count s = 10 \<and> flt (Fin 0) (local_max s)
      \<and> flt (Fin 0) (oldest_price s) \<and> dist_signal s p \<and> vel_signal s p)"
| "reason_holds cfg s p b Trail = (ts_armed s \<and> fle p (trail_floor cfg s))"
| "reason_holds cfg s p b Timeout =
     (unat (tc_max_hold_blocks cfg) \<le> unat b - unat (ts_opened_block s))"

lemma effective_floor_locked:
  "ts_breakeven_ratcheted s \<Longrightarrow> flt (hard_sl_floor cfg s) (lock_floor cfg s) \<Longrightarrow>
   effective_floor cfg s = lock_floor cfg s"
  by (auto simp: effective_floor_def fmax_def dest: flt_not_NaN)

lemma exit_reason_UNIV:
  "(UNIV :: exit_reason set) =
     {HardStopLoss, BreakevenLocked, SignalDump, SignalVote, Trail, Timeout}"
  using exit_reason.exhaust by auto

lemma finite_reasons [simp]: "finite (X :: exit_reason set)"
  by (rule finite_subset [OF subset_UNIV]) (simp add: exit_reason_UNIV)

lemma Min_reasonI:
  fixes r :: exit_reason
  assumes "r \<in> X" and "\<And>q. q \<in> X \<Longrightarrow> reason_rank r \<le> reason_rank q"
  shows "Min X = r"
  using assms by (intro Min_eqI) (auto simp: less_eq_exit_reason_def)

lemmas decide_defs = decide_exit_def check_floor_def check_signal_dump_def check_trail_def
  check_timeout_def PRICE_HISTORY_LEN_def word_le_nat_alt unat_sat_sub effective_floor_locked

lemma decide_exit_first:
  assumes "trail_wf s"
  shows "decide_exit cfg s p b =
    (if \<exists>r. reason_holds cfg s p b r then Some (Min {r. reason_holds cfg s p b r}) else None)"
proof -
  have c: "10 \<le> unat (ts_history_count s) \<longleftrightarrow> ts_history_count s = 10"
    using assms by (auto simp: trail_wf_def PRICE_HISTORY_LEN_def word_unat_eq_iff)
  let ?X = "{r. reason_holds cfg s p b r}"
  show ?thesis
  proof (cases "decide_exit cfg s p b")
    case None
    then have "\<not> reason_holds cfg s p b r" for r
      by (cases r) (auto simp: c decide_defs
            split: option.splits if_splits)
    with None show ?thesis by auto
  next
    case (Some r)
    have "reason_holds cfg s p b r \<and> (\<forall>q. reason_holds cfg s p b q \<longrightarrow> reason_rank r \<le> reason_rank q)"
    proof (intro conjI allI impI)
      show "reason_holds cfg s p b r"
        using Some by (auto simp: c decide_defs
            split: option.splits if_splits)
      fix q assume "reason_holds cfg s p b q"
      then show "reason_rank r \<le> reason_rank q"
        using Some by (cases q) (auto simp: c decide_defs
            split: option.splits if_splits)
    qed
    then show ?thesis using Some by (auto intro!: Min_reasonI [symmetric])
  qed
qed

section \<open>Whole positions\<close>

text \<open>The state a position starts from, as the ledger initialisation builds it.\<close>

definition fresh_state :: "f64 \<Rightarrow> u64 \<Rightarrow> trail_state" where
  "fresh_state entry block = trail_state_default\<lparr>ts_entry_price := entry,
     ts_peak_price := entry, ts_last_price := entry, ts_armed := False,
     ts_opened_block := block, ts_last_observed_block := block\<rparr>"

lemma fresh_state_simps [simp]:
  "ts_entry_price (fresh_state e b) = e" "ts_peak_price (fresh_state e b) = e"
  "ts_last_price (fresh_state e b) = e" "ts_armed (fresh_state e b) = False"
  "ts_breakeven_ratcheted (fresh_state e b) = False" "ts_opened_block (fresh_state e b) = b"
  by (simp_all add: fresh_state_def trail_state_default_def)

lemma fresh_state_wf [simp]: "trail_wf (fresh_state e b)"
  by (simp add: trail_wf_def fresh_state_def trail_state_default_def PRICE_HISTORY_LEN_def)

lemma recent_prices_fresh [simp]: "recent_prices (fresh_state e b) = []"
  by (simp add: recent_prices_def fresh_state_def trail_state_default_def PRICE_HISTORY_LEN_def)

text \<open>The peak of a stream of prices, from a starting value.\<close>

definition peak_of :: "f64 \<Rightarrow> f64 list \<Rightarrow> f64" where
  "peak_of p ps = foldl (\<lambda>m x. if flt m x then x else m) p ps"

lemma peak_of_simps [simp]:
  "peak_of p [] = p" "peak_of p (x # xs) = peak_of (if flt p x then x else p) xs"
  by (simp_all add: peak_of_def)

lemma peak_of_ge_start: "p \<noteq> NaN \<Longrightarrow> fle p (peak_of p ps)"
proof (induction ps arbitrary: p)
  case (Cons x xs)
  then show ?case
    by (cases "flt p x") (auto dest: flt_fle flt_not_NaN intro: fle_trans)
qed simp

lemma peak_of_ge: "p \<noteq> NaN \<Longrightarrow> q \<in> set ps \<Longrightarrow> q \<noteq> NaN \<Longrightarrow> fle q (peak_of p ps)"
proof (induction ps arbitrary: p)
  case (Cons x xs)
  show ?case
  proof (cases "q = x")
    case True
    then show ?thesis
      using Cons.prems peak_of_ge_start [of x xs] peak_of_ge_start [of p xs]
      by (auto simp: not_flt_fle intro: fle_trans)
  next
    case False
    then show ?thesis
      using Cons.prems Cons.IH [of "if flt p x then x else p"] flt_not_NaN [of p x] by auto
  qed
qed simp

text \<open>A run that ends without an exit has folded every observation in.\<close>

definition holding_state :: "trail_config \<Rightarrow> f64 \<Rightarrow> u64 \<Rightarrow> f64 list \<Rightarrow> trail_state \<Rightarrow> bool" where
  "holding_state cfg entry b0 ps s \<longleftrightarrow> trail_wf s
     \<and> recent_prices s = lastn PRICE_HISTORY_LEN ps
     \<and> ts_entry_price s = entry \<and> ts_opened_block s = b0
     \<and> ts_peak_price s = peak_of entry ps
     \<and> (ts_armed s \<longrightarrow> fle (arm_threshold cfg s) (ts_peak_price s))
     \<and> (ts_breakeven_ratcheted s \<longrightarrow> fle (ratchet_threshold cfg s) (ts_peak_price s))"

lemma lastn_10_push: "lastn PRICE_HISTORY_LEN (lastn PRICE_HISTORY_LEN ps @ [p]) = lastn PRICE_HISTORY_LEN (ps @ [p])"
  by (simp add: lastn_push PRICE_HISTORY_LEN_def)

lemma peak_of_snoc: "peak_of e (ps @ [p]) = (if flt (peak_of e ps) p then p else peak_of e ps)"
  by (simp add: peak_of_def)

lemma peak_of_mono_snoc: "fle t (peak_of e ps) \<Longrightarrow> fle t (peak_of e (ps @ [p]))"
  by (auto simp: peak_of_snoc intro: fle_trans flt_fle)

lemma holding_state_tick:
  assumes "holding_state cfg e b0 ps s" and "tick_effect cfg s p s'"
  shows "holding_state cfg e b0 (ps @ [p]) s'"
proof -
  have peak: "ts_peak_price s' = peak_of e (ps @ [p])"
    using assms by (simp add: holding_state_def tick_effect_def peak_of_snoc)
  have th: "arm_threshold cfg s' = arm_threshold cfg s" "ratchet_threshold cfg s' = ratchet_threshold cfg s"
    using assms(2) by (simp_all add: tick_effect_def arm_threshold_def ratchet_threshold_def)
  have "fle (arm_threshold cfg s) (ts_peak_price s')" if "ts_armed s'"
    using that assms peak by (auto simp: holding_state_def tick_effect_def intro: fle_trans flt_fle)
  moreover have "fle (ratchet_threshold cfg s) (ts_peak_price s')" if "ts_breakeven_ratcheted s'"
    using that assms peak by (auto simp: holding_state_def tick_effect_def intro: fle_trans flt_fle)
  ultimately show ?thesis
    using assms peak th by (auto simp: holding_state_def tick_effect_def lastn_10_push)
qed

lemma trail_run_holding:
  assumes "holding_state cfg e b0 ps s"
  shows "\<exists>s' r. trail_run cfg s obs = Some (s', r)
    \<and> (\<exists>k \<le> length obs. holding_state cfg e b0 (ps @ map fst (take k obs)) s'
         \<and> (r = None \<longrightarrow> k = length obs))"
  using assms
proof (induction obs arbitrary: s ps)
  case Nil
  then show ?case by auto
next
  case (Cons ob obs)
  obtain p b where ob: "ob = (p, b)" by (cases ob)
  have "trail_wf s" using Cons.prems by (simp add: holding_state_def)
  then obtain s1 where s1: "trail_step s cfg p b = Some (s1, decide_exit cfg s1 p b)"
    "tick_effect cfg s p s1" by (rule trail_step_spec)
  have h1: "holding_state cfg e b0 (ps @ [p]) s1"
    using Cons.prems s1(2) by (rule holding_state_tick)
  show ?case
  proof (cases "decide_exit cfg s1 p b")
    case None
    from Cons.IH [OF h1] obtain s' r k where
      "trail_run cfg s1 obs = Some (s', r)" "k \<le> length obs"
      "holding_state cfg e b0 ((ps @ [p]) @ map fst (take k obs)) s'" "r = None \<longrightarrow> k = length obs"
      by blast
    then show ?thesis using None s1(1) ob
      by (intro exI [of _ s'] exI [of _ r] conjI exI [of _ "Suc k"]) auto
  next
    case (Some r)
    then show ?thesis using s1(1) ob h1
      by (intro exI [of _ s1] exI [of _ "Some r"] conjI exI [of _ 1]) auto
  qed
qed

lemma holding_state_fresh: "holding_state cfg e b0 [] (fresh_state e b0)"
  by (simp add: holding_state_def)

lemma trail_run_snoc:
  assumes "trail_run cfg s (obs @ [(p, b)]) = Some (s', None)"
  shows "\<exists>s1. trail_run cfg s obs = Some (s1, None) \<and> trail_step s1 cfg p b = Some (s', None)"
  using assms by (induction obs arbitrary: s) (auto split: option.splits)

text \<open>A full ring, read from its oldest slot.\<close>

lemma ring_full_iff: "trail_wf s \<Longrightarrow> ts_history_count s = 10 \<longleftrightarrow> length (recent_prices s) = 10"
  by (auto simp: trail_wf_def recent_prices_def PRICE_HISTORY_LEN_def Let_def word_unat_eq_iff)

lemma ring_oldest:
  assumes "trail_wf s" and "length (recent_prices s) = 10"
  shows "oldest_price s = recent_prices s ! 0"
proof -
  have c: "unat (ts_history_count s) = 10"
    using assms ring_full_iff by (simp add: unat_arith_simps)
  show ?thesis
    using assms(1) c
    by (simp add: trail_wf_def recent_prices_def oldest_price_def PRICE_HISTORY_LEN_def Let_def nth_append)
qed

lemma trail_step_effect:
  assumes "trail_wf s" and "trail_step s cfg p b = Some (s', r)"
  shows "tick_effect cfg s p s' \<and> r = decide_exit cfg s' p b"
  using trail_step_spec [OF assms(1), of cfg p b] assms(2) by auto

section \<open>Properties\<close>

text \<open>
  From the state a position starts in, no sequence of price observations (NaN and
  infinities included) makes the tick function panic, and the state stays well-formed.
\<close>

lemma trail_run_total:
  "\<exists>s' r. trail_run cfg (fresh_state e b0) obs = Some (s', r) \<and> trail_wf s'"
  using trail_run_holding [OF holding_state_fresh, of cfg e b0 obs]
  by (auto simp: holding_state_def)



text \<open>
  Exit priority. A tick leaves the position for the highest-priority reason that holds
  of the updated state (stop-loss, break-even lock, signal dump, trail, timeout), and keeps
  holding exactly when none holds.
\<close>

lemma trail_step_priority:
  assumes "trail_wf s" and "trail_step s cfg p b = Some (s', r)"
  shows "r = (if {q. reason_holds cfg s' p b q} = {} then None
              else Some (Min {q. reason_holds cfg s' p b q}))"
proof -
  obtain s1 where "trail_step s cfg p b = Some (s1, decide_exit cfg s1 p b)" "trail_wf s1"
    using trail_step_spec [OF assms(1)] unfolding tick_effect_def by metis
  with assms(2) show ?thesis by (auto simp: decide_exit_first)
qed

text \<open>
  What holding guarantees. When a run is still holding after its last observation, that
  price is not at or below the stop-loss floor (which the ratchet may have raised), not at or
  below the trailing floor once armed, and the position is younger than the hold cap.
\<close>

lemma trail_run_hold_guarantee:
  assumes "trail_run cfg (fresh_state e b0) (obs @ [(p, b)]) = Some (s', None)"
  shows "\<not> fle p (effective_floor cfg s')
     \<and> (ts_armed s' \<longrightarrow> \<not> fle p (trail_floor cfg s'))
     \<and> unat b - unat b0 < unat (tc_max_hold_blocks cfg)"
proof -
  obtain s1 where s1: "trail_run cfg (fresh_state e b0) obs = Some (s1, None)"
    "trail_step s1 cfg p b = Some (s', None)"
    using trail_run_snoc [OF assms] by blast
  have w: "trail_wf s1" "ts_opened_block s1 = b0"
    using trail_run_holding [OF holding_state_fresh, of cfg e b0 obs] s1(1)
    by (auto simp: holding_state_def)
  have "decide_exit cfg s' p b = None" "ts_opened_block s' = b0"
    using trail_step_effect [OF w(1) s1(2)] w(2) by (simp_all add: tick_effect_def)
  then show ?thesis
    by (auto simp: decide_defs split: option.splits if_splits)
qed

definition example_cfg :: trail_config where
  "example_cfg = trail_config_default\<lparr>tc_hard_sl_pct := Fin (1 / 2), tc_arm_pct := Fin 1,
     tc_breakeven_at_pct := Fin 1, tc_breakeven_lock_pct := Fin 0\<rparr>"

definition example_state :: trail_state where
  "example_state = (fresh_state (Fin 4) 0)\<lparr>ts_last_observed_block := 5,
     ts_price_history := (replicate 10 (Fin 0))[0 := Fin 4], ts_history_idx := 1, ts_history_count := 1\<rparr>"

lemma example_run: "trail_run example_cfg (fresh_state (Fin 4) 0) [(Fin 4, 5)] = Some (example_state, None)"
  by (simp add: trail_step_def push_history_def observe_peak_def update_arm_def update_ratchet_def
      arm_threshold_def ratchet_threshold_def decide_exit_def check_floor_def check_signal_dump_def
      check_trail_def check_timeout_def effective_floor_def hard_sl_floor_def fsub_def sat_sub_def
      rnd_half example_cfg_def example_state_def fresh_state_def trail_state_default_def
      trail_config_default_def PRICE_HISTORY_LEN_def)

text \<open>
  The two readings of the ten-entry ring. Before a tick, the slot under the write
  head holds the price observed ten ticks before the new one, which is what the voting rule
  measures against; after the tick, where the signal-dump rule reads it, it holds the price
  observed nine ticks before.
\<close>

lemma ring_oldest_offset:
  assumes "trail_wf s" and "ts_history_count s = 10" and "trail_step s cfg p b = Some (s', r)"
  shows "length (recent_prices s) = 10 \<and> oldest_price s = recent_prices s ! 0
       \<and> oldest_price s' = recent_prices s ! 1 \<and> recent_prices s' = tl (recent_prices s) @ [p]"
proof -
  have len: "length (recent_prices s) = 10" using ring_full_iff [OF assms(1)] assms(2) by simp
  have e: "trail_wf s'" "recent_prices s' = tl (recent_prices s) @ [p]"
    using trail_step_effect [OF assms(1,3)] len
    by (auto simp: tick_effect_def PRICE_HISTORY_LEN_def lastn_def drop_Suc)
  have "length (recent_prices s') = 10" using e(2) len by simp
  then have "oldest_price s' = recent_prices s ! 1"
    using ring_oldest [OF e(1)] len by (simp add: e(2) nth_append nth_tl)
  with e(2) len ring_oldest [OF assms(1) len] show ?thesis by simp
qed

text \<open>A concrete full ring: ten ticks at prices 1 to 10 above a low entry.\<close>

definition ring_example :: trail_state where
  "ring_example = (fresh_state (Fin 1) 0)\<lparr>ts_history_count := 10,
     ts_price_history := map (\<lambda>i. Fin (of_nat i)) [1..<11]\<rparr>"

end
