(* ===== verification/Types.thy ===== *)
theory Types
  imports F64
begin

text \<open>
  The shared data of the trader: \<open>trader/types.rs\<close>, the KOL hit of \<open>kol_watch.rs\<close> the
  strategy reads, and the well-known addresses of \<open>bsc-dex/src/addresses.rs\<close>. Field
  names carry a prefix per struct; hashes are 256-bit words.
\<close>

type_synonym b256 = "256 word"

definition WBNB :: address where
  "WBNB = 0xbb4CdB9CBd36B01bD1cBaEBF2De08d9173bc095c"

definition PANCAKE_V2_FACTORY :: address where
  "PANCAKE_V2_FACTORY = 0xcA143Ce32Fe78f1f7019d7d551a6402fC5350c73"

definition PANCAKE_V2_ROUTER :: address where
  "PANCAKE_V2_ROUTER = 0x10ED43C718714eb63d5aA57B78B54704E256024E"

definition FOURMEME :: address where
  "FOURMEME = 0x5c952063c7fc8610FFDB798152D69F0B9550762b"

datatype side = Buy | Sell

datatype portfolio_mode = FastTip | NormalTip

definition portfolio_ALL :: "portfolio_mode list" where
  "portfolio_ALL = [FastTip]"

fun portfolio_label :: "portfolio_mode \<Rightarrow> string" where
  "portfolio_label FastTip = ''fast_tip''"
| "portfolio_label NormalTip = ''normal_tip''"

datatype skip_reason = NotKolHit | BelowBuyThreshold | NotASwap | AlreadyHavePosition
  | NoOpenPosition | UnknownToken | UnsupportedSide

text \<open>\<open>Enter kol_name token bnb_amount kol_bnb_input kol_block kol_tx\<close> and
  \<open>Exit kol_name token kol_block kol_tx kol_addr\<close>.\<close>

datatype decision =
    Skip skip_reason
  | Enter string address u256 u256 u64 b256
  | Exit string address u64 b256 address

record kol_hit =
  kh_kol_name :: string
  kh_kol_emoji :: "string option"
  kh_kol_groups :: "string list"
  kh_tx_hash :: string
  kh_from_addr :: string
  kh_to_addr :: "string option"
  kh_to_label :: "string option"
  kh_method_id :: string
  kh_method_label :: "string option"
  kh_value_bnb :: f64
  kh_gas_price_gwei :: f64
  kh_gas_limit :: u64
  kh_nonce :: u64
  kh_source_seen :: string
  kh_calldata :: "u8 list"
  kh_decoded :: "string option"
  kh_token :: "address option"
  kh_side :: "string option"
  kh_confirmed_block :: "u64 option"
  kh_visibility :: string

record open_position =
  op_portfolio :: portfolio_mode
  op_kol_name :: string
  op_token_address :: address
  op_token_symbol :: string
  op_token_decimals :: u8
  op_bnb_in :: u256
  op_tokens_held :: u256
  op_opened_at_block :: u64
  op_opened_at_unix_ns :: u64
  op_last_added_block :: u64
  op_buy_tx_hashes :: "b256 list"
  op_d_mcap_usd :: f64
  op_our_entry_mcap_usd :: f64

record position_key =
  pk_portfolio :: portfolio_mode
  pk_kol_name :: string
  pk_token :: address

definition op_key :: "open_position \<Rightarrow> position_key" where
  "op_key p = \<lparr>pk_portfolio = op_portfolio p, pk_kol_name = op_kol_name p,
     pk_token = op_token_address p\<rparr>"

datatype close_reason = KolSell | HoldTimeout | ManualForce | NoLiquidity | PriceUnavailable

fun close_label :: "close_reason \<Rightarrow> string" where
  "close_label KolSell = ''kol_sell''"
| "close_label HoldTimeout = ''timeout''"
| "close_label ManualForce = ''manual_force''"
| "close_label NoLiquidity = ''no_liquidity''"
| "close_label PriceUnavailable = ''price_unavailable''"

end
