(* ===== verification/Blacklist.thy ===== *)
theory Blacklist
  imports Types
begin

text \<open>
  \<open>crates/bsc-runner/src/trader/blacklist.rs\<close>: the compiled-in fallback list and the
  runtime list merged from the TOML file. Reading and parsing the file, and parsing an
  address string, are arguments.
\<close>

definition FALLBACK_BLACKLISTED :: "address list" where
  "FALLBACK_BLACKLISTED =
    [0x55d398326f99059ff775485246999027b3197955,
     0x8ac76a51cc950d9822d68b83fe1ad97b32cd580d,
     0xe9e7cea3dedca5984780bafc599bd69add087d56,
     0x8d0d000ee44948fc98c9b98a4fa4921476f08b0d,
     0xbb4cdb9cbd36b01bd1cbaebf2de08d9173bc095c,
     0x7130d2a12b9bcbfae4f2634d864a1ee1ce3ead9c,
     0x2170ed0880ac9a755fd29b2688956bd959f933f8,
     0x000ae314e2a2172a039b26378814c252734f556a]"

definition is_blacklisted :: "address \<Rightarrow> bool" where
  "is_blacklisted token \<longleftrightarrow> token \<in> set FALLBACK_BLACKLISTED"

datatype blacklist_file = FileMissing | FileUnparsable | FileParsed "string list"

text \<open>Bad addresses in the file are skipped; a missing file leaves the fallback.\<close>

fun insert_parsed :: "(string \<Rightarrow> address option) \<Rightarrow> address set \<Rightarrow> string list \<Rightarrow> address set" where
  "insert_parsed parse acc [] = acc"
| "insert_parsed parse acc (s # ss) =
     (case parse s of None \<Rightarrow> insert_parsed parse acc ss
      | Some a \<Rightarrow> insert_parsed parse (insert a acc) ss)"

definition blacklist_load ::
  "(string \<Rightarrow> address option) \<Rightarrow> blacklist_file \<Rightarrow> address set option" where
  "blacklist_load parse file =
     (case file of
        FileMissing \<Rightarrow> Some (set FALLBACK_BLACKLISTED)
      | FileUnparsable \<Rightarrow> None
      | FileParsed ss \<Rightarrow> Some (insert_parsed parse (set FALLBACK_BLACKLISTED) ss))"

text \<open>The executor's check: the runtime list when there is one, else the fallback.\<close>

definition check_blacklisted :: "address set option \<Rightarrow> address \<Rightarrow> bool" where
  "check_blacklisted runtime token =
     (case runtime of Some b \<Rightarrow> token \<in> b | None \<Rightarrow> is_blacklisted token)"

lemma insert_parsed_eq:
  "insert_parsed parse acc ss = acc \<union> {a. \<exists>s \<in> set ss. parse s = Some a}"
  by (induction ss arbitrary: acc) (auto split: option.splits)

section \<open>Properties\<close>

text \<open>
  Whatever the file says, and also when it is missing or broken (the executor then runs
  without a runtime list), every compiled-in token stays refused; a loaded list refuses in
  addition exactly the tokens whose text parses as an address.
\<close>

lemma blacklist_covers_fallback:
  "check_blacklisted (blacklist_load parse bf) token \<longleftrightarrow>
     is_blacklisted token
     \<or> (\<exists>ss. bf = FileParsed ss \<and> (\<exists>s. s \<in> set ss \<and> parse s = Some token))"
  by (cases bf) (auto simp: blacklist_load_def check_blacklisted_def is_blacklisted_def insert_parsed_eq)

end
