(* ===== verification/Bus.thy ===== *)
theory Bus
  imports Types "HOL-Library.AList"
begin

text \<open>
  The mempool bus: the transaction types of \<open>bsc-core\<close> and the pipeline of \<open>bsc-bus\<close> that
  takes raw transactions from the sources through a pool of decoder workers and the dedupe
  stage to the subscribers. A signed transaction is a value of the type variable \<open>'tx\<close>;
  the RLP decoder and the signer recovery of alloy are the arguments \<open>dec\<close> and \<open>rcv\<close>.
  Time enters with the events (a source's \<open>recv_ns\<close>, a janitor tick, a new head).
\<close>

section \<open>Core types\<close>

type_synonym source_id = u8

definition LOCAL_IPC :: source_id where "LOCAL_IPC = 10"
definition WSS_PROVIDER :: source_id where "WSS_PROVIDER = 20"
definition BLOXROUTE :: source_id where "BLOXROUTE = 30"
definition EDEN :: source_id where "EDEN = 31"
definition REPLAY :: source_id where "REPLAY = 99"

definition source_label :: "source_id \<Rightarrow> string" where
  "source_label s =
     (if s = 10 then ''local_ipc'' else if s = 20 then ''wss_provider''
      else if s = 30 then ''bloxroute'' else if s = 31 then ''eden''
      else if s = 99 then ''replay'' else ''unknown'')"

record block_context =
  bc_block_number :: u64
  bc_parent_block_hash :: b256
  bc_ms_into_block :: u32

datatype 'tx raw_payload = Decoded 'tx "u8 list option" | RlpBytes "u8 list"

record 'tx raw_tx =
  rt_source :: source_id
  rt_recv_ns :: u64
  rt_hash :: b256
  rt_payload :: "'tx raw_payload"

record 'tx pending_tx =
  pt_hash :: b256
  pt_from :: address
  pt_tx :: 'tx
  pt_first_seen_ns :: u64
  pt_source_seen :: "(source_id \<times> u64) list"
  pt_raw :: "u8 list option"
  pt_block_context :: "block_context option"

record first_seen =
  fs_first_ns :: u64
  fs_sources :: "(source_id \<times> u64) list"
  fs_expires_at_ns :: u64

section \<open>Decoding\<close>

datatype decode_error = Rlp | Recover

definition decode_envelope :: "(u8 list \<Rightarrow> 'tx option) \<Rightarrow> u8 list \<Rightarrow> decode_error + 'tx" where
  "decode_envelope dec rlp = (case dec rlp of None \<Rightarrow> Inl Rlp | Some tx \<Rightarrow> Inr tx)"

definition recover_signer :: "('tx \<Rightarrow> address option) \<Rightarrow> 'tx \<Rightarrow> decode_error + address" where
  "recover_signer rcv tx = (case rcv tx of None \<Rightarrow> Inl Recover | Some a \<Rightarrow> Inr a)"

record 'tx decoded_tx =
  dt_hash :: b256
  dt_from :: address
  dt_tx :: 'tx
  dt_source :: source_id
  dt_recv_ns :: u64
  dt_raw :: "u8 list option"

definition decode_to_decoded ::
  "(u8 list \<Rightarrow> 'tx option) \<Rightarrow> ('tx \<Rightarrow> address option) \<Rightarrow> 'tx raw_tx \<Rightarrow> decode_error + 'tx decoded_tx" where
  "decode_to_decoded dec rcv raw =
     (case (case rt_payload raw of
              Decoded tx bytes \<Rightarrow> Inr (tx, bytes)
            | RlpBytes rlp \<Rightarrow>
                (case decode_envelope dec rlp of Inl e \<Rightarrow> Inl e | Inr tx \<Rightarrow> Inr (tx, Some rlp))) of
        Inl e \<Rightarrow> Inl e
      | Inr (tx, bytes) \<Rightarrow>
          (case recover_signer rcv tx of
             Inl e \<Rightarrow> Inl e
           | Inr sender \<Rightarrow> Inr \<lparr>dt_hash = rt_hash raw, dt_from = sender, dt_tx = tx,
               dt_source = rt_source raw, dt_recv_ns = rt_recv_ns raw, dt_raw = bytes\<rparr>))"

section \<open>The dedupe table\<close>

record dedupe =
  dd_map :: "(b256 \<times> first_seen) list"
  dd_ttl_ns :: u64

datatype dedupe_outcome = Fresh first_seen | Duplicate

definition dedupe_new :: "u64 \<Rightarrow> dedupe" where
  "dedupe_new ttl_secs = \<lparr>dd_map = [], dd_ttl_ns = sat_mul ttl_secs 1000000000\<rparr>"

definition dedupe_record :: "b256 \<Rightarrow> source_id \<Rightarrow> u64 \<Rightarrow> dedupe \<Rightarrow> dedupe_outcome \<times> dedupe" where
  "dedupe_record h source recv_ns d =
     (case map_of (dd_map d) h of
        None \<Rightarrow>
          (let fs = \<lparr>fs_first_ns = recv_ns, fs_sources = [(source, recv_ns)],
                     fs_expires_at_ns = sat_add recv_ns (dd_ttl_ns d)\<rparr>
           in (Fresh fs, d\<lparr>dd_map := AList.update h fs (dd_map d)\<rparr>))
      | Some fs \<Rightarrow>
          (Duplicate,
           d\<lparr>dd_map := AList.update h (fs\<lparr>fs_sources := fs_sources fs @ [(source, recv_ns)]\<rparr>) (dd_map d)\<rparr>))"

definition first_seen_ns :: "dedupe \<Rightarrow> b256 \<Rightarrow> u64 option" where
  "first_seen_ns d h = map_option fs_first_ns (map_of (dd_map d) h)"

definition dedupe_sweep :: "u64 \<Rightarrow> dedupe \<Rightarrow> nat \<times> dedupe" where
  "dedupe_sweep now_ns d =
     (let kept = filter (\<lambda>(h, v). now_ns \<le> fs_expires_at_ns v) (dd_map d)
      in (length (dd_map d) - length kept, d\<lparr>dd_map := kept\<rparr>))"

section \<open>The current block\<close>

record current_block =
  cb_block_number :: u64
  cb_block_hash :: b256
  cb_parent_block_hash :: b256
  cb_seen_at_unix_ns :: u64

definition current_block_default :: current_block where
  "current_block_default = \<lparr>cb_block_number = 0, cb_block_hash = 0, cb_parent_block_hash = 0,
     cb_seen_at_unix_ns = 0\<rparr>"

definition on_new_head :: "u64 \<Rightarrow> b256 \<Rightarrow> b256 \<Rightarrow> u64 \<Rightarrow> current_block \<Rightarrow> current_block" where
  "on_new_head n h parent seen b = b\<lparr>cb_block_number := n, cb_block_hash := h,
     cb_parent_block_hash := parent, cb_seen_at_unix_ns := seen\<rparr>"

definition block_context_for :: "current_block \<Rightarrow> u64 \<Rightarrow> block_context" where
  "block_context_for b unix_ns =
     (let ms = sat_sub unix_ns (cb_seen_at_unix_ns b) div 1000000;
          ms_into = (if unat ms < 2 ^ 32 then ucast ms else - 1)
      in \<lparr>bc_block_number = cb_block_number b, bc_parent_block_hash = cb_parent_block_hash b,
          bc_ms_into_block = ms_into\<rparr>)"

section \<open>The pipeline\<close>

record pipeline_config =
  pc_raw_channel_capacity :: nat
  pc_decoded_channel_capacity :: nat
  pc_broadcast_capacity :: nat
  pc_dedupe_capacity :: nat
  pc_dedupe_ttl_secs :: u64
  pc_decoder_workers :: nat
  pc_janitor_interval_secs :: u64

definition pipeline_config_default :: pipeline_config where
  "pipeline_config_default = \<lparr>pc_raw_channel_capacity = 32768, pc_decoded_channel_capacity = 32768,
     pc_broadcast_capacity = 65536, pc_dedupe_capacity = 524288, pc_dedupe_ttl_secs = 60,
     pc_decoder_workers = 4, pc_janitor_interval_secs = 5\<rparr>"

text \<open>
  The queues are the mpsc channels; a decoder worker is idle or holds a decoded transaction
  it waits to send. \<open>pl_published\<close> is everything the bus has broadcast, oldest first.
\<close>

record 'tx pipeline =
  pl_cfg :: pipeline_config
  pl_raw :: "'tx raw_tx list"
  pl_workers :: "'tx decoded_tx option list"
  pl_decoded :: "'tx decoded_tx list"
  pl_dedupe :: dedupe
  pl_block :: current_block
  pl_published :: "'tx pending_tx list"

definition build_pipeline :: "pipeline_config \<Rightarrow> current_block \<Rightarrow> 'tx pipeline" where
  "build_pipeline cfg b = \<lparr>pl_cfg = cfg, pl_raw = [],
     pl_workers = replicate (pc_decoder_workers cfg) None, pl_decoded = [],
     pl_dedupe = dedupe_new (pc_dedupe_ttl_secs cfg), pl_block = b, pl_published = []\<rparr>"

text \<open>A source's \<open>try_send\<close>: a full channel drops the transaction.\<close>

definition source_send :: "'tx raw_tx \<Rightarrow> 'tx pipeline \<Rightarrow> 'tx pipeline" where
  "source_send raw s =
     (if length (pl_raw s) < pc_raw_channel_capacity (pl_cfg s)
      then s\<lparr>pl_raw := pl_raw s @ [raw]\<rparr> else s)"

text \<open>Worker \<open>i\<close> takes the oldest raw transaction; one that does not decode is dropped.\<close>

definition worker_take ::
  "(u8 list \<Rightarrow> 'tx option) \<Rightarrow> ('tx \<Rightarrow> address option) \<Rightarrow> nat \<Rightarrow> 'tx pipeline \<Rightarrow> 'tx pipeline" where
  "worker_take dec rcv i s =
     (case pl_raw s of
        [] \<Rightarrow> s
      | raw # rest \<Rightarrow>
          if i < length (pl_workers s) \<and> pl_workers s ! i = None then
            (case decode_to_decoded dec rcv raw of
               Inl e \<Rightarrow> s\<lparr>pl_raw := rest\<rparr>
             | Inr d \<Rightarrow> s\<lparr>pl_raw := rest, pl_workers := (pl_workers s)[i := Some d]\<rparr>)
          else s)"

text \<open>Worker \<open>i\<close>'s \<open>send().await\<close> completes once the decoded channel has room.\<close>

definition worker_push :: "nat \<Rightarrow> 'tx pipeline \<Rightarrow> 'tx pipeline" where
  "worker_push i s =
     (if i < length (pl_workers s) \<and> length (pl_decoded s) < pc_decoded_channel_capacity (pl_cfg s) then
        (case pl_workers s ! i of
           None \<Rightarrow> s
         | Some d \<Rightarrow> s\<lparr>pl_workers := (pl_workers s)[i := None], pl_decoded := pl_decoded s @ [d]\<rparr>)
      else s)"

definition publish :: "'tx pending_tx \<Rightarrow> 'tx pipeline \<Rightarrow> 'tx pipeline" where
  "publish p s = s\<lparr>pl_published := pl_published s @ [p]\<rparr>"

definition run_dedupe_one :: "'tx pipeline \<Rightarrow> 'tx pipeline" where
  "run_dedupe_one s =
     (case pl_decoded s of
        [] \<Rightarrow> s
      | d # rest \<Rightarrow>
          (let (outcome, dd) = dedupe_record (dt_hash d) (dt_source d) (dt_recv_ns d) (pl_dedupe s);
               s' = s\<lparr>pl_decoded := rest, pl_dedupe := dd\<rparr>
           in case outcome of
                Duplicate \<Rightarrow> s'
              | Fresh fs \<Rightarrow>
                  publish \<lparr>pt_hash = dt_hash d, pt_from = dt_from d, pt_tx = dt_tx d,
                    pt_first_seen_ns = fs_first_ns fs, pt_source_seen = fs_sources fs,
                    pt_raw = dt_raw d,
                    pt_block_context = Some (block_context_for (pl_block s) (dt_recv_ns d))\<rparr> s'))"

definition run_janitor_tick :: "u64 \<Rightarrow> 'tx pipeline \<Rightarrow> 'tx pipeline" where
  "run_janitor_tick now_ns s = s\<lparr>pl_dedupe := snd (dedupe_sweep now_ns (pl_dedupe s))\<rparr>"

datatype 'tx bus_event =
    Arrive "'tx raw_tx"
  | Take nat
  | Push nat
  | DedupeNext
  | JanitorTick u64
  | NewHead u64 b256 b256 u64

fun bus_step ::
  "(u8 list \<Rightarrow> 'tx option) \<Rightarrow> ('tx \<Rightarrow> address option) \<Rightarrow> 'tx pipeline \<Rightarrow> 'tx bus_event \<Rightarrow> 'tx pipeline" where
  "bus_step dec rcv s (Arrive raw) = source_send raw s"
| "bus_step dec rcv s (Take i) = worker_take dec rcv i s"
| "bus_step dec rcv s (Push i) = worker_push i s"
| "bus_step dec rcv s DedupeNext = run_dedupe_one s"
| "bus_step dec rcv s (JanitorTick now) = run_janitor_tick now s"
| "bus_step dec rcv s (NewHead n h parent seen) = s\<lparr>pl_block := on_new_head n h parent seen (pl_block s)\<rparr>"

end
