(* ===== verification/BusSafety.thy ===== *)
theory BusSafety
  imports Bus
begin

text \<open>
  What the bus promises its subscribers: every published transaction is well formed, no hash
  is published twice while the table still remembers it, and whatever the sources hand over
  and decodes is published once the stages have drained their queues.
\<close>

lemmas bus_stage_defs = source_send_def worker_take_def worker_push_def run_dedupe_one_def
  run_janitor_tick_def publish_def

section \<open>The dedupe table\<close>

lemma dedupe_record_fresh_iff:
  "fst (dedupe_record h src t d) = Duplicate \<longleftrightarrow> h \<in> fst ` set (dd_map d)"
proof (cases "map_of (dd_map d) h")
  case None
  moreover from None have "h \<notin> fst ` set (dd_map d)" by (simp add: map_of_eq_None_iff)
  ultimately show ?thesis by (simp add: dedupe_record_def Let_def)
next
  case (Some fs)
  moreover from Some have "h \<in> fst ` set (dd_map d)" by (auto dest: map_of_SomeD intro: rev_image_eqI)
  ultimately show ?thesis by (simp add: dedupe_record_def)
qed

lemma dedupe_record_map:
  "map_of (dd_map (snd (dedupe_record h src t d))) h' =
     (if h' \<noteq> h then map_of (dd_map d) h'
      else case map_of (dd_map d) h of
        None \<Rightarrow> Some \<lparr>fs_first_ns = t, fs_sources = [(src, t)], fs_expires_at_ns = sat_add t (dd_ttl_ns d)\<rparr>
      | Some fs \<Rightarrow> Some (fs\<lparr>fs_sources := fs_sources fs @ [(src, t)]\<rparr>))"
  by (simp add: dedupe_record_def Let_def update_conv' split: option.splits)

lemma dedupe_record_ttl [simp]: "dd_ttl_ns (snd (dedupe_record h src t d)) = dd_ttl_ns d"
  by (simp add: dedupe_record_def Let_def split: option.splits)

lemma dedupe_record_keys:
  "fst ` set (dd_map (snd (dedupe_record h src t d))) = insert h (fst ` set (dd_map d))"
  by (simp add: dedupe_record_def Let_def dom_update split: option.splits)

lemma dedupe_record_distinct:
  "distinct (map fst (dd_map d)) \<Longrightarrow> distinct (map fst (dd_map (snd (dedupe_record h src t d))))"
  by (simp add: dedupe_record_def Let_def distinct_update split: option.splits)

lemma map_of_filter_val:
  "distinct (map fst xs) \<Longrightarrow>
     map_of (filter (\<lambda>(k, v). P v) xs) k = (case map_of xs k of None \<Rightarrow> None | Some v \<Rightarrow> if P v then Some v else None)"
  by (induction xs) (auto simp: map_of_eq_None_iff split: option.splits intro: rev_image_eqI)

lemma dedupe_sweep_map:
  "distinct (map fst (dd_map d)) \<Longrightarrow>
     map_of (dd_map (snd (dedupe_sweep now d))) h =
       (case map_of (dd_map d) h of None \<Rightarrow> None
        | Some fs \<Rightarrow> if now \<le> fs_expires_at_ns fs then Some fs else None)"
  by (simp add: dedupe_sweep_def Let_def map_of_filter_val)

lemma dedupe_sweep_ttl [simp]: "dd_ttl_ns (snd (dedupe_sweep now d)) = dd_ttl_ns d"
  by (simp add: dedupe_sweep_def Let_def)

lemma dedupe_sweep_distinct:
  "distinct (map fst (dd_map d)) \<Longrightarrow> distinct (map fst (dd_map (snd (dedupe_sweep now d))))"
  by (simp add: dedupe_sweep_def Let_def distinct_map_filter)

section \<open>Well-formed entries and published transactions\<close>

text \<open>An entry is stamped by its first source and expires one TTL later.\<close>

definition entry_wf :: "u64 \<Rightarrow> first_seen \<Rightarrow> bool" where
  "entry_wf ttl fs \<longleftrightarrow> fs_expires_at_ns fs = sat_add (fs_first_ns fs) ttl
     \<and> (\<exists>src rest. fs_sources fs = (src, fs_first_ns fs) # rest)"

definition dedupe_wf :: "dedupe \<Rightarrow> bool" where
  "dedupe_wf d \<longleftrightarrow> distinct (map fst (dd_map d))
     \<and> (\<forall>h fs. map_of (dd_map d) h = Some fs \<longrightarrow> entry_wf (dd_ttl_ns d) fs)"

text \<open>The type of a bus message: recovered signer, one sighting at the stamp, block context.\<close>

definition pending_wf :: "('tx \<Rightarrow> address option) \<Rightarrow> 'tx pending_tx \<Rightarrow> bool" where
  "pending_wf rcv p \<longleftrightarrow> rcv (pt_tx p) = Some (pt_from p)
     \<and> (\<exists>src. pt_source_seen p = [(src, pt_first_seen_ns p)])
     \<and> (\<exists>c. pt_block_context p = Some c)"

definition decoded_wf :: "('tx \<Rightarrow> address option) \<Rightarrow> 'tx decoded_tx \<Rightarrow> bool" where
  "decoded_wf rcv d \<longleftrightarrow> rcv (dt_tx d) = Some (dt_from d)"

definition pipeline_wf :: "('tx \<Rightarrow> address option) \<Rightarrow> 'tx pipeline \<Rightarrow> bool" where
  "pipeline_wf rcv s \<longleftrightarrow> dedupe_wf (pl_dedupe s)
     \<and> (\<forall>d. Some d \<in> set (pl_workers s) \<longrightarrow> decoded_wf rcv d)
     \<and> (\<forall>d \<in> set (pl_decoded s). decoded_wf rcv d)
     \<and> (\<forall>p \<in> set (pl_published s). pending_wf rcv p)
     \<and> length (pl_raw s) \<le> pc_raw_channel_capacity (pl_cfg s)
     \<and> length (pl_decoded s) \<le> pc_decoded_channel_capacity (pl_cfg s)"

lemma decode_to_decoded_wf: "decode_to_decoded dec rcv raw = Inr d \<Longrightarrow> decoded_wf rcv d"
  by (auto simp: decode_to_decoded_def decoded_wf_def recover_signer_def
           split: raw_payload.splits sum.splits option.splits)

lemma entry_wf_again:
  "entry_wf ttl fs \<Longrightarrow> entry_wf ttl (fs\<lparr>fs_sources := fs_sources fs @ seen\<rparr>)"
  by (auto simp: entry_wf_def)

lemma entry_wf_first:
  "entry_wf ttl \<lparr>fs_first_ns = t, fs_sources = [(src, t)], fs_expires_at_ns = sat_add t ttl\<rparr>"
  by (simp add: entry_wf_def)

lemma dedupe_record_wf:
  assumes "dedupe_wf d"
  shows "dedupe_wf (snd (dedupe_record h src t d))"
proof -
  have "entry_wf (dd_ttl_ns d) fs"
    if "map_of (dd_map (snd (dedupe_record h src t d))) h' = Some fs" for h' fs
    using that assms unfolding dedupe_record_map dedupe_wf_def
    by (cases "map_of (dd_map d) h") (auto simp: entry_wf_first entry_wf_again simp del: map_of_eq_None_iff split: if_splits)
  with assms show ?thesis by (simp add: dedupe_wf_def dedupe_record_distinct)
qed

lemma dedupe_sweep_wf: "dedupe_wf d \<Longrightarrow> dedupe_wf (snd (dedupe_sweep now d))"
  unfolding dedupe_wf_def
  by (auto simp: dedupe_sweep_map dedupe_sweep_distinct split: if_splits option.splits)

lemma run_dedupe_one_cases:
  obtains (idle) "pl_decoded s = []" "run_dedupe_one s = s"
  | (dup) d rest where "pl_decoded s = d # rest" "dt_hash d \<in> fst ` set (dd_map (pl_dedupe s))"
      "run_dedupe_one s = s\<lparr>pl_decoded := rest,
         pl_dedupe := snd (dedupe_record (dt_hash d) (dt_source d) (dt_recv_ns d) (pl_dedupe s))\<rparr>"
  | (fresh) d rest where "pl_decoded s = d # rest" "dt_hash d \<notin> fst ` set (dd_map (pl_dedupe s))"
      "run_dedupe_one s = s\<lparr>pl_decoded := rest,
         pl_dedupe := snd (dedupe_record (dt_hash d) (dt_source d) (dt_recv_ns d) (pl_dedupe s)),
         pl_published := pl_published s @ [\<lparr>pt_hash = dt_hash d, pt_from = dt_from d, pt_tx = dt_tx d,
           pt_first_seen_ns = dt_recv_ns d, pt_source_seen = [(dt_source d, dt_recv_ns d)],
           pt_raw = dt_raw d,
           pt_block_context = Some (block_context_for (pl_block s) (dt_recv_ns d))\<rparr>]\<rparr>"
proof (cases "pl_decoded s")
  case Nil
  then show ?thesis by (intro idle) (simp_all add: run_dedupe_one_def)
next
  case (Cons d rest)
  show ?thesis
  proof (cases "map_of (dd_map (pl_dedupe s)) (dt_hash d)")
    case None
    then have "dt_hash d \<notin> fst ` set (dd_map (pl_dedupe s))" by (simp add: map_of_eq_None_iff)
    with Cons None show ?thesis
      by (intro fresh [OF Cons]) (simp_all add: run_dedupe_one_def dedupe_record_def publish_def Let_def)
  next
    case (Some fs)
    with Cons show ?thesis
      by (intro dup [OF Cons]) (auto simp: run_dedupe_one_def dedupe_record_def Let_def dest: map_of_SomeD intro: rev_image_eqI)
  qed
qed

lemma worker_take_wf: "pipeline_wf rcv s \<Longrightarrow> pipeline_wf rcv (worker_take dec rcv i s)"
  by (auto simp: worker_take_def pipeline_wf_def dest: decode_to_decoded_wf set_update_subset_insert [THEN subsetD]
           split: list.splits sum.splits)

lemma worker_push_wf: "pipeline_wf rcv s \<Longrightarrow> pipeline_wf rcv (worker_push i s)"
  by (auto simp: worker_push_def pipeline_wf_def dest: set_update_subset_insert [THEN subsetD] dest!: nth_mem
           split: option.splits)

lemma run_dedupe_one_wf: "pipeline_wf rcv s \<Longrightarrow> pipeline_wf rcv (run_dedupe_one s)"
  by (rule run_dedupe_one_cases [of s])
     (auto simp: pipeline_wf_def pending_wf_def decoded_wf_def dedupe_record_wf)

lemma bus_step_wf: "pipeline_wf rcv s \<Longrightarrow> pipeline_wf rcv (bus_step dec rcv s e)"
proof (cases e)
  case (JanitorTick now)
  then show "pipeline_wf rcv s \<Longrightarrow> ?thesis"
    by (simp add: run_janitor_tick_def pipeline_wf_def dedupe_sweep_wf)
qed (simp_all add: worker_take_wf worker_push_wf run_dedupe_one_wf,
     simp_all add: source_send_def pipeline_wf_def)

interpretation bus: stateful "bus_step dec rcv" "pipeline_wf rcv"
  for dec :: "u8 list \<Rightarrow> 'tx option" and rcv :: "'tx \<Rightarrow> address option"
  by unfold_locales (rule bus_step_wf)

lemma build_pipeline_wf: "pipeline_wf rcv (build_pipeline cfg b)"
  by (auto simp: build_pipeline_def pipeline_wf_def dedupe_wf_def dedupe_new_def)


text \<open>C22: Type of the bus messages. Whatever the sources send and however the workers, the
  dedupe stage, the janitor and the head updates interleave, every transaction a subscriber
  receives carries the recovered signer of its body, exactly one sighting (the source that
  was first, at the time it is stamped with) and a block context; and the channels stay
  within their capacities.\<close>
theorem published_well_formed:
  fixes dec :: "u8 list \<Rightarrow> 'tx option" and rcv :: "'tx \<Rightarrow> address option"
    and es :: "'tx bus_event list"
  shows "pipeline_wf rcv (foldl (bus_step dec rcv) (build_pipeline cfg b) es)"
  by (rule bus.run_inv [OF build_pipeline_wf])

section \<open>One emission per hash\<close>

definition in_window :: "u64 \<Rightarrow> 'tx pipeline \<Rightarrow> 'tx pending_tx \<Rightarrow> bool" where
  "in_window horizon s p \<longleftrightarrow> horizon \<le> sat_add (pt_first_seen_ns p) (dd_ttl_ns (pl_dedupe s))"

definition live_hashes :: "u64 \<Rightarrow> 'tx pipeline \<Rightarrow> b256 list" where
  "live_hashes horizon s = map pt_hash (filter (in_window horizon s) (pl_published s))"

definition emitted_once :: "u64 \<Rightarrow> 'tx pipeline \<Rightarrow> bool" where
  "emitted_once horizon s \<longleftrightarrow> distinct (live_hashes horizon s)
     \<and> (\<forall>p \<in> set (pl_published s). in_window horizon s p \<longrightarrow>
          (\<exists>fs. map_of (dd_map (pl_dedupe s)) (pt_hash p) = Some fs \<and> fs_first_ns fs = pt_first_seen_ns p))"

lemma emitted_once_tick:
  assumes "dedupe_wf (pl_dedupe s)" "emitted_once horizon s" "now \<le> horizon"
  shows "emitted_once horizon (run_janitor_tick now s)"
proof -
  have live: "live_hashes horizon (run_janitor_tick now s) = live_hashes horizon s"
    by (simp add: live_hashes_def in_window_def [abs_def] run_janitor_tick_def)
  have "\<exists>fs. map_of (dd_map (pl_dedupe (run_janitor_tick now s))) (pt_hash p) = Some fs
      \<and> fs_first_ns fs = pt_first_seen_ns p"
    if p: "p \<in> set (pl_published s)" "in_window horizon s p" for p
  proof -
    from assms(2) p obtain fs where fs: "map_of (dd_map (pl_dedupe s)) (pt_hash p) = Some fs"
        "fs_first_ns fs = pt_first_seen_ns p" unfolding emitted_once_def by blast
    moreover have "distinct (map fst (dd_map (pl_dedupe s)))" "entry_wf (dd_ttl_ns (pl_dedupe s)) fs"
      using assms(1) fs(1) by (simp_all add: dedupe_wf_def)
    moreover have "now \<le> fs_expires_at_ns fs"
      using p(2) assms(3) fs(2) \<open>entry_wf _ fs\<close> by (simp add: in_window_def entry_wf_def)
    ultimately show ?thesis by (simp add: run_janitor_tick_def dedupe_sweep_map del: map_of_eq_None_iff)
  qed
  with live assms(2) show ?thesis
    by (simp add: emitted_once_def in_window_def run_janitor_tick_def)
qed

lemma emitted_once_dedupe:
  assumes "emitted_once horizon s"
  shows "emitted_once horizon (run_dedupe_one s)"
proof (rule run_dedupe_one_cases [of s])
  fix d rest
  assume new: "dt_hash d \<notin> fst ` set (dd_map (pl_dedupe s))"
    and eq: "run_dedupe_one s = s\<lparr>pl_decoded := rest,
         pl_dedupe := snd (dedupe_record (dt_hash d) (dt_source d) (dt_recv_ns d) (pl_dedupe s)),
         pl_published := pl_published s @ [\<lparr>pt_hash = dt_hash d, pt_from = dt_from d, pt_tx = dt_tx d,
           pt_first_seen_ns = dt_recv_ns d, pt_source_seen = [(dt_source d, dt_recv_ns d)],
           pt_raw = dt_raw d,
           pt_block_context = Some (block_context_for (pl_block s) (dt_recv_ns d))\<rparr>]\<rparr>"
  from new have none: "map_of (dd_map (pl_dedupe s)) (dt_hash d) = None"
    by (simp add: map_of_eq_None_iff)
  have live: "live_hashes horizon (run_dedupe_one s)
      = live_hashes horizon s @ (if horizon \<le> sat_add (dt_recv_ns d) (dd_ttl_ns (pl_dedupe s)) then [dt_hash d] else [])"
    unfolding eq by (simp add: live_hashes_def in_window_def [abs_def])
  moreover have "dt_hash d \<notin> set (live_hashes horizon s)"
    using assms none by (fastforce simp: emitted_once_def live_hashes_def)
  ultimately have "distinct (live_hashes horizon (run_dedupe_one s))"
    using assms by (simp add: emitted_once_def)
  moreover have "\<exists>fs. map_of (dd_map (pl_dedupe (run_dedupe_one s))) (pt_hash p) = Some fs
      \<and> fs_first_ns fs = pt_first_seen_ns p"
    if "p \<in> set (pl_published (run_dedupe_one s))" "in_window horizon (run_dedupe_one s) p" for p
    using that assms none unfolding eq emitted_once_def
    by (auto simp: in_window_def dedupe_record_map split: option.splits)
  ultimately show ?thesis unfolding emitted_once_def by blast
next
  assume "run_dedupe_one s = s" with assms show ?thesis by simp
next
  fix d rest
  assume eq: "run_dedupe_one s = s\<lparr>pl_decoded := rest,
         pl_dedupe := snd (dedupe_record (dt_hash d) (dt_source d) (dt_recv_ns d) (pl_dedupe s))\<rparr>"
  then have live: "live_hashes horizon (run_dedupe_one s) = live_hashes horizon s"
    by (simp add: live_hashes_def in_window_def [abs_def])
  have "\<exists>fs. map_of (dd_map (pl_dedupe (run_dedupe_one s))) (pt_hash p) = Some fs
      \<and> fs_first_ns fs = pt_first_seen_ns p"
    if "p \<in> set (pl_published s)" "in_window horizon s p" for p
    using that assms unfolding eq emitted_once_def
    by (force simp: dedupe_record_map simp del: map_of_eq_None_iff split: option.splits)
  with live assms show ?thesis unfolding eq by (simp add: emitted_once_def in_window_def)
qed

lemma emitted_once_same:
  "pl_dedupe s' = pl_dedupe s \<Longrightarrow> pl_published s' = pl_published s \<Longrightarrow>
     emitted_once horizon s' = emitted_once horizon s"
  by (simp add: emitted_once_def live_hashes_def in_window_def [abs_def])

lemma worker_keeps [simp]:
  "pl_dedupe (worker_take dec rcv i s) = pl_dedupe s" "pl_published (worker_take dec rcv i s) = pl_published s"
  "pl_dedupe (worker_push i s) = pl_dedupe s" "pl_published (worker_push i s) = pl_published s"
  "pl_dedupe (source_send raw s) = pl_dedupe s" "pl_published (source_send raw s) = pl_published s"
  by (simp_all add: worker_take_def worker_push_def source_send_def split: list.splits option.splits sum.splits)

lemma emitted_once_step:
  assumes "pipeline_wf rcv s" "emitted_once horizon s" "\<forall>now. e = JanitorTick now \<longrightarrow> now \<le> horizon"
  shows "emitted_once horizon (bus_step dec rcv s e)"
  using assms
  by (cases e) (simp_all add: emitted_once_dedupe emitted_once_tick pipeline_wf_def
    emitted_once_same [of "source_send _ s" s] emitted_once_same [of "worker_take dec rcv _ s" s]
    emitted_once_same [of "worker_push _ s" s] emitted_once_same [of "s\<lparr>pl_block := _\<rparr>" s])

lemma emitted_once_run:
  assumes "pipeline_wf rcv s" "emitted_once horizon s" "\<forall>now. JanitorTick now \<in> set es \<longrightarrow> now \<le> horizon"
  shows "emitted_once horizon (foldl (bus_step dec rcv) s es)"
  using assms
proof (induction es arbitrary: s)
  case (Cons e es)
  have "emitted_once horizon (bus_step dec rcv s e)"
    using Cons.prems by (intro emitted_once_step) simp_all
  with Cons.prems show ?case by (auto intro!: Cons.IH bus_step_wf)
qed simp

text \<open>C20: One emission per hash. If every janitor tick of a run happened at most at a given
  time, then among the published transactions whose time to live had not passed by then no
  hash occurs twice: a transaction announced by several sources, or announced again, is
  broadcast once per TTL window, whatever the order in which the workers deliver it.\<close>
theorem one_emission_per_window:
  assumes "\<forall>now. JanitorTick now \<in> set es \<longrightarrow> now \<le> horizon"
  shows "distinct (live_hashes horizon (foldl (bus_step dec rcv) (build_pipeline cfg b) es))"
proof -
  have "emitted_once horizon (build_pipeline cfg b)"
    by (simp add: build_pipeline_def emitted_once_def live_hashes_def)
  with assms show ?thesis
    using emitted_once_run [OF build_pipeline_wf] unfolding emitted_once_def by blast
qed

section \<open>The stages drain\<close>

definition stage_enabled :: "'tx pipeline \<Rightarrow> 'tx bus_event \<Rightarrow> bool" where
  "stage_enabled s e = (case e of
       Take i \<Rightarrow> pl_raw s \<noteq> [] \<and> i < length (pl_workers s) \<and> pl_workers s ! i = None
     | Push i \<Rightarrow> i < length (pl_workers s) \<and> pl_workers s ! i \<noteq> None
         \<and> length (pl_decoded s) < pc_decoded_channel_capacity (pl_cfg s)
     | DedupeNext \<Rightarrow> pl_decoded s \<noteq> []
     | _ \<Rightarrow> False)"

fun stage_run ::
  "(u8 list \<Rightarrow> 'tx option) \<Rightarrow> ('tx \<Rightarrow> address option) \<Rightarrow> 'tx pipeline \<Rightarrow> 'tx bus_event list \<Rightarrow> bool" where
  "stage_run dec rcv s [] = True"
| "stage_run dec rcv s (e # es) = (stage_enabled s e \<and> stage_run dec rcv (bus_step dec rcv s e) es)"

definition held :: "'tx pipeline \<Rightarrow> nat" where
  "held s = length (filter (\<lambda>w. w \<noteq> None) (pl_workers s))"

definition work_left :: "'tx pipeline \<Rightarrow> nat" where
  "work_left s = 3 * length (pl_raw s) + 2 * held s + length (pl_decoded s)"

text \<open>The hashes the pipeline has accepted and that decode, wherever they are on the way.\<close>

definition owed :: "(u8 list \<Rightarrow> 'tx option) \<Rightarrow> ('tx \<Rightarrow> address option) \<Rightarrow> 'tx pipeline \<Rightarrow> b256 set" where
  "owed dec rcv s = {dt_hash d | raw d. raw \<in> set (pl_raw s) \<and> decode_to_decoded dec rcv raw = Inr d}
     \<union> {dt_hash d | d. Some d \<in> set (pl_workers s)} \<union> dt_hash ` set (pl_decoded s)
     \<union> fst ` set (dd_map (pl_dedupe s))"

lemma filter_update_count:
  "i < length xs \<Longrightarrow>
     length (filter P (xs[i := x])) + (if P (xs ! i) then 1 else 0) = length (filter P xs) + (if P x then 1 else 0)"
proof (induction xs arbitrary: i)
  case (Cons y xs)
  show ?case
  proof (cases i)
    case (Suc j)
    with Cons.IH [of j] Cons.prems show ?thesis by (cases "P y") simp_all
  qed simp
qed simp

lemma Some_in_update:
  assumes "i < length xs" "xs ! i = None"
  shows "Some y \<in> set (xs[i := Some x]) \<longleftrightarrow> y = x \<or> Some y \<in> set xs"
proof -
  have xs: "xs = take i xs @ None # drop (Suc i) xs" using id_take_nth_drop [OF assms(1)] assms(2) by simp
  have "set xs = set (take i xs) \<union> {None} \<union> set (drop (Suc i) xs)" by (subst xs) auto
  then show ?thesis using assms by (auto simp: upd_conv_take_nth_drop)
qed

lemma Some_in_release:
  assumes "i < length xs" "xs ! i = Some x"
  shows "Some y \<in> set xs \<longleftrightarrow> y = x \<or> Some y \<in> set (xs[i := None])"
  using Some_in_update [of i "xs[i := None]" y x] assms by simp (metis list_update_id)

lemma take_progress:
  assumes "stage_enabled s (Take i)"
  shows "work_left (worker_take dec rcv i s) < work_left s \<and> owed dec rcv (worker_take dec rcv i s) = owed dec rcv s"
proof -
  obtain raw rest where raw: "pl_raw s = raw # rest" using assms by (auto simp: stage_enabled_def neq_Nil_conv)
  from assms have i: "i < length (pl_workers s)" "pl_workers s ! i = None" by (simp_all add: stage_enabled_def)
  show ?thesis
  proof (cases "decode_to_decoded dec rcv raw")
    case (Inl e)
    with raw i show ?thesis by (auto simp: worker_take_def work_left_def owed_def held_def)
  next
    case (Inr d)
    with raw i show ?thesis
      using filter_update_count [OF i(1), of "\<lambda>w. w \<noteq> None" "Some d"]
      by (auto simp: worker_take_def work_left_def owed_def held_def Some_in_update [OF i])
  qed
qed

lemma push_progress:
  assumes "stage_enabled s (Push i)"
  shows "work_left (worker_push i s) < work_left s \<and> owed dec rcv (worker_push i s) = owed dec rcv s"
proof -
  from assms obtain d where i: "i < length (pl_workers s)" "pl_workers s ! i = Some d"
      and room: "length (pl_decoded s) < pc_decoded_channel_capacity (pl_cfg s)"
    by (auto simp: stage_enabled_def)
  then show ?thesis
    using filter_update_count [OF i(1), of "\<lambda>w. w \<noteq> None" None]
    by (auto simp: worker_push_def work_left_def owed_def held_def Some_in_release [OF i])
qed

lemma dedupe_progress:
  assumes "stage_enabled s DedupeNext"
  shows "work_left (run_dedupe_one s) < work_left s \<and> owed dec rcv (run_dedupe_one s) = owed dec rcv s"
  by (rule run_dedupe_one_cases [of s])
     (use assms in \<open>auto simp: stage_enabled_def work_left_def owed_def held_def dedupe_record_keys\<close>)

lemma stage_progress:
  "stage_enabled s e \<Longrightarrow>
     work_left (bus_step dec rcv s e) < work_left s \<and> owed dec rcv (bus_step dec rcv s e) = owed dec rcv s"
  by (cases e) (simp_all add: take_progress push_progress dedupe_progress, simp_all add: stage_enabled_def)

lemma stage_run_bound:
  "stage_run dec rcv s es \<Longrightarrow>
     work_left (foldl (bus_step dec rcv) s es) + length es \<le> work_left s
     \<and> owed dec rcv (foldl (bus_step dec rcv) s es) = owed dec rcv s"
proof (induction es arbitrary: s)
  case (Cons e es)
  then have "work_left (bus_step dec rcv s e) < work_left s"
    and "owed dec rcv (bus_step dec rcv s e) = owed dec rcv s" by (simp_all add: stage_progress)
  with Cons.IH [of "bus_step dec rcv s e"] Cons.prems show ?case by simp
qed simp

lemma some_stage_enabled:
  assumes "0 < pc_decoded_channel_capacity (pl_cfg s)" "pl_workers s \<noteq> []" "0 < work_left s"
  shows "\<exists>e. stage_enabled s e"
proof (cases "pl_decoded s = []")
  case False
  then have "stage_enabled s DedupeNext" by (simp add: stage_enabled_def)
  then show ?thesis ..
next
  case True
  show ?thesis
  proof (cases "\<exists>i < length (pl_workers s). pl_workers s ! i \<noteq> None")
    case busy: True
    then obtain i where "stage_enabled s (Push i)" using assms(1) True by (auto simp: stage_enabled_def)
    then show ?thesis ..
  next
    case False
    then have "\<forall>w \<in> set (pl_workers s). w = None" by (auto simp: in_set_conv_nth)
    then have "held s = 0" by (simp add: held_def filter_empty_conv)
    with True assms(3) have "pl_raw s \<noteq> []" by (auto simp: work_left_def)
    with False assms(2) have "stage_enabled s (Take 0)" by (auto simp: stage_enabled_def)
    then show ?thesis ..
  qed
qed

section \<open>What the table knows has been published\<close>

definition known_published :: "'tx pipeline \<Rightarrow> bool" where
  "known_published s \<longleftrightarrow> fst ` set (dd_map (pl_dedupe s)) \<subseteq> pt_hash ` set (pl_published s)"

lemma known_published_step: "known_published s \<Longrightarrow> known_published (bus_step dec rcv s e)"
proof (cases e)
  case DedupeNext
  show "known_published s \<Longrightarrow> ?thesis"
    by (rule run_dedupe_one_cases [of s]) (auto simp: DedupeNext known_published_def dedupe_record_keys)
next
  case (JanitorTick now)
  then show "known_published s \<Longrightarrow> ?thesis"
    by (auto simp: known_published_def run_janitor_tick_def dedupe_sweep_def Let_def)
qed (simp_all add: known_published_def)

interpretation known: stateful "bus_step dec rcv" known_published
  for dec :: "u8 list \<Rightarrow> 'tx option" and rcv :: "'tx \<Rightarrow> address option"
  by unfold_locales (rule known_published_step)

lemma bus_step_shape:
  "pl_cfg (bus_step dec rcv s e) = pl_cfg s" "length (pl_workers (bus_step dec rcv s e)) = length (pl_workers s)"
proof -
  have "pl_cfg (run_dedupe_one s) = pl_cfg s \<and> pl_workers (run_dedupe_one s) = pl_workers s"
    by (rule run_dedupe_one_cases [of s]) simp_all
  then show "pl_cfg (bus_step dec rcv s e) = pl_cfg s" "length (pl_workers (bus_step dec rcv s e)) = length (pl_workers s)"
    by (cases e; simp add: source_send_def worker_take_def worker_push_def run_janitor_tick_def
        split: list.splits option.splits sum.splits)+
qed

lemma bus_run_shape:
  "pl_cfg (foldl (bus_step dec rcv) s es) = pl_cfg s
     \<and> length (pl_workers (foldl (bus_step dec rcv) s es)) = length (pl_workers s)"
  by (induction es arbitrary: s) (simp_all add: bus_step_shape)

text \<open>C21: The stages drain. From any reachable state, scheduling enabled worker and dedupe
  steps in whatever order can go on for at most the work left, and where no such step is
  possible any more the queues are empty and every accepted transaction that decodes has been
  published: nothing is lost between a source's successful send and the subscribers, and no
  combination of full channels deadlocks the stages.\<close>
theorem pipeline_drains:
  fixes dec :: "u8 list \<Rightarrow> 'tx option" and rcv :: "'tx \<Rightarrow> address option"
  assumes cfg: "0 < pc_decoded_channel_capacity cfg" "0 < pc_decoder_workers cfg"
    and s: "s = foldl (bus_step dec rcv) (build_pipeline cfg b) history"
    and es: "stage_run dec rcv s es" "s' = foldl (bus_step dec rcv) s es" "\<forall>e. \<not> stage_enabled s' e"
  shows "length es \<le> work_left s \<and> pl_raw s' = [] \<and> pl_decoded s' = []
    \<and> (\<forall>raw \<in> set (pl_raw s). \<forall>d. decode_to_decoded dec rcv raw = Inr d \<longrightarrow>
         dt_hash d \<in> pt_hash ` set (pl_published s'))"
proof -
  have run: "s' = foldl (bus_step dec rcv) (build_pipeline cfg b) (history @ es)" by (simp add: s es(2))
  have known: "known_published s'"
    unfolding run by (rule known.run_inv) (simp add: known_published_def build_pipeline_def dedupe_new_def)
  have shape: "pl_cfg s' = cfg" "length (pl_workers s') = pc_decoder_workers cfg"
    unfolding run using bus_run_shape [of dec rcv "build_pipeline cfg b" "history @ es"]
    by (simp_all add: build_pipeline_def)
  have bound: "work_left s' + length es \<le> work_left s" "owed dec rcv s' = owed dec rcv s"
    using stage_run_bound [OF es(1)] by (simp_all add: es(2))
  have "work_left s' = 0"
    using some_stage_enabled [of s'] es(3) cfg shape by (cases "pl_workers s'") auto
  then have none: "pl_raw s' = []" "pl_decoded s' = []" "held s' = 0"
    by (auto simp: work_left_def)
  then have "owed dec rcv s' = fst ` set (dd_map (pl_dedupe s'))"
    by (auto simp: owed_def held_def filter_empty_conv)
  with bound(2) known have "owed dec rcv s \<subseteq> pt_hash ` set (pl_published s')"
    by (simp add: known_published_def)
  then show ?thesis using none bound(1) by (auto simp: owed_def)
qed

section \<open>A run\<close>

definition example_config :: pipeline_config where
  "example_config = pipeline_config_default\<lparr>pc_decoder_workers := 2, pc_raw_channel_capacity := 4,
     pc_decoded_channel_capacity := 1\<rparr>"

definition example_raw :: "b256 \<Rightarrow> source_id \<Rightarrow> u64 \<Rightarrow> nat raw_tx" where
  "example_raw h src t = \<lparr>rt_source = src, rt_recv_ns = t, rt_hash = h, rt_payload = Decoded 7 None\<rparr>"

definition example_arrivals :: "nat bus_event list" where
  "example_arrivals = [NewHead 90 5 4 1000, Arrive (example_raw 1 LOCAL_IPC 2000),
     Arrive (example_raw 1 WSS_PROVIDER 3000), Arrive (example_raw 2 WSS_PROVIDER 4000)]"

definition example_schedule :: "nat bus_event list" where
  "example_schedule = [Take 1, Take 0, Push 0, DedupeNext, Push 1, DedupeNext, Take 1, Push 1, DedupeNext]"

text \<open>The second announcement overtakes the first in the worker pool and is the one published.\<close>

lemmas example_bus_defs = example_config_def example_raw_def example_arrivals_def example_schedule_def
  pipeline_config_default_def build_pipeline_def bus_stage_defs dedupe_new_def dedupe_record_def
  decode_to_decoded_def recover_signer_def on_new_head_def current_block_default_def
  LOCAL_IPC_def WSS_PROVIDER_def Let_def numeral_2_eq_2

abbreviation example_bus :: "nat bus_event list \<Rightarrow> nat pipeline" where
  "example_bus es \<equiv> foldl (bus_step (\<lambda>_. None) (\<lambda>tx. Some (of_nat tx)))
     (build_pipeline example_config current_block_default) es"

lemma example_bus_publishes:
  "map (\<lambda>p. (pt_hash p, pt_source_seen p)) (pl_published (example_bus (example_arrivals @ example_schedule)))
     = [(1, [(WSS_PROVIDER, 3000)]), (2, [(WSS_PROVIDER, 4000)])]"
  by (simp add: example_bus_defs)

theorem one_emission_per_window_witness:
  "distinct (live_hashes 5000 (example_bus (example_arrivals @ example_schedule @ [JanitorTick 5000])))"
  by (rule one_emission_per_window) (simp add: example_arrivals_def example_schedule_def)

lemma example_drained:
  "let s = example_bus (example_arrivals @ example_schedule)
   in pl_raw s = [] \<and> pl_workers s = [None, None] \<and> pl_decoded s = []"
  by (simp add: example_bus_defs)

lemma example_quiet: "\<not> stage_enabled (example_bus (example_arrivals @ example_schedule)) e"
  using example_drained
  unfolding Let_def
  by (cases e) (auto simp: stage_enabled_def nth_Cons simp del: foldl_append split: nat.splits)

lemma example_schedule_runs:
  "stage_run (\<lambda>_. None) (\<lambda>tx. Some (of_nat tx)) (example_bus example_arrivals) example_schedule"
  by (simp add: example_bus_defs stage_enabled_def)

lemma example_queued:
  "pl_raw (example_bus example_arrivals)
     = [example_raw 1 LOCAL_IPC 2000, example_raw 1 WSS_PROVIDER 3000, example_raw 2 WSS_PROVIDER 4000]"
  by (simp add: example_bus_defs)

lemma example_decodes:
  "decode_to_decoded (\<lambda>_. None) (\<lambda>tx. Some (of_nat tx)) (example_raw h src t)
     = Inr \<lparr>dt_hash = h, dt_from = of_nat 7, dt_tx = 7, dt_source = src, dt_recv_ns = t, dt_raw = None\<rparr>"
  by (simp add: example_raw_def decode_to_decoded_def recover_signer_def)

theorem pipeline_drains_witness:
  "length example_schedule \<le> work_left (example_bus example_arrivals)
    \<and> {1, 2} \<subseteq> pt_hash ` set (pl_published (example_bus (example_arrivals @ example_schedule)))"
proof -
  have "\<forall>e. \<not> stage_enabled (foldl (bus_step (\<lambda>_. None) (\<lambda>tx. Some (of_nat tx))) (example_bus example_arrivals)
      example_schedule) e"
    using example_quiet unfolding foldl_append by blast
  moreover have "0 < pc_decoded_channel_capacity example_config" "0 < pc_decoder_workers example_config"
    by (simp_all add: example_config_def pipeline_config_default_def)
  ultimately show ?thesis
    unfolding foldl_append using pipeline_drains [OF _ _ refl example_schedule_runs refl]
    by (simp add: example_queued example_decodes)
qed

end
