(* ===== verification/Calldata.thy ===== *)
theory Calldata
  imports Types
begin

text \<open>
  Calldata decoding: the PancakeSwap path extraction of \<open>trader/strategy.rs\<close> and the GMGN
  router decoder of \<open>gmgn.rs\<close>. Calldata is a list of bytes; an ABI word is 32 bytes,
  big-endian.
\<close>

section \<open>Big-endian words\<close>

definition be_val :: "u8 list \<Rightarrow> nat" where
  "be_val bs = foldl (\<lambda>a b. a * 256 + unat b) 0 bs"

fun be_bytes :: "nat \<Rightarrow> nat \<Rightarrow> u8 list" where
  "be_bytes 0 v = []"
| "be_bytes (Suc n) v = of_nat (v div 256 ^ n mod 256) # be_bytes n v"

definition slice :: "nat \<Rightarrow> nat \<Rightarrow> 'a list \<Rightarrow> 'a list" where
  "slice i j xs = take (j - i) (drop i xs)"

definition address_of_bytes :: "u8 list \<Rightarrow> address" where
  "address_of_bytes bs = of_nat (be_val bs)"

text \<open>The ABI encoding of an unsigned integer and of an address as one word.\<close>

definition uint_word :: "nat \<Rightarrow> u8 list" where
  "uint_word v = be_bytes 32 v"

definition address_word :: "address \<Rightarrow> u8 list" where
  "address_word a = replicate 12 0 @ be_bytes 20 (unat a)"

text \<open>\<open>chunks_exact(32)\<close>: whole words only, a shorter rest is dropped.\<close>

function words32 :: "u8 list \<Rightarrow> u8 list list" where
  "words32 bs = (if length bs < 32 then [] else take 32 bs # words32 (drop 32 bs))"
  by pat_completeness auto
termination
  by (relation "measure length") auto

declare words32.simps [simp del]

section \<open>PancakeSwap V2 path extraction\<close>

definition v2_buy_selectors :: "u8 list list" where
  "v2_buy_selectors = [[0x7f, 0xf3, 0x6a, 0xb5], [0xfb, 0x3b, 0xdb, 0x41], [0xb6, 0xf9, 0xde, 0x95]]"

definition extract_target_token :: "u8 list \<Rightarrow> address option" where
  "extract_target_token calldata =
     (if length calldata < 4 + 32 * 5 + 32 then None
      else if take 4 calldata \<notin> set v2_buy_selectors then None
      else let path_len = be_val (slice 132 164 calldata) in
        if path_len < 2 \<or> 8 < path_len then None
        else let last_start = 164 + 32 * (path_len - 1); last_end = last_start + 32 in
          if length calldata < last_end then None
          else let word = slice last_start last_end calldata;
                   addr = address_of_bytes (slice 12 32 word)
               in if addr = WBNB then None else Some addr)"

text \<open>The call layout documented above the decoder.\<close>

definition v2_swap_calldata ::
  "u8 list \<Rightarrow> nat \<Rightarrow> nat \<Rightarrow> address \<Rightarrow> nat \<Rightarrow> address list \<Rightarrow> u8 list" where
  "v2_swap_calldata sel amount_out_min offset recipient deadline path =
     sel @ uint_word amount_out_min @ uint_word offset @ address_word recipient
     @ uint_word deadline @ uint_word (length path) @ concat (map address_word path)"

section \<open>GMGN router calls\<close>

definition GMGN_SELECTOR :: "u8 list" where
  "GMGN_SELECTOR = [0x4d, 0x81, 0x9a, 0x2a]"

definition GMGN_ROUTER :: address where
  "GMGN_ROUTER = 0x1de460f363af910f51726def188f9004276bf4bc"

fun side_str :: "side \<Rightarrow> string" where
  "side_str Buy = ''BUY''"
| "side_str Sell = ''SELL''"

definition is_gmgn :: "u8 list \<Rightarrow> bool" where
  "is_gmgn input \<longleftrightarrow> 4 \<le> length input \<and> take 4 input = GMGN_SELECTOR"

text \<open>The structural test for an address word: 12 zero bytes, then not four zero bytes.\<close>

definition addr_like :: "u8 list \<Rightarrow> bool" where
  "addr_like w \<longleftrightarrow> (\<forall>b \<in> set (slice 0 12 w). b = 0) \<and> (\<exists>b \<in> set (slice 12 16 w). b \<noteq> 0)"

fun first_token :: "u8 list list \<Rightarrow> address option" where
  "first_token [] = None"
| "first_token (w # ws) =
     (if \<not> addr_like w then first_token ws
      else let addr = address_of_bytes (slice 12 32 w) in
        if addr = WBNB \<or> addr = GMGN_ROUTER then first_token ws else Some addr)"

definition gmgn_decode :: "u8 list \<Rightarrow> u256 \<Rightarrow> (address \<times> side) option" where
  "gmgn_decode input value =
     (if \<not> is_gmgn input then None
      else case first_token (words32 (drop 4 input)) of
        None \<Rightarrow> None
      | Some token \<Rightarrow> Some (token, if 0 < value then Buy else Sell))"

section \<open>Encoding lemmas\<close>

lemma length_be_bytes [simp]: "length (be_bytes n v) = n"
  by (induction n v rule: be_bytes.induct) auto

lemma be_val_foldl: "foldl (\<lambda>a b. a * 256 + unat (b :: u8)) x bs = x * 256 ^ length bs + be_val bs"
proof (induction bs arbitrary: x)
  case (Cons b bs)
  show ?case
    using Cons [of "x * 256 + unat b"] Cons [of "unat b"]
    by (simp add: be_val_def algebra_simps)
qed (simp add: be_val_def)

lemma be_val_Cons: "be_val (b # bs) = unat b * 256 ^ length bs + be_val bs"
  using be_val_foldl [of "unat b" bs] by (simp add: be_val_def)

lemma be_val_append: "be_val (xs @ ys) = be_val xs * 256 ^ length ys + be_val ys"
  using be_val_foldl [of "be_val xs" ys] by (simp add: be_val_def)

lemma be_val_zeros [simp]: "be_val (replicate n 0) = 0"
  by (induction n) (simp_all add: be_val_Cons, simp add: be_val_def)

lemma be_val_be_bytes: "be_val (be_bytes n v) = v mod 256 ^ n"
proof (induction n v rule: be_bytes.induct)
  case (2 n v)
  have "unat (of_nat (v div 256 ^ n mod 256) :: u8) = v div 256 ^ n mod 256"
    by (simp add: unat_of_nat)
  then have "be_val (be_bytes (Suc n) v) = v div 256 ^ n mod 256 * 256 ^ n + v mod 256 ^ n"
    using 2 by (simp add: be_val_Cons)
  also have "\<dots> = v mod (256 ^ n * 256)"
    by (simp add: mod_mult2_eq)
  finally show ?case by (simp add: mult.commute)
qed (simp add: be_val_def)

lemma address_bytes_roundtrip [simp]: "address_of_bytes (be_bytes 20 (unat a)) = (a :: address)"
proof -
  have "unat a < 256 ^ 20" using unsigned_less [of a] by simp
  then show ?thesis by (simp add: address_of_bytes_def be_val_be_bytes)
qed

lemma be_val_uint_word: "x < 2 ^ 256 \<Longrightarrow> be_val (uint_word x) = x"
  by (simp add: uint_word_def be_val_be_bytes)

lemma length_uint_word [simp]: "length (uint_word v) = 32"
  by (simp add: uint_word_def)

lemma length_address_word [simp]: "length (address_word a) = 32"
  by (simp add: address_word_def)

lemma length_path_words [simp]: "length (concat (map address_word path)) = 32 * length path"
  by (induction path) auto

lemma slice_address_word: "slice 12 32 (address_word a) = be_bytes 20 (unat a)"
  by (simp add: slice_def address_word_def)

lemma slice_skip: "length xs \<le> i \<Longrightarrow> slice i j (xs @ ys) = slice (i - length xs) (j - length xs) ys"
  by (simp add: slice_def)

lemma slice_path_word:
  "k < length path \<Longrightarrow> slice (32 * k) (32 * k + 32) (concat (map address_word path)) = address_word (path ! k)"
proof (induction path arbitrary: k)
  case (Cons a path)
  then show ?case by (cases k) (auto simp: slice_def)
qed simp

section \<open>Properties\<close>

text \<open>
  Path extraction inverts the encoding: for each of the three recognised selectors and
  any path of two to eight tokens not ending in WBNB, the decoder returns the path's last
  token, whatever the other arguments of the call are.
\<close>

lemma extract_target_token_roundtrip:
  assumes "sel \<in> set v2_buy_selectors" and "2 \<le> length path" and "length path \<le> 8"
    and "last path \<noteq> WBNB"
  shows "extract_target_token (v2_swap_calldata sel mn off recipient dl path) = Some (last path)"
proof -
  have sel: "length sel = 4" using assms(1) by (auto simp: v2_buy_selectors_def)
  let ?cd = "v2_swap_calldata sel mn off recipient dl path"
  let ?n = "length path"
  have len: "length ?cd = 164 + 32 * ?n" by (simp add: v2_swap_calldata_def sel)
  have lw: "be_val (slice 132 164 ?cd) = ?n"
    using sel assms(3)
    by (simp add: v2_swap_calldata_def slice_skip) (simp add: slice_def uint_word_def be_val_be_bytes)
  have "path \<noteq> []" using assms(2) by auto
  then have last: "last path = path ! (?n - 1)" by (rule last_conv_nth)
  have "slice (164 + 32 * (?n - 1)) (164 + 32 * (?n - 1) + 32) ?cd
      = slice (32 * (?n - 1)) (32 * (?n - 1) + 32) (concat (map address_word path))"
    using sel by (simp add: v2_swap_calldata_def slice_skip add.commute)
  also have "\<dots> = address_word (last path)"
    unfolding last using assms(2) by (intro slice_path_word) simp
  finally have w: "slice (164 + 32 * (?n - 1)) (164 + 32 * (?n - 1) + 32) ?cd = address_word (last path)" .
  have "\<not> 32 * ?n < 32 + 32 * (?n - Suc 0)" using assms(2) by linarith
  moreover have "take 4 ?cd = sel" using sel by (simp add: v2_swap_calldata_def)
  ultimately show ?thesis
    using assms sel len w lw \<open>path \<noteq> []\<close>
    by (simp add: extract_target_token_def Let_def slice_address_word)
qed

lemma first_token_sound:
  "first_token ws = Some a \<Longrightarrow> a \<noteq> WBNB \<and> a \<noteq> GMGN_ROUTER
     \<and> (\<exists>w \<in> set ws. addr_like w \<and> a = address_of_bytes (slice 12 32 w))"
  by (induction ws) (auto simp: Let_def split: if_splits)

text \<open>
  What a decoded GMGN swap guarantees: the call has the GMGN selector, its token is
  neither WBNB nor the router, it is carried by one of the aligned 32-byte words of the
  body, and the side is BUY exactly when the call carries BNB.
\<close>

lemma gmgn_decode_sound:
  assumes "gmgn_decode input value = Some (token, sd)"
  shows "is_gmgn input \<and> token \<noteq> WBNB \<and> token \<noteq> GMGN_ROUTER
     \<and> (sd = Buy \<longleftrightarrow> value \<noteq> 0)
     \<and> (\<exists>w \<in> set (words32 (drop 4 input)). addr_like w \<and> token = address_of_bytes (slice 12 32 w))"
  using assms first_token_sound [of "words32 (drop 4 input)" token]
  by (auto simp: gmgn_decode_def word_gt_0 split: if_splits option.splits)

lemma words32_words: "\<forall>w \<in> set ws. length w = 32 \<Longrightarrow> words32 (concat ws) = ws"
  by (induction ws) (auto simp: words32.simps)

lemma addr_like_address_word: "addr_like (address_word a) \<longleftrightarrow> (\<exists>b \<in> set (take 4 (be_bytes 20 (unat a))). b \<noteq> 0)"
  by (simp add: addr_like_def address_word_def slice_def)

lemma be_val_less: "be_val bs < 256 ^ length bs"
proof (induction bs)
  case (Cons b bs)
  have "unat b < 256" using unsigned_less [of b] by simp
  then have "unat b * 256 ^ length bs + be_val bs < 255 * 256 ^ length bs + 256 ^ length bs"
    using Cons by (intro add_le_less_mono mult_le_mono1) auto
  then show ?case by (simp add: be_val_Cons)
qed (simp add: be_val_def)

text \<open>An address is recognised as soon as its high four bytes are not all zero.\<close>

lemma addr_like_big: "2 ^ 128 \<le> unat a \<Longrightarrow> addr_like (address_word a)"
proof (rule ccontr)
  assume a: "2 ^ 128 \<le> unat a" "\<not> addr_like (address_word a)"
  let ?b = "be_bytes 20 (unat a)"
  have "\<forall>x \<in> set (take 4 ?b). x = 0" using a(2) by (simp add: addr_like_address_word)
  then have "take 4 ?b = replicate 4 0"
    by (intro replicate_eqI) auto
  then have "be_val ?b = be_val (drop 4 ?b)"
    by (metis add_0 append_take_drop_id be_val_append be_val_zeros mult_0)
  also have "\<dots> < 256 ^ 16" using be_val_less [of "drop 4 ?b"] by simp
  finally have "be_val ?b < 2 ^ 128" by simp
  moreover have "unat a < 256 ^ 20" using unsigned_less [of a] by simp
  then have "be_val ?b = unat a" by (simp add: be_val_be_bytes)
  ultimately show False using a(1) by simp
qed

text \<open>
  Recognition: in a GMGN call whose body is a sequence of words, a token with one of its
  high four bytes set is decoded, as long as every earlier word is not address-shaped or
  is WBNB or the router.
\<close>

lemma gmgn_decode_finds_token:
  assumes "\<forall>w \<in> set pre. length w = 32 \<and> (\<not> addr_like w \<or> w = address_word WBNB \<or> w = address_word GMGN_ROUTER)"
    and "\<forall>w \<in> set post. length w = 32"
    and "2 ^ 128 \<le> unat token" and "token \<noteq> WBNB" and "token \<noteq> GMGN_ROUTER"
  shows "gmgn_decode (GMGN_SELECTOR @ concat (pre @ [address_word token] @ post)) value
    = Some (token, if 0 < value then Buy else Sell)"
proof -
  have ws: "words32 (concat (pre @ [address_word token] @ post)) = pre @ [address_word token] @ post"
    using assms(1,2) by (intro words32_words) auto
  have "first_token (pre @ [address_word token] @ post) = Some token"
    using assms(1) assms(3-5)
    by (induction pre) (auto simp: addr_like_big slice_address_word Let_def)
  then show ?thesis
    using ws by (simp add: gmgn_decode_def is_gmgn_def GMGN_SELECTOR_def)
qed

end
