(* ===== verification/Capture.thy ===== *)
theory Capture
  imports Bus "HOL-Library.Sublist" "HOL-Library.Multiset"
begin

text \<open>
  Capture and replay of \<open>bsc-telemetry\<close>: the record of a pending transaction, the framing of
  the records in a segment, rotation, the reader, and the janitor that keeps the directory
  within its bounds. The bincode codec is a pair of functions; the zstd stream is transparent
  (a segment is the bytes given to its encoder); the clock and the file metadata come with
  the calls.
\<close>

section \<open>Records\<close>

record capture_record =
  cr_first_seen_ns :: u64
  cr_source_seen :: "(u8 \<times> u64) list"
  cr_hash :: b256
  cr_from :: address
  cr_rlp :: "u8 list option"
  cr_block_number :: u64
  cr_parent_block_hash :: b256
  cr_ms_into_block :: u32

definition capture_record_of :: "'tx pending_tx \<Rightarrow> capture_record" where
  "capture_record_of p =
     (let (n, parent, ms) = (case pt_block_context p of
            Some c \<Rightarrow> (bc_block_number c, bc_parent_block_hash c, bc_ms_into_block c) | None \<Rightarrow> (0, 0, 0))
      in \<lparr>cr_first_seen_ns = pt_first_seen_ns p, cr_source_seen = pt_source_seen p, cr_hash = pt_hash p,
          cr_from = pt_from p, cr_rlp = pt_raw p, cr_block_number = n, cr_parent_block_hash = parent,
          cr_ms_into_block = ms\<rparr>)"

section \<open>Writing\<close>

text \<open>A little-endian length prefix of four bytes.\<close>

fun le_bytes :: "nat \<Rightarrow> nat \<Rightarrow> u8 list" where
  "le_bytes 0 v = []"
| "le_bytes (Suc n) v = of_nat (v mod 256) # le_bytes n (v div 256)"

fun le_val :: "u8 list \<Rightarrow> nat" where
  "le_val [] = 0"
| "le_val (b # bs) = unat b + 256 * le_val bs"

definition length_prefix :: "nat \<Rightarrow> u8 list" where
  "length_prefix n = le_bytes 4 (if n < 2 ^ 32 then n else 2 ^ 32 - 1)"

definition frame :: "u8 list \<Rightarrow> u8 list" where
  "frame payload = length_prefix (length payload) @ payload"

text \<open>The finished segments, oldest first, and the open one.\<close>

record writer =
  wr_rotate_secs :: nat
  wr_done :: "u8 list list"
  wr_current :: "u8 list"
  wr_bytes_written :: u64
  wr_rotate_at :: nat

definition open_segment :: "nat \<Rightarrow> nat \<Rightarrow> nat" where
  "open_segment rotate_secs now = now + rotate_secs"

definition capture_open :: "nat \<Rightarrow> nat \<Rightarrow> writer" where
  "capture_open rotate_secs now = \<lparr>wr_rotate_secs = rotate_secs, wr_done = [], wr_current = [],
     wr_bytes_written = 0, wr_rotate_at = open_segment rotate_secs now\<rparr>"

definition rotate :: "nat \<Rightarrow> writer \<Rightarrow> writer" where
  "rotate now w = w\<lparr>wr_done := wr_done w @ [wr_current w], wr_current := [], wr_bytes_written := 0,
     wr_rotate_at := open_segment (wr_rotate_secs w) now\<rparr>"

definition write_record :: "(capture_record \<Rightarrow> u8 list option) \<Rightarrow> nat \<Rightarrow> capture_record \<Rightarrow> writer \<Rightarrow> bool \<times> writer" where
  "write_record enc now rec w =
     (case enc rec of
        None \<Rightarrow> (False, w)
      | Some payload \<Rightarrow>
          (let w' = (if wr_rotate_at w \<le> now then rotate now w else w)
           in (True, w'\<lparr>wr_current := wr_current w' @ frame payload,
                  wr_bytes_written := sat_add (wr_bytes_written w') (of_nat (4 + length payload))\<rparr>)))"

definition finalize :: "nat \<Rightarrow> writer \<Rightarrow> writer" where
  "finalize now w = rotate now w"

text \<open>\<open>CaptureWriter::run\<close>: what the subscription yields, with the time of each write.\<close>

datatype 'tx received = Got "'tx pending_tx" nat | Lagged nat

fun capture_step :: "(capture_record \<Rightarrow> u8 list option) \<Rightarrow> writer \<Rightarrow> 'tx received \<Rightarrow> writer" where
  "capture_step enc w (Got p now) = snd (write_record enc now (capture_record_of p) w)"
| "capture_step enc w (Lagged skipped) = w"

definition capture_run :: "(capture_record \<Rightarrow> u8 list option) \<Rightarrow> writer \<Rightarrow> 'tx received list \<Rightarrow> nat \<Rightarrow> writer" where
  "capture_run enc w rs stop = finalize stop (foldl (capture_step enc) w rs)"

section \<open>Reading\<close>

datatype replay_error = TruncatedPayload nat nat | DecodeSerde nat

record replayed =
  rp_record :: capture_record
  rp_index :: nat

text \<open>The reader's rest of the stream and next index; no record at the end of the stream.\<close>

definition next_record ::
  "(u8 list \<Rightarrow> capture_record option) \<Rightarrow> u8 list \<times> nat \<Rightarrow> replay_error + (replayed \<times> u8 list \<times> nat) option" where
  "next_record dec st = (case st of (bytes, i) \<Rightarrow>
     if length bytes < 4 then Inr None
     else let len = le_val (take 4 bytes); rest = drop 4 bytes in
       if length rest < len then Inl (TruncatedPayload len i)
       else case dec (take len rest) of
         None \<Rightarrow> Inl (DecodeSerde i)
       | Some r \<Rightarrow> Inr (Some (\<lparr>rp_record = r, rp_index = i\<rparr>, drop len rest, i + 1)))"

lemma next_record_shorter:
  "next_record dec st = Inr (Some (r, bytes', i')) \<Longrightarrow> length bytes' < length (fst st)"
  by (auto simp: next_record_def Let_def split: prod.splits if_splits option.splits)

function read_from ::
  "(u8 list \<Rightarrow> capture_record option) \<Rightarrow> replayed list \<Rightarrow> u8 list \<times> nat \<Rightarrow> replay_error + replayed list" where
  "read_from dec out st = (case next_record dec st of
       Inl e \<Rightarrow> Inl e
     | Inr None \<Rightarrow> Inr out
     | Inr (Some (r, st')) \<Rightarrow> read_from dec (out @ [r]) st')"
  by pat_completeness auto

termination
  by (relation "measure (\<lambda>(dec, out, bytes, i). length bytes)") (auto dest: next_record_shorter)

declare read_from.simps [simp del]

definition read_all :: "(u8 list \<Rightarrow> capture_record option) \<Rightarrow> u8 list \<Rightarrow> replay_error + replayed list" where
  "read_all dec bytes = read_from dec [] (bytes, 0)"

text \<open>\<open>wiring::replay\<close>: the number of records, whatever the speed.\<close>

definition replay :: "(u8 list \<Rightarrow> capture_record option) \<Rightarrow> u8 list \<Rightarrow> f64 \<Rightarrow> replay_error + nat" where
  "replay dec bytes speed = (case read_all dec bytes of Inl e \<Rightarrow> Inl e | Inr rs \<Rightarrow> Inr (length rs))"

section \<open>The janitor\<close>

record segment_file =
  sf_path :: string
  sf_len :: u64
  sf_mtime :: nat

definition is_zst :: "string \<Rightarrow> bool" where
  "is_zst p \<longleftrightarrow> suffix ''.zst'' p \<and> 4 < length p"

definition too_old :: "nat \<Rightarrow> nat \<Rightarrow> segment_file \<Rightarrow> bool" where
  "too_old now max_age f \<longleftrightarrow> sf_mtime f \<le> now \<and> max_age < now - sf_mtime f"

fun evict :: "(string \<Rightarrow> bool) \<Rightarrow> u64 \<Rightarrow> u64 \<Rightarrow> segment_file list \<Rightarrow> segment_file list" where
  "evict removable retention used [] = []"
| "evict removable retention used (f # fs) =
     (if used \<le> retention then f # fs
      else (if removable (sf_path f) then [] else [f]) @ evict removable retention (sat_sub used (sf_len f)) fs)"

text \<open>The capture files left after a sweep, and with them the files it does not look at.\<close>

definition sweep_directory ::
  "(string \<Rightarrow> bool) \<Rightarrow> nat \<Rightarrow> u64 \<Rightarrow> nat \<Rightarrow> segment_file list \<Rightarrow> segment_file list \<times> segment_file list" where
  "sweep_directory removable now retention max_age dir =
     (let entries = filter (\<lambda>f. is_zst (sf_path f)) dir;
          others = filter (\<lambda>f. \<not> is_zst (sf_path f)) dir;
          used = foldl (\<lambda>n f. sat_add n (sf_len f)) 0 (filter (\<lambda>f. \<not> too_old now max_age f) entries);
          surviving = filter (\<lambda>f. \<not> (too_old now max_age f \<and> removable (sf_path f))) entries
      in if retention < used
         then (evict removable retention used (sort_key sf_mtime surviving), others)
         else (surviving, others))"

section \<open>Framing round trip\<close>

definition codec :: "(capture_record \<Rightarrow> u8 list option) \<Rightarrow> (u8 list \<Rightarrow> capture_record option) \<Rightarrow> bool" where
  "codec enc dec \<longleftrightarrow> (\<forall>r b. enc r = Some b \<longrightarrow> dec b = Some r \<and> length b < 2 ^ 32)"

lemma length_le_bytes [simp]: "length (le_bytes n v) = n"
  by (induction n arbitrary: v) simp_all

lemma le_val_le_bytes: "le_val (le_bytes n v) = v mod 256 ^ n"
proof (induction n arbitrary: v)
  case (Suc n)
  have "unat (of_nat (v mod 256) :: u8) = v mod 256"
    by (simp add: unat_of_nat)
  then show ?case by (simp add: Suc mod_mult2_eq)
qed simp

lemma le_val_prefix: "n < 2 ^ 32 \<Longrightarrow> le_val (length_prefix n) = n"
  by (simp add: length_prefix_def le_val_le_bytes)

lemma length_frame [simp]: "length (frame b) = 4 + length b"
  by (simp add: frame_def length_prefix_def)

definition frames :: "u8 list list \<Rightarrow> u8 list" where
  "frames bs = concat (map frame bs)"

lemma take_prefix: "take 4 (frame b @ rest) = length_prefix (length b)" "drop 4 (frame b @ rest) = b @ rest"
  by (simp_all add: frame_def length_prefix_def)

lemma next_record_frame:
  assumes "dec b = Some r" "length b < 2 ^ 32"
  shows "next_record dec (frame b @ rest, i) = Inr (Some (\<lparr>rp_record = r, rp_index = i\<rparr>, rest, i + 1))"
proof -
  have "le_val (take 4 (frame b @ rest)) = length b" using assms(2) by (simp only: take_prefix le_val_prefix)
  moreover have "drop 4 (frame b @ rest) = b @ rest" by (rule take_prefix)
  moreover have "take (length b) (b @ rest) = b" "drop (length b) (b @ rest) = rest" by simp_all
  ultimately show ?thesis using assms by (simp add: next_record_def Let_def del: drop_append take_append)
qed

fun indexed :: "nat \<Rightarrow> capture_record list \<Rightarrow> replayed list" where
  "indexed i [] = []"
| "indexed i (r # rs) = \<lparr>rp_record = r, rp_index = i\<rparr> # indexed (i + 1) rs"

lemma map_record_indexed [simp]: "map rp_record (indexed i rs) = rs"
  by (induction rs arbitrary: i) simp_all

lemma length_indexed [simp]: "length (indexed i rs) = length rs"
  by (induction rs arbitrary: i) simp_all

lemma read_from_frames:
  assumes "codec enc dec" "list_all2 (\<lambda>r b. enc r = Some b) rs bs"
  shows "read_from dec out (frames bs @ rest, i) = read_from dec (out @ indexed i rs) (rest, i + length rs)"
  using assms(2)
proof (induction rs bs arbitrary: out i rule: list_all2_induct)
  case Nil
  then show ?case by (simp add: frames_def)
next
  case (Cons r rs b bs)
  have "dec b = Some r" "length b < 2 ^ 32" using assms(1) Cons.hyps by (auto simp: codec_def)
  then have "read_from dec out (frames (b # bs) @ rest, i)
      = read_from dec (out @ [\<lparr>rp_record = r, rp_index = i\<rparr>]) (frames bs @ rest, i + 1)"
    by (subst read_from.simps) (simp add: frames_def next_record_frame)
  with Cons.IH show ?case by simp
qed

lemma read_from_end: "length rest < 4 \<Longrightarrow> read_from dec out (rest, i) = Inr out"
  by (subst read_from.simps) (simp add: next_record_def)

lemma read_all_frames:
  assumes "codec enc dec" "list_all2 (\<lambda>r b. enc r = Some b) rs bs"
  shows "read_all dec (frames bs) = Inr (indexed 0 rs)"
  using read_from_frames [OF assms, of "[]" "[]" 0] by (simp add: read_all_def read_from_end)

section \<open>Every record is read back\<close>

fun received_records :: "'tx received list \<Rightarrow> capture_record list" where
  "received_records [] = []"
| "received_records (Got p now # rs) = capture_record_of p # received_records rs"
| "received_records (Lagged n # rs) = received_records rs"

text \<open>The segments hold the frames of these lists of encodable records.\<close>

definition holds :: "(capture_record \<Rightarrow> u8 list option) \<Rightarrow> writer \<Rightarrow> capture_record list list \<Rightarrow> capture_record list \<Rightarrow> bool" where
  "holds enc w segs cur \<longleftrightarrow> wr_done w = map (\<lambda>rs. frames (map (the \<circ> enc) rs)) segs
     \<and> wr_current w = frames (map (the \<circ> enc) cur)
     \<and> (\<forall>rs \<in> set segs. \<forall>r \<in> set rs. enc r \<noteq> None) \<and> (\<forall>r \<in> set cur. enc r \<noteq> None)"

lemma frames_snoc: "frames (bs @ [b]) = frames bs @ frame b"
  by (simp add: frames_def)

lemma holds_rotate: "holds enc w segs cur \<Longrightarrow> holds enc (rotate now w) (segs @ [cur]) []"
  by (auto simp: holds_def rotate_def frames_def)

lemma holds_append:
  "holds enc w segs cur \<Longrightarrow> enc r = Some b \<Longrightarrow>
     holds enc (w\<lparr>wr_current := wr_current w @ frame b, wr_bytes_written := n\<rparr>) segs (cur @ [r])"
  by (auto simp: holds_def frames_snoc)

lemma holds_step:
  assumes "holds enc w segs cur"
  shows "\<exists>segs' cur'. holds enc (capture_step enc w e) segs' cur'
    \<and> concat segs' @ cur' = concat segs @ cur @ filter (\<lambda>r. enc r \<noteq> None) (received_records [e])"
proof (cases e)
  case (Got p now)
  show ?thesis
  proof (cases "enc (capture_record_of p)")
    case None
    with assms Got show ?thesis
      by (intro exI [of _ segs] exI [of _ cur]) (simp add: write_record_def)
  next
    case (Some b)
    show ?thesis
    proof (cases "wr_rotate_at w \<le> now")
      case True
      have "holds enc (capture_step enc w e) (segs @ [cur]) ([] @ [capture_record_of p])"
        using holds_append [OF holds_rotate [OF assms, of now] Some] True Some Got
        by (simp add: write_record_def Let_def)
      with Some Got show ?thesis
        by (intro exI [of _ "segs @ [cur]"] exI [of _ "[capture_record_of p]"]) simp
    next
      case False
      have "holds enc (capture_step enc w e) segs (cur @ [capture_record_of p])"
        using holds_append [OF assms Some] False Some Got by (simp add: write_record_def)
      with Some Got show ?thesis
        by (intro exI [of _ segs] exI [of _ "cur @ [capture_record_of p]"]) simp
    qed
  qed
next
  case (Lagged n)
  with assms show ?thesis by (intro exI [of _ segs] exI [of _ cur]) simp
qed

lemma received_records_Cons: "received_records (e # es) = received_records [e] @ received_records es"
  by (cases e) simp_all

lemma holds_run:
  assumes "holds enc w segs cur"
  shows "\<exists>segs' cur'. holds enc (foldl (capture_step enc) w es) segs' cur'
    \<and> concat segs' @ cur' = concat segs @ cur @ filter (\<lambda>r. enc r \<noteq> None) (received_records es)"
  using assms
proof (induction es arbitrary: w segs cur)
  case Nil
  then show ?case by (intro exI [of _ segs] exI [of _ cur]) simp
next
  case (Cons e es)
  obtain segs1 cur1 where one: "holds enc (capture_step enc w e) segs1 cur1"
      "concat segs1 @ cur1 = concat segs @ cur @ filter (\<lambda>r. enc r \<noteq> None) (received_records [e])"
    using holds_step [OF Cons.prems] by blast
  obtain segs2 cur2 where "holds enc (foldl (capture_step enc) (capture_step enc w e) es) segs2 cur2"
      "concat segs2 @ cur2 = concat segs1 @ cur1 @ filter (\<lambda>r. enc r \<noteq> None) (received_records es)"
    using Cons.IH [OF one(1)] by blast
  with one(2) show ?case
    by (intro exI [of _ segs2] exI [of _ cur2]) (simp add: received_records_Cons [of e es])
qed

lemma read_segment:
  assumes "codec enc dec" "\<forall>r \<in> set rs. enc r \<noteq> None"
  shows "read_all dec (frames (map (the \<circ> enc) rs)) = Inr (indexed 0 rs)"
proof (rule read_all_frames [OF assms(1)])
  show "list_all2 (\<lambda>r b. enc r = Some b) rs (map (the \<circ> enc) rs)"
    using assms(2) by (auto simp: list_all2_conv_all_nth)
qed


text \<open>A cut segment. When a segment ends inside a record, a cut inside the length prefix is
  reported as the regular end of the file (the error for a truncated header is never
  raised), while a cut inside the payload makes the whole read fail: the records before it,
  intact as they are, are not returned.\<close>
lemma cut_segment:
  assumes "codec enc dec" and "\<forall>r \<in> set rs. enc r \<noteq> None" and "enc r = Some b" and "k < length (frame b)"
  shows "read_all dec (frames (map (the \<circ> enc) rs) @ take k (frame b)) =
     (if k < 4 then Inr (indexed 0 rs) else Inl (TruncatedPayload (length b) (length rs)))"
proof -
  have enc: "list_all2 (\<lambda>r b. enc r = Some b) rs (map (the \<circ> enc) rs)"
    using assms(2) by (auto simp: list_all2_conv_all_nth)
  have "read_all dec (frames (map (the \<circ> enc) rs) @ take k (frame b))
      = read_from dec (indexed 0 rs) (take k (frame b), length rs)"
    using read_from_frames [OF assms(1) enc] by (simp add: read_all_def)
  also have "\<dots> = (if k < 4 then Inr (indexed 0 rs) else Inl (TruncatedPayload (length b) (length rs)))"
  proof (cases "k < 4")
    case True
    with assms(4) show ?thesis by (simp add: read_from_end)
  next
    case False
    then have "take 4 (take k (frame b)) = length_prefix (length b)"
      using take_prefix(1) [of b "[]"] by (simp add: min_def)
    moreover have "length b < 2 ^ 32" using assms(1,3) by (simp add: codec_def)
    moreover have "k - 4 < length b" using False assms(4) by simp
    ultimately show ?thesis
      using False assms(4)
      by (subst read_from.simps) (simp add: next_record_def Let_def le_val_prefix)
  qed
  finally show ?thesis .
qed

section \<open>What the janitor keeps\<close>

abbreviation bytes_of :: "segment_file list \<Rightarrow> nat" where
  "bytes_of fs \<equiv> sum_list (map (\<lambda>f. unat (sf_len f)) fs)"

lemma unat_foldl_sat:
  "unat a + bytes_of fs < 2 ^ 64 \<Longrightarrow> unat (foldl (\<lambda>n f. sat_add n (sf_len f)) a fs) = unat a + bytes_of fs"
proof (induction fs arbitrary: a)
  case (Cons f fs)
  have "unat (sat_add a (sf_len f)) = unat a + unat (sf_len f)"
    using Cons.prems by (simp add: unat_sat_add)
  with Cons show ?case by simp
qed simp

lemma evict_drops:
  "unat used = bytes_of fs \<Longrightarrow> \<exists>n. evict (\<lambda>_. True) retention used fs = drop n fs
     \<and> bytes_of (drop n fs) \<le> unat retention \<and> (\<forall>m < n. unat retention < bytes_of (drop m fs))"
proof (induction fs arbitrary: used)
  case Nil
  show ?case by (intro exI [of _ 0]) simp
next
  case (Cons f fs)
  show ?case
  proof (cases "used \<le> retention")
    case True
    with Cons.prems show ?thesis by (intro exI [of _ 0]) (simp add: word_le_nat_alt)
  next
    case False
    have "unat (sat_sub used (sf_len f)) = bytes_of fs" using Cons.prems by (simp add: unat_sat_sub)
    from Cons.IH [OF this] obtain n where n: "evict (\<lambda>_. True) retention (sat_sub used (sf_len f)) fs = drop n fs"
        "bytes_of (drop n fs) \<le> unat retention" "\<forall>m < n. unat retention < bytes_of (drop m fs)" by blast
    have "unat retention < bytes_of (drop m (f # fs))" if "m < Suc n" for m
      using that n(3) False Cons.prems by (cases m) (simp_all add: word_le_nat_alt)
    with n False show ?thesis by (intro exI [of _ "Suc n"]) simp
  qed
qed

lemma bytes_of_mset: "mset fs = mset gs \<Longrightarrow> bytes_of fs = bytes_of gs"
  by (metis mset_map sum_mset_sum_list)

text \<open>The janitor's bounds. When the files can be removed and their sizes add up within 64
  bits, a sweep keeps no capture file over the age limit, keeps at most the retention in
  bytes, removes the oldest first and no more than it has to, and leaves every other file of
  the directory alone.\<close>
lemma sweep_keeps_newest:
  assumes "fresh = filter (\<lambda>f. is_zst (sf_path f) \<and> \<not> too_old now max_age f) dir" and "bytes_of fresh < 2 ^ 64"
    and "sweep_directory (\<lambda>_. True) now retention max_age dir = (kept, others)"
  shows "others = filter (\<lambda>f. \<not> is_zst (sf_path f)) dir \<and> bytes_of kept \<le> unat retention
    \<and> (\<exists>n. mset kept = mset (drop n (sort_key sf_mtime fresh))
         \<and> (\<forall>m < n. unat retention < bytes_of (drop m (sort_key sf_mtime fresh))))"
proof -
  let ?used = "foldl (\<lambda>n f. sat_add n (sf_len f)) 0 fresh"
  have used: "unat ?used = bytes_of fresh" using unat_foldl_sat [of 0 fresh] assms(2) by simp
  have sorted: "bytes_of (sort_key sf_mtime fresh) = bytes_of fresh" by (rule bytes_of_mset) simp
  have res: "others = filter (\<lambda>f. \<not> is_zst (sf_path f)) dir"
      "kept = (if retention < ?used then evict (\<lambda>_. True) retention ?used (sort_key sf_mtime fresh) else fresh)"
    using assms(3) by (auto simp: sweep_directory_def Let_def assms(1) [symmetric] split: if_splits)
  show ?thesis
  proof (cases "retention < ?used")
    case True
    obtain n where "evict (\<lambda>_. True) retention ?used (sort_key sf_mtime fresh) = drop n (sort_key sf_mtime fresh)"
        "bytes_of (drop n (sort_key sf_mtime fresh)) \<le> unat retention"
        "\<forall>m < n. unat retention < bytes_of (drop m (sort_key sf_mtime fresh))"
      using evict_drops [of ?used "sort_key sf_mtime fresh" retention] used sorted by auto
    with True res show ?thesis by (intro conjI exI [of _ n]) simp_all
  next
    case False
    then have "bytes_of fresh \<le> unat retention" using used by (simp add: word_less_nat_alt)
    with False res show ?thesis by (intro conjI exI [of _ 0]) simp_all
  qed
qed

text \<open>An expired file that cannot be removed is left out of the total but subtracted from it.\<close>

lemma unremovable_file_hides_excess:
  "let a = \<lparr>sf_path = ''a.zst'', sf_len = 10, sf_mtime = 0\<rparr>; b = \<lparr>sf_path = ''b.zst'', sf_len = 8, sf_mtime = 90\<rparr>;
       c = \<lparr>sf_path = ''c.zst'', sf_len = 8, sf_mtime = 95\<rparr>
   in sweep_directory (\<lambda>p. p \<noteq> ''a.zst'') 100 12 50 [a, b, c] = ([a, b, c], [])"
  by (simp add: sweep_directory_def is_zst_def too_old_def suffix_def sat_add_def sat_sub_def Let_def)

section \<open>A concrete capture\<close>

definition example_record :: "u64 \<Rightarrow> capture_record" where
  "example_record t = \<lparr>cr_first_seen_ns = t, cr_source_seen = [(LOCAL_IPC, t)], cr_hash = 1, cr_from = 7,
     cr_rlp = None, cr_block_number = 0, cr_parent_block_hash = 0, cr_ms_into_block = 0\<rparr>"

definition example_enc :: "capture_record \<Rightarrow> u8 list option" where
  "example_enc r = (if r = example_record 5 then Some [42] else None)"

definition example_dec :: "u8 list \<Rightarrow> capture_record option" where
  "example_dec b = (if b = [42] then Some (example_record 5) else None)"

lemma example_codec: "codec example_enc example_dec"
  by (simp add: codec_def example_enc_def example_dec_def)

definition example_captured :: "nat pending_tx" where
  "example_captured = \<lparr>pt_hash = 1, pt_from = 7, pt_tx = 0, pt_first_seen_ns = 5, pt_source_seen = [(LOCAL_IPC, 5)],
     pt_raw = None, pt_block_context = None\<rparr>"


end
