(* ===== verification/FourMeme.thy ===== *)
theory FourMeme
  imports Calldata
begin

text \<open>
  \<open>crates/bsc-runner/src/four_meme_price.rs\<close>: the bonding-curve feed. The decoder of the
  launchpad's trade events, the rolling window of per-block flow statistics, and the two
  caches the event loop writes. Sockets and subscriptions are not modelled: an event is the
  log the stream delivers and the socket (buy or sell) it came from.
\<close>

section \<open>Flow statistics\<close>

record block_stats =
  bs_block :: u64
  bs_buy_count :: u32
  bs_sell_count :: u32
  bs_buy_bnb_wei :: u128
  bs_sell_bnb_wei :: u128

definition block_stats_new :: "u64 \<Rightarrow> block_stats" where
  "block_stats_new block = \<lparr>bs_block = block, bs_buy_count = 0, bs_sell_count = 0,
     bs_buy_bnb_wei = 0, bs_sell_bnb_wei = 0\<rparr>"

definition STATS_WINDOW :: nat where
  "STATS_WINDOW = 10"

text \<open>The deque of a token, oldest block first.\<close>

type_synonym token_stats = "block_stats list"

fun pop_excess :: "token_stats \<Rightarrow> token_stats" where
  "pop_excess [] = []"
| "pop_excess (b # bs) = (if STATS_WINDOW < length (b # bs) then pop_excess bs else b # bs)"

definition push_block :: "token_stats \<Rightarrow> block_stats \<Rightarrow> token_stats" where
  "push_block bs b = pop_excess (bs @ [b])"

definition count_trade :: "bool \<Rightarrow> u128 \<Rightarrow> block_stats \<Rightarrow> block_stats" where
  "count_trade is_buy bnb_wei b =
     (if is_buy
      then b\<lparr>bs_buy_count := bs_buy_count b + 1, bs_buy_bnb_wei := sat_add (bs_buy_bnb_wei b) bnb_wei\<rparr>
      else b\<lparr>bs_sell_count := bs_sell_count b + 1, bs_sell_bnb_wei := sat_add (bs_sell_bnb_wei b) bnb_wei\<rparr>)"

definition ingest :: "u64 \<Rightarrow> bool \<Rightarrow> u128 \<Rightarrow> token_stats \<Rightarrow> token_stats" where
  "ingest block is_buy bnb_wei bs =
     (let bs1 = (if bs = [] \<or> bs_block (last bs) \<noteq> block
                 then push_block bs (block_stats_new block) else bs)
      in butlast bs1 @ [count_trade is_buy bnb_wei (last bs1)])"

definition buy_count_last :: "nat \<Rightarrow> token_stats \<Rightarrow> u32" where
  "buy_count_last n bs = sum_list (map bs_buy_count (take n (rev bs)))"

definition sell_count_last :: "nat \<Rightarrow> token_stats \<Rightarrow> u32" where
  "sell_count_last n bs = sum_list (map bs_sell_count (take n (rev bs)))"

definition net_flow_bnb_wei_last :: "nat \<Rightarrow> token_stats \<Rightarrow> i128" where
  "net_flow_bnb_wei_last n bs =
     sum_list (map (\<lambda>b. ucast (bs_buy_bnb_wei b) - ucast (bs_sell_bnb_wei b)) (take n (rev bs)))"

section \<open>The trade event\<close>

text \<open>The log of the stream, as far as the decoder reads it.\<close>

record trade_log =
  lg_data :: "u8 list"
  lg_block_number :: "u64 option"

definition u256_from_be_bytes_f64 :: "u8 list \<Rightarrow> f64" where
  "u256_from_be_bytes_f64 bs = foldl (\<lambda>acc byte. fadd (fmul acc (Fin 256)) (f64_of_word byte)) (Fin 0) bs"

definition log_word :: "u8 list \<Rightarrow> nat \<Rightarrow> u8 list" where
  "log_word data i = slice (i * 32) ((i + 1) * 32) data"

definition decode_trade_buy :: "trade_log \<Rightarrow> (address \<times> u64 \<times> f64 \<times> u128) option" where
  "decode_trade_buy lg =
     (let data = lg_data lg in
      if length data < 32 * 6 then None
      else let token = address_of_bytes (slice 12 32 (log_word data 0));
               tokens = u256_from_be_bytes_f64 (log_word data 3);
               bnb_net = u256_from_be_bytes_f64 (log_word data 4);
               fee = u256_from_be_bytes_f64 (log_word data 5)
           in if fle tokens (Fin 0) then None
              else let bnb_gross = fadd bnb_net fee in
                if fle bnb_gross (Fin 0) then None
                else Some (token, case lg_block_number lg of Some n \<Rightarrow> n | None \<Rightarrow> 0,
                       fdiv bnb_gross tokens, f64_to_word bnb_gross))"

section \<open>The feed\<close>

record price_point =
  pp_block :: u64
  pp_price :: f64

record feed =
  fd_prices :: "address \<rightharpoonup> price_point"
  fd_stats :: "address \<rightharpoonup> token_stats"

definition feed_new :: feed where
  "feed_new = \<lparr>fd_prices = Map.empty, fd_stats = Map.empty\<rparr>"

definition feed_event :: "trade_log \<Rightarrow> bool \<Rightarrow> feed \<Rightarrow> feed" where
  "feed_event lg is_buy fd =
     (case decode_trade_buy lg of
        None \<Rightarrow> fd
      | Some (token, block, price, bnb_wei) \<Rightarrow>
          fd\<lparr>fd_prices := (fd_prices fd)(token \<mapsto> \<lparr>pp_block = block, pp_price = price\<rparr>),
             fd_stats := (fd_stats fd)(token \<mapsto> ingest block is_buy bnb_wei
               (case fd_stats fd token of Some bs \<Rightarrow> bs | None \<Rightarrow> []))\<rparr>)"

section \<open>The window against the history of trades\<close>

lemma pop_excess_lastn: "pop_excess bs = lastn STATS_WINDOW bs"
proof (induction bs)
  case (Cons b bs)
  then show ?case
    by (cases "STATS_WINDOW < length (b # bs)") (simp_all add: lastn_def Suc_diff_le)
qed simp

lemma push_block_lastn: "push_block bs b = lastn STATS_WINDOW (bs @ [b])"
  by (simp add: push_block_def pop_excess_lastn)

interpretation stats_window: bounded_window "\<lambda>bs b. Some (push_block bs b)" "\<lambda>bs. bs"
    "\<lambda>bs. length bs \<le> STATS_WINDOW" STATS_WINDOW
  by unfold_locales (simp_all add: push_block_lastn STATS_WINDOW_def)

text \<open>The statistics of one block, read off a whole history of trades (block, side, wei).\<close>

type_synonym trade = "u64 \<times> bool \<times> u128"

definition trades_of :: "trade list \<Rightarrow> u64 \<Rightarrow> bool \<Rightarrow> u128 list" where
  "trades_of ts b is_buy = map (snd \<circ> snd) (filter (\<lambda>t. fst t = b \<and> fst (snd t) = is_buy) ts)"

definition total_wei :: "u128 list \<Rightarrow> u128" where
  "total_wei ws = foldl sat_add 0 ws"

definition stats_at :: "trade list \<Rightarrow> u64 \<Rightarrow> block_stats" where
  "stats_at ts b = \<lparr>bs_block = b,
     bs_buy_count = of_nat (length (trades_of ts b True)), bs_sell_count = of_nat (length (trades_of ts b False)),
     bs_buy_bnb_wei = total_wei (trades_of ts b True), bs_sell_bnb_wei = total_wei (trades_of ts b False)\<rparr>"

definition ingest_all :: "trade list \<Rightarrow> token_stats" where
  "ingest_all ts = foldl (\<lambda>bs (b, is_buy, w). ingest b is_buy w bs) [] ts"

lemma unat_total_wei: "unat (total_wei ws) = min (\<Sum>w\<leftarrow>ws. unat w) (2 ^ 128 - 1)"
  by (induction ws rule: rev_induct) (simp_all add: total_wei_def unat_sat_add)

lemma stats_at_snoc:
  "stats_at (ts @ [(b, k, w)]) c =
     (if c = b then count_trade k w (stats_at ts c) else stats_at ts c)"
  by (auto simp: stats_at_def trades_of_def count_trade_def total_wei_def)

lemma stats_at_unseen: "b \<notin> fst ` set ts \<Longrightarrow> stats_at ts b = block_stats_new b"
proof -
  assume "b \<notin> fst ` set ts"
  then have "trades_of ts b k = []" for k by (auto simp: trades_of_def filter_empty_conv)
  then show ?thesis by (simp add: stats_at_def block_stats_new_def total_wei_def)
qed

lemma map_lastn: "map f (lastn n xs) = lastn n (map f xs)"
  by (simp add: lastn_def drop_map)

lemma block_of_stats_at [simp]: "bs_block (stats_at ts b) = b"
  by (simp add: stats_at_def)

lemma trading_blocks_snoc:
  "remdups_adj (xs @ [x]) = (if xs \<noteq> [] \<and> last xs = x then remdups_adj xs else remdups_adj xs @ [x])"
proof (cases xs rule: rev_cases)
  case (snoc ys y)
  then show ?thesis using remdups_adj_append_two [of ys y x] by simp
qed simp

lemma last_trading_block: "xs \<noteq> [] \<Longrightarrow> last (remdups_adj xs) = last xs"
  by (induction xs rule: remdups_adj.induct) auto

lemma distinct_trading_blocks: "sorted xs \<Longrightarrow> distinct (remdups_adj xs)"
  by (induction xs rule: remdups_adj.induct) (auto simp: order_less_le)

lemma ingest_aggregates:
  assumes "sorted (map fst ts)"
  shows "ingest_all ts = map (stats_at ts) (lastn STATS_WINDOW (remdups_adj (map fst ts)))"
  using assms
proof (induction ts rule: rev_induct)
  case Nil
  then show ?case by (simp add: ingest_all_def lastn_def)
next
  case (snoc t ts)
  obtain b k w where t: "t = (b, k, w)" by (cases t)
  let ?D = "remdups_adj (map fst ts)"
  have so: "sorted (map fst ts)" and le: "\<forall>c \<in> fst ` set ts. c \<le> b"
    using snoc.prems by (auto simp: t sorted_append)
  have IH: "ingest_all ts = map (stats_at ts) (lastn STATS_WINDOW ?D)" using snoc.IH so by simp
  have step: "ingest_all (ts @ [t]) = ingest b k w (ingest_all ts)" by (simp add: ingest_all_def t)
  have W: "0 < STATS_WINDOW" by (simp add: STATS_WINDOW_def)
  have other: "map (stats_at (ts @ [t])) xs = map (stats_at ts) xs" if "b \<notin> set xs" for xs
    using that by (auto simp: t stats_at_snoc)
  have upd: "stats_at (ts @ [t]) b = count_trade k w (stats_at ts b)" by (simp add: t stats_at_snoc)
  show ?case
  proof (cases "ts \<noteq> [] \<and> fst (last ts) = b")
    case True
    then have D': "remdups_adj (map fst (ts @ [t])) = ?D"
      by (simp add: trading_blocks_snoc t last_map)
    have lD: "?D \<noteq> []" "last ?D = b" using True by (simp_all add: last_trading_block last_map)
    then obtain E where E: "?D = E @ [b]" by (metis append_butlast_last_id)
    have "distinct ?D" using so by (simp add: distinct_trading_blocks)
    then have nb: "b \<notin> set (lastn (STATS_WINDOW - 1) E)"
      using set_lastn_subset [of "STATS_WINDOW - 1" E] by (auto simp: E)
    have "ingest_all ts = map (stats_at ts) (lastn (STATS_WINDOW - 1) E) @ [stats_at ts b]"
      by (simp add: IH E lastn_snoc W)
    then show ?thesis
      unfolding step D' by (simp add: ingest_def E lastn_snoc W other [OF nb] upd del: One_nat_def)
  next
    case False
    have new: "b \<notin> fst ` set ts"
    proof
      assume "b \<in> fst ` set ts"
      then have ne: "ts \<noteq> []" by auto
      then have "fst (last ts) < b" using False le by (auto simp: order_less_le)
      moreover have "c \<le> fst (last ts)" if "c \<in> fst ` set ts" for c
        using that so ne by (cases ts rule: rev_cases) (auto simp: sorted_append)
      ultimately show False using \<open>b \<in> fst ` set ts\<close> by fastforce
    qed
    then have nb: "b \<notin> set (lastn (STATS_WINDOW - 1) ?D)"
      using set_lastn_subset [of "STATS_WINDOW - 1" ?D] by auto
    have D': "remdups_adj (map fst (ts @ [t])) = ?D @ [b]"
      using False by (auto simp: trading_blocks_snoc t last_map)
    have "ingest_all ts = [] \<or> bs_block (last (ingest_all ts)) \<noteq> b"
    proof (cases "ts = []")
      case False
      then have "?D \<noteq> []" by simp
      then obtain E d where E: "?D = E @ [d]" by (metis append_butlast_last_id)
      then have "d \<in> fst ` set ts" by (metis in_set_conv_decomp remdups_adj_set set_map)
      with new show ?thesis by (auto simp: IH E lastn_snoc W)
    qed (simp add: ingest_all_def)
    then have "ingest b k w (ingest_all ts)
      = butlast (push_block (ingest_all ts) (block_stats_new b)) @ [count_trade k w (block_stats_new b)]"
      by (auto simp: ingest_def push_block_lastn lastn_snoc W)
    then show ?thesis
      unfolding step D'
      by (simp add: IH push_block_lastn lastn_snoc W other [OF nb] lastn_lastn map_lastn [symmetric]
          upd stats_at_unseen [OF new] del: One_nat_def)
  qed
qed

section \<open>What the voting rule reads\<close>

text \<open>The last \<open>n\<close> blocks of a history in which the token was traded at all.\<close>

definition last_trading_blocks :: "nat \<Rightarrow> trade list \<Rightarrow> u64 list" where
  "last_trading_blocks n ts = lastn n (remdups_adj (map fst ts))"

definition signed_wei :: "trade \<Rightarrow> int" where
  "signed_wei t = (if fst (snd t) then int (unat (snd (snd t))) else - int (unat (snd (snd t))))"

lemma sum_over_blocks:
  fixes g :: "trade \<Rightarrow> 'b::comm_monoid_add"
  assumes "distinct bs"
  shows "(\<Sum>b\<leftarrow>bs. \<Sum>t\<leftarrow>filter (\<lambda>t. fst t = b) ts. g t) = (\<Sum>t\<leftarrow>filter (\<lambda>t. fst t \<in> set bs) ts. g t)"
  using assms
proof (induction bs)
  case (Cons b bs)
  have "(\<Sum>t\<leftarrow>filter (\<lambda>t. fst t = b \<or> fst t \<in> set bs) us. g t)
      = (\<Sum>t\<leftarrow>filter (\<lambda>t. fst t = b) us. g t) + (\<Sum>t\<leftarrow>filter (\<lambda>t. fst t \<in> set bs) us. g t)" for us
    using Cons.prems by (induction us) (auto simp: ac_simps)
  then show ?case using Cons by simp
qed simp

lemma take_rev_window:
  assumes "n \<le> m"
  shows "take n (rev (map f (lastn m xs))) = rev (map f (lastn n xs))"
  using lastn_lastn [OF assms, of "map f xs"] by (simp add: take_rev lastn_def drop_map)

lemma sum_list_rev_map: "sum_list (rev (map f xs)) = (sum_list (map f xs) :: 'b::comm_monoid_add)"
  by (induction xs) (simp_all add: ac_simps)

lemma window_values:
  assumes "sorted (map fst ts)" and "n \<le> STATS_WINDOW"
  shows "sum_list (map f (take n (rev (ingest_all ts))))
    = (\<Sum>b\<leftarrow>last_trading_blocks n ts. f (stats_at ts b) :: 'b::comm_monoid_add)"
  using take_rev_window [OF assms(2), of "f \<circ> stats_at ts" "remdups_adj (map fst ts)"]
    ingest_aggregates [OF assms(1)]
  by (simp add: last_trading_blocks_def rev_map take_map o_def sum_list_rev_map [unfolded rev_map])

lemma count_of_trades:
  "of_nat (length (trades_of ts b k)) = (\<Sum>t\<leftarrow>filter (\<lambda>t. fst t = b) ts. of_bool (fst (snd t) = k))"
  by (induction ts) (auto simp: trades_of_def)

lemma wei_of_trades:
  assumes "(\<Sum>t\<leftarrow>ts. unat (snd (snd t))) < 2 ^ 128"
  shows "int (unat (total_wei (trades_of ts b True))) - int (unat (total_wei (trades_of ts b False)))
    = (\<Sum>t\<leftarrow>filter (\<lambda>t. fst t = b) ts. signed_wei t)"
proof -
  have le: "(\<Sum>w\<leftarrow>trades_of ts b k. unat w) \<le> (\<Sum>t\<leftarrow>ts. unat (snd (snd t)))" for k
    by (induction ts) (auto simp: trades_of_def)
  have "unat (total_wei (trades_of ts b k)) = (\<Sum>w\<leftarrow>trades_of ts b k. unat w)" for k
    using le [of k] assms by (simp add: unat_total_wei)
  moreover have "int (\<Sum>w\<leftarrow>trades_of ts b True. unat w) - int (\<Sum>w\<leftarrow>trades_of ts b False. unat w)
      = (\<Sum>t\<leftarrow>filter (\<lambda>t. fst t = b) ts. signed_wei t)"
    by (induction ts) (auto simp: trades_of_def signed_wei_def)
  ultimately show ?thesis by simp
qed

lemma signed_sum_bound:
  "\<bar>\<Sum>t\<leftarrow>filter P ts. signed_wei t\<bar> \<le> int (\<Sum>t\<leftarrow>ts. unat (snd (snd t)))"
proof (induction ts)
  case (Cons t ts)
  have "\<bar>signed_wei t\<bar> = int (unat (snd (snd t)))" by (simp add: signed_wei_def)
  with Cons show ?case by (cases "P t") (simp_all add: abs_le_iff, linarith+)
qed simp

lemma of_int_sum_list: "(\<Sum>x\<leftarrow>xs. of_int (f x)) = (of_int (\<Sum>x\<leftarrow>xs. f x) :: 'b::ring_1)"
  by (induction xs) simp_all

lemma sint_of_int_small: "- (2 ^ 127) \<le> n \<Longrightarrow> n < 2 ^ 127 \<Longrightarrow> sint (of_int n :: i128) = n"
  by (simp add: sint_sbintrunc' signed_take_bit_int_eq_self)

text \<open>
  C33: The flow window against the history of trades. For a chronological stream the ten-slot
  deque holds the exact statistics of the last ten blocks in which the token was traded, so
  for \<open>n \<le> 10\<close> the buy count is that of the last \<open>n\<close> such blocks and the net flow is the
  signed sum of their trades (without overflow below \<open>2 ^ 127\<close> wei): blocks without a trade
  do not age the window.
\<close>

theorem flow_window_exact:
  assumes "sorted (map fst ts)" and "n \<le> 10" and "(\<Sum>t\<leftarrow>ts. unat (snd (snd t))) < 2 ^ 127"
  shows "ingest_all ts = map (stats_at ts) (last_trading_blocks 10 ts)
    \<and> buy_count_last n (ingest_all ts)
        = (\<Sum>t\<leftarrow>filter (\<lambda>t. fst t \<in> set (last_trading_blocks n ts)) ts. of_bool (fst (snd t)))
    \<and> sint (net_flow_bnb_wei_last n (ingest_all ts))
        = (\<Sum>t\<leftarrow>filter (\<lambda>t. fst t \<in> set (last_trading_blocks n ts)) ts. signed_wei t)"
proof (intro conjI)
  have n: "n \<le> STATS_WINDOW" using assms(2) by (simp add: STATS_WINDOW_def)
  have d: "distinct (last_trading_blocks n ts)"
    using distinct_trading_blocks [OF assms(1)] by (simp add: last_trading_blocks_def lastn_def)
  show "ingest_all ts = map (stats_at ts) (last_trading_blocks 10 ts)"
    using ingest_aggregates [OF assms(1)] by (simp add: last_trading_blocks_def STATS_WINDOW_def)
  show "buy_count_last n (ingest_all ts)
        = (\<Sum>t\<leftarrow>filter (\<lambda>t. fst t \<in> set (last_trading_blocks n ts)) ts. of_bool (fst (snd t)))"
    by (simp add: buy_count_last_def window_values [OF assms(1) n] stats_at_def count_of_trades
        flip: sum_over_blocks [OF d])
  have w: "total_wei (trades_of ts b True) - total_wei (trades_of ts b False)
      = (of_int (\<Sum>t\<leftarrow>filter (\<lambda>t. fst t = b) ts. signed_wei t) :: i128)" for b
    using wei_of_trades [of ts b] assms(3)
    by (simp flip: wei_of_trades)
  have "net_flow_bnb_wei_last n (ingest_all ts)
      = of_int (\<Sum>b\<leftarrow>last_trading_blocks n ts. \<Sum>t\<leftarrow>filter (\<lambda>t. fst t = b) ts. signed_wei t)"
    by (simp add: net_flow_bnb_wei_last_def window_values [OF assms(1) n] stats_at_def w of_int_sum_list o_def)
  then show "sint (net_flow_bnb_wei_last n (ingest_all ts))
        = (\<Sum>t\<leftarrow>filter (\<lambda>t. fst t \<in> set (last_trading_blocks n ts)) ts. signed_wei t)"
    using signed_sum_bound [of "\<lambda>t. fst t \<in> set (last_trading_blocks n ts)" ts] assms(3)
    by (simp add: sum_over_blocks [OF d] sint_of_int_small)
qed

text \<open>A burst of sells stays in the three-slot reading however long ago it was.\<close>

theorem flow_window_exact_witness:
  "sint (net_flow_bnb_wei_last 3 (ingest_all [(1, True, 5), (1, False, 7), (900, True, 1)])) = - 1"
proof -
  have r: "remdups_adj [1 :: u64, 1, 900] = [1, 900]" by simp
  have "sorted (map fst [(1 :: u64, True, 5 :: u128), (1, False, 7), (900, True, 1)])" by simp
  from flow_window_exact [OF this, THEN conjunct2, THEN conjunct2, of 3] show ?thesis
    by (simp add: last_trading_blocks_def r lastn_def signed_wei_def)
qed

section \<open>The accuracy of a decoded trade\<close>

lemma near_range:
  assumes "near j (of_nat n) z" and "j \<le> 71" and "n < 2 ^ 300"
  shows "0 < n \<Longrightarrow> 1 / 2 \<le> z" and "z \<le> 2 ^ 301"
proof -
  have w: "near 71 (of_nat n) z" using near_weaken [OF assms(1,2)] by simp
  have "(of_nat n :: rat) \<le> of_nat (2 ^ 300)" using assms(3) unfolding of_nat_le_iff by simp
  then have "of_nat n * (1 + of_nat 71 / 2 ^ 52) \<le> (2 ^ 300 * 2 :: rat)"
    by (intro mult_mono) simp_all
  then show "z \<le> 2 ^ 301" using near_interval(2) [OF w] by simp
  assume "0 < n"
  then have "(1 :: rat) \<le> of_nat n" by simp
  then have "1 * (1 / 2) \<le> (of_nat n * (1 - of_nat 71 / 2 ^ 52) :: rat)"
    by (intro mult_mono) simp_all
  then show "1 / 2 \<le> z" using near_interval(1) [OF w] by simp
qed

lemma near_rnd_nat:
  assumes n: "near k (of_nat n) y" and k: "k \<le> 70" and b: "n < 2 ^ 300"
  obtains q where "rnd y = Fin q" and "near (Suc k) (of_nat n) q" and "0 < n \<Longrightarrow> 1 / 2 \<le> q" and "q \<le> 2 ^ 301"
proof -
  have p: "(2 :: rat) powi (- 1022) \<le> 2 powi (- 1)" by (rule two_powi_mono) simp
  have "y = 0 \<or> 2 powi (- 1022) \<le> y"
    using near_range(1) [OF n _ b] k n p by (cases "n = 0") (auto simp: power_int_minus)
  moreover have "y \<le> 2 ^ 1000"
    using near_range(2) [OF n _ b] k by (auto elim!: order_trans)
  ultimately obtain q where q: "rnd y = Fin q" "near (Suc k) (of_nat n) q"
    using near_rnd [OF n] by auto
  then show thesis using near_range [OF q(2) _ b] k that by auto
qed

lemma horner_near:
  "length bs \<le> 32 \<Longrightarrow> \<exists>q. u256_from_be_bytes_f64 bs = Fin q \<and> near (2 * length bs) (of_nat (be_val bs)) q"
proof (induction bs rule: rev_induct)
  case Nil
  then show ?case by (simp add: u256_from_be_bytes_f64_def be_val_def)
next
  case (snoc b bs)
  then obtain q where q: "u256_from_be_bytes_f64 bs = Fin q" "near (2 * length bs) (of_nat (be_val bs)) q"
    by auto
  have "be_val bs < 256 ^ length bs" by (rule be_val_less)
  also have "(256 :: nat) ^ length bs \<le> 256 ^ 31" using snoc.prems by (intro power_increasing) simp_all
  finally have n: "be_val bs < 256 ^ 31" .
  have b: "unat b < 256" using unsigned_less [of b] by simp
  have "near (2 * length bs) (of_nat (256 * be_val bs)) (q * 256)"
    using near_scale [OF q(2), of 256] by (simp add: mult.commute)
  then obtain r where r: "rnd (q * 256) = Fin r" "near (Suc (2 * length bs)) (of_nat (256 * be_val bs)) r"
    by (rule near_rnd_nat) (use snoc.prems n in simp_all)
  have "near (Suc (2 * length bs)) (of_nat (256 * be_val bs + unat b)) (r + of_nat (unat b))"
    using near_add [OF r(2) near_weaken [OF near_refl, of "Suc (2 * length bs)" "of_nat (unat b)"]]
    by (simp del: of_nat_unat)
  then obtain s where s: "rnd (r + of_nat (unat b)) = Fin s"
      "near (Suc (Suc (2 * length bs))) (of_nat (256 * be_val bs + unat b)) s"
    by (rule near_rnd_nat) (use snoc.prems n b in simp_all)
  have "f64_of_word b = Fin (of_nat (unat b))"
    using f64_of_int_small [of "uint b"] uint_lt2p [of b] by (simp add: f64_of_word_def)
  then have "u256_from_be_bytes_f64 (bs @ [b]) = Fin s"
    using q(1) r(1) s(1) by (simp add: u256_from_be_bytes_f64_def)
  moreover have "be_val (bs @ [b]) = 256 * be_val bs + unat b" by (simp add: be_val_def)
  ultimately show ?case using s(2) by simp
qed

lemma word_near:
  assumes "n < 2 ^ 256"
  obtains q where "u256_from_be_bytes_f64 (uint_word n) = Fin q" and "near 64 (of_nat n) q"
  using horner_near [of "uint_word n"] assms that by (auto simp: be_val_uint_word)

lemma quotient_interval:
  fixes B T g t d :: rat
  assumes g: "B * (1 - 65 * d) \<le> g" "g \<le> B * (1 + 65 * d)" and t: "T * (1 - 64 * d) \<le> t" "t \<le> T * (1 + 64 * d)"
    and pos: "0 \<le> B" "0 < T" "0 < t" and d: "0 < d" "d \<le> 1 / 10000"
  shows "B / T * (1 - 130 * d) \<le> g / t" and "g / t \<le> B / T * (1 + 130 * d)"
proof -
  have x: "0 \<le> B / T" using pos by simp
  have dd: "d * d \<le> d / 10000" using mult_left_mono [OF d(2), of d] d(1) by simp
  have "B / T * (1 - 130 * d) * t \<le> B / T * (1 - 130 * d) * (T * (1 + 64 * d))"
    using t(2) d by (intro mult_left_mono mult_nonneg_nonneg x) simp_all
  also have "\<dots> = B * ((1 - 130 * d) * (1 + 64 * d))" using pos by simp
  also have "\<dots> \<le> B * (1 - 65 * d)"
    using pos dd d by (intro mult_left_mono) (simp_all add: algebra_simps)
  finally show "B / T * (1 - 130 * d) \<le> g / t" using g(1) pos by (simp add: le_divide_eq)
  have "g \<le> B * ((1 + 130 * d) * (1 - 64 * d))"
    using g(2) mult_left_mono [of "1 + 65 * d" "(1 + 130 * d) * (1 - 64 * d)" B] pos dd d
    by (simp add: algebra_simps)
  also have "\<dots> = B / T * (1 + 130 * d) * (T * (1 - 64 * d))" using pos by simp
  also have "\<dots> \<le> B / T * (1 + 130 * d) * t"
    using t(1) d by (intro mult_left_mono mult_nonneg_nonneg x) simp_all
  finally show "g / t \<le> B / T * (1 + 130 * d)" using pos by (simp add: divide_le_eq)
qed

lemma trade_log_words:
  assumes "length w1 = 32" and "length w2 = 32"
    and "data = address_word token @ w1 @ w2 @ uint_word tokens @ uint_word bnb @ uint_word fee @ rest"
  shows "address_of_bytes (slice 12 32 (log_word data 0)) = token" and "\<not> length data < 32 * 6"
    and "log_word data 3 = uint_word tokens" and "log_word data 4 = uint_word bnb" and "log_word data 5 = uint_word fee"
  using assms by (simp_all add: log_word_def slice_skip slice_def [of 0] slice_address_word)

lemma interval_widen:
  fixes x q p d :: rat
  assumes "x * (1 - 130 * d) \<le> q" and "q \<le> x * (1 + 130 * d)" and "q * (1 - d) \<le> p" and "p \<le> q * (1 + d)"
    and "0 \<le> x" and "0 < d" and "d \<le> 1 / 10000"
  shows "\<bar>p - x\<bar> \<le> x * (256 * d)"
proof -
  have dd: "d * d \<le> d / 10000" using mult_left_mono [OF assms(7), of d] assms(6) by simp
  have "p \<le> x * (1 + 130 * d) * (1 + d)"
    using mult_right_mono [OF assms(2), of "1 + d"] assms(4,6) by linarith
  also have "\<dots> \<le> x * (1 + 256 * d)"
    unfolding mult.assoc using assms(5,6) dd by (intro mult_left_mono) (simp_all add: algebra_simps)
  finally have "p \<le> x * (1 + 256 * d)" .
  moreover have "x * (1 - 256 * d) \<le> x * (1 - 130 * d) * (1 - d)"
    unfolding mult.assoc using assms(5,6) dd by (intro mult_left_mono) (simp_all add: algebra_simps)
  moreover have "x * (1 - 130 * d) * (1 - d) \<le> p"
    using mult_right_mono [OF assms(1), of "1 - d"] assms(3,6,7) by linarith
  ultimately show ?thesis by (simp add: abs_le_iff algebra_simps)
qed

lemma near_65:
  assumes "near 65 x g" and "0 \<le> x"
  shows "\<bar>g - x\<bar> \<le> x / 2 ^ 44"
proof -
  have "x * (1 - of_nat 65 / 2 ^ 52) \<le> g" "g \<le> x * (1 + of_nat 65 / 2 ^ 52)"
    using near_interval [OF assms] by simp_all
  then show ?thesis unfolding abs_le_iff using assms(2) by (simp add: field_simps)
qed

lemma decoded_quotient:
  assumes g: "near 65 (of_nat n) g" and t: "near 64 (of_nat m) t" and pos: "0 < n" "0 < m"
    and b: "1 / 2 \<le> g" "g \<le> 2 ^ 301" "1 / 2 \<le> t" "t \<le> 2 ^ 301"
  obtains p where "rnd (g / t) = Fin p" and "\<bar>p - of_nat n / of_nat m\<bar> \<le> of_nat n / of_nat m / 2 ^ 44"
proof -
  define d :: rat where "d = 1 / 2 ^ 52"
  have d: "0 < d" "d \<le> 1 / 10000" "256 * d = 1 / 2 ^ 44" by (simp_all add: d_def)
  have sc: "of_nat k / 2 ^ 52 = of_nat k * d" for k by (simp add: d_def)
  let ?x = "(of_nat n / of_nat m :: rat)"
  have t0: "0 < t" using b by linarith
  have gt: "of_nat n * (1 - 65 * d) \<le> g" "g \<le> of_nat n * (1 + 65 * d)"
    "of_nat m * (1 - 64 * d) \<le> t" "t \<le> of_nat m * (1 + 64 * d)"
    using near_interval [OF g, unfolded sc, simplified] near_interval [OF t, unfolded sc, simplified] by simp_all
  have nm: "0 \<le> (of_nat n :: rat)" "0 < (of_nat m :: rat)" using pos by simp_all
  note q = quotient_interval [OF gt nm t0 d(1,2)]
  have "(2 :: rat) powi (- 1022) \<le> 2 powi (- 302)" by (rule two_powi_mono) simp
  also have "\<dots> = (1 / 2) / 2 ^ 301" by (simp add: power_int_minus field_simps)
  also have "\<dots> \<le> g / t" using b t0 by (intro frac_le) simp_all
  finally have lo: "2 powi (- 1022) \<le> g / t" .
  have "g / t \<le> 2 ^ 301 / (1 / 2)" using b t0 by (intro frac_le) simp_all
  then have hi: "g / t \<le> 2 ^ 1000" by simp
  have q0: "0 \<le> g / t" using b t0 by simp
  obtain p where p: "rnd (g / t) = Fin p" "near (Suc 0) (g / t) p"
    using near_rnd [OF near_refl q0] lo hi by blast
  have "\<bar>p - ?x\<bar> \<le> ?x * (256 * d)"
    using near_interval [OF p(2) q0, unfolded sc, simplified] d
    by (intro interval_widen [OF q]) simp_all
  then have "\<bar>p - ?x\<bar> \<le> ?x / 2 ^ 44" unfolding d(3) by simp
  with p(1) show thesis by (rule that)
qed

text \<open>
  C32: The decoded price of a launchpad event is the exact ratio of the BNB paid (fee
  included) to the tokens, up to a relative error of \<open>2 ^ -44\<close>: the decoder reads the right
  words, never overflows and never divides by zero, for all 256-bit amounts, and reports
  the token and block of the event. The amount in wei has the same accuracy.
\<close>

theorem decoded_price_accurate:
  assumes "length w1 = 32" and "length w2 = 32" and "0 < tokens" and "tokens < 2 ^ 256"
    and "0 < bnb + fee" and "bnb < 2 ^ 256" and "fee < 2 ^ 256"
  shows "\<exists>price wei gross. decode_trade_buy
      \<lparr>lg_data = address_word token @ w1 @ w2 @ uint_word tokens @ uint_word bnb @ uint_word fee @ rest,
       lg_block_number = Some blk\<rparr> = Some (token, blk, Fin price, wei)
    \<and> \<bar>price - of_nat (bnb + fee) / of_nat tokens\<bar> \<le> of_nat (bnb + fee) / of_nat tokens / 2 ^ 44
    \<and> wei = f64_to_word (Fin gross) \<and> \<bar>gross - of_nat (bnb + fee)\<bar> \<le> of_nat (bnb + fee) / 2 ^ 44"
proof -
  let ?data = "address_word token @ w1 @ w2 @ uint_word tokens @ uint_word bnb @ uint_word fee @ rest"
  note w = trade_log_words [OF assms(1,2), of ?data, OF refl]
  obtain b where b: "u256_from_be_bytes_f64 (uint_word bnb) = Fin b" "near 64 (of_nat bnb) b"
    using word_near [OF assms(6)] .
  obtain f where f: "u256_from_be_bytes_f64 (uint_word fee) = Fin f" "near 64 (of_nat fee) f"
    using word_near [OF assms(7)] .
  obtain t where t: "u256_from_be_bytes_f64 (uint_word tokens) = Fin t" "near 64 (of_nat tokens) t"
    using word_near [OF assms(4)] .
  have n64: "near 64 (of_nat (bnb + fee)) (b + f)" using near_add [OF b(2) f(2)] by simp
  obtain g where g: "rnd (b + f) = Fin g" "near (Suc 64) (of_nat (bnb + fee)) g" "1 / 2 \<le> g" "g \<le> 2 ^ 301"
    by (rule near_rnd_nat [OF n64]) (use assms(5-7) in auto)
  have tr: "1 / 2 \<le> t" "t \<le> 2 ^ 301"
    using near_range [OF t(2)] assms(3,4) by auto
  obtain p where p: "rnd (g / t) = Fin p"
      "\<bar>p - of_nat (bnb + fee) / of_nat tokens\<bar> \<le> of_nat (bnb + fee) / of_nat tokens / 2 ^ 44"
    by (rule decoded_quotient [OF _ t(2) assms(5,3) g(3,4) tr]) (use g(2) in simp_all)
  have "\<bar>g - of_nat (bnb + fee)\<bar> \<le> of_nat (bnb + fee) / 2 ^ 44"
    by (rule near_65) (use g(2) in simp_all)
  moreover have "decode_trade_buy \<lparr>lg_data = ?data, lg_block_number = Some blk\<rparr>
      = Some (token, blk, Fin p, f64_to_word (Fin g))"
    using g(1,3) p(1) tr by (simp only: decode_trade_buy_def trade_log.simps Let_def w b f t fadd.simps) auto
  ultimately show ?thesis using p(2) by blast
qed

theorem decoded_price_accurate_witness:
  "\<exists>price wei. decode_trade_buy
      \<lparr>lg_data = address_word 0x9f54b1dd9b1437c6096ce80855cd6848269f4444 @ uint_word 0 @ uint_word 0
         @ uint_word 438189565045262000000000 @ uint_word 15381606423893104 @ uint_word 153816064238931 @ [],
       lg_block_number = Some 102044910\<rparr>
     = Some (0x9f54b1dd9b1437c6096ce80855cd6848269f4444, 102044910, Fin price, wei)
    \<and> \<bar>price - 15535422488132035 / 438189565045262000000000\<bar>
        \<le> 15535422488132035 / 438189565045262000000000 / 2 ^ 44"
  using decoded_price_accurate [of "uint_word 0" "uint_word 0" 438189565045262000000000 15381606423893104
      153816064238931 "0x9f54b1dd9b1437c6096ce80855cd6848269f4444" "[]" 102044910]
  by auto

end
