(* ===== verification/RiskLimits.thy ===== *)
theory RiskLimits
  imports F64
begin

text \<open>
  \<open>crates/bsc-runner/src/trader/limits.rs\<close>: the kill criteria every live trade passes.
  The runtime is a record; each method takes it and returns the new one. The wall clock is
  an argument (milliseconds since the epoch), and reading and parsing the TOML file is the
  argument \<open>parsed\<close> of \<open>load_config\<close>.
\<close>

section \<open>Configuration\<close>

record phase_config =
  ph_shadow :: bool
  ph_tiny :: bool
  ph_full :: bool

definition broadcast_enabled :: "phase_config \<Rightarrow> bool" where
  "broadcast_enabled p \<longleftrightarrow> ph_tiny p \<or> ph_full p"

definition effective_per_trade_max_bnb :: "phase_config \<Rightarrow> f64 \<Rightarrow> f64" where
  "effective_per_trade_max_bnb p full_cap =
     (if ph_tiny p \<and> \<not> ph_full p then fmin full_cap (flit (1 / 1000)) else full_cap)"

record hard_limits =
  hl_daily_loss_usd :: f64
  hl_per_trade_max_bnb :: f64
  hl_min_wallet_bnb :: f64
  hl_max_open_positions :: u32
  hl_max_trades_per_day :: u32
  hl_max_gas_price_gwei :: u64
  hl_slippage_bps :: u32
  hl_cooldown_after_loss_ms :: u64

record strategy_limits =
  sl_mode :: string
  sl_public_only :: bool
  sl_size_fraction :: f64
  sl_kol_whitelist :: "string list"
  sl_min_buy_bnb :: f64
  sl_min_buy_usd :: f64
  sl_trade_size_usd :: f64
  sl_trade_size_private_usd :: f64
  sl_dev_bonus_size_usd :: f64
  sl_dev_whitelist_file :: string

record submission_config =
  su_primary_url :: string
  su_primary_auth_env :: string
  su_fallback_url :: string
  su_timeout_ms :: u64

record token_policy =
  tp_min_age_seconds :: u64
  tp_max_sell_tax_bps :: u32
  tp_blacklist_file :: string

record audit_config =
  au_log_dir :: string
  au_telegram_alerts :: bool

record limits_config =
  lc_phase :: phase_config
  lc_limits :: hard_limits
  lc_strategy :: strategy_limits
  lc_wallet_keyfile :: string
  lc_submission :: submission_config
  lc_tokens :: token_policy
  lc_audit :: audit_config

text \<open>The outcome of reading and parsing the file, then the one-phase sanity check.\<close>

datatype load_error = ReadFailed | ParseFailed | PhaseCount nat

definition active_phases :: "phase_config \<Rightarrow> nat" where
  "active_phases p = length (filter (\<lambda>b. b) [ph_shadow p, ph_tiny p, ph_full p])"

definition load_config :: "load_error + limits_config \<Rightarrow> load_error + limits_config" where
  "load_config parsed =
     (case parsed of
        Inl e \<Rightarrow> Inl e
      | Inr c \<Rightarrow> (if active_phases (lc_phase c) \<noteq> 1 then Inl (PhaseCount (active_phases (lc_phase c)))
                else Inr c))"

section \<open>Runtime state\<close>

record daily_state =
  ds_day :: u64
  ds_realized_loss_usd :: f64
  ds_trades_today :: u32
  ds_last_loss_unix_ms :: u64
  ds_halted :: bool

definition daily_state_for :: "u64 \<Rightarrow> daily_state" where
  "daily_state_for day = \<lparr>ds_day = day, ds_realized_loss_usd = Fin 0, ds_trades_today = 0,
     ds_last_loss_unix_ms = 0, ds_halted = False\<rparr>"

record limits_runtime =
  lr_cfg :: limits_config
  lr_whitelist :: "string set"
  lr_state :: daily_state

datatype limit_fail =
    NotWhitelisted string
  | PrivateVisibilityWhilePublicOnly
  | PerTradeCapExceeded f64 f64
  | MaxOpenPositions u32
  | MaxTradesPerDay u32
  | DailyLossHalt f64 f64
  | WalletBelowMin f64 f64
  | GasTooHigh u64 u64
  | InCooldown u64
  | PhaseSaysShadow

record trade_check =
  tk_kol_name :: string
  tk_visibility :: string
  tk_bnb_amount :: f64
  tk_current_open_positions :: u32
  tk_current_wallet_bnb :: f64
  tk_current_gas_gwei :: u64

section \<open>Operations\<close>

definition limits_new :: "limits_config \<Rightarrow> u64 \<Rightarrow> limits_runtime" where
  "limits_new cfg now_secs = \<lparr>lr_cfg = cfg, lr_whitelist = set (sl_kol_whitelist (lc_strategy cfg)),
     lr_state = daily_state_for (now_secs div 86400)\<rparr>"

definition day_of_ms :: "u64 \<Rightarrow> u64" where
  "day_of_ms now_ms = now_ms div (86400 * 1000)"

definition maybe_reset_day :: "limits_runtime \<Rightarrow> u64 \<Rightarrow> limits_runtime" where
  "maybe_reset_day r now_ms =
     (if ds_day (lr_state r) \<noteq> day_of_ms now_ms
      then r\<lparr>lr_state := daily_state_for (day_of_ms now_ms)\<rparr> else r)"

definition cooldown_remaining :: "u64 \<Rightarrow> u64 \<Rightarrow> u64 \<Rightarrow> u64 option" where
  "cooldown_remaining last_loss_ms cooldown_ms now_ms =
     (if last_loss_ms = 0 then None
      else (let elapsed = sat_sub now_ms last_loss_ms
            in if elapsed < cooldown_ms then Some (cooldown_ms - elapsed) else None))"

definition trade_cap :: "limits_runtime \<Rightarrow> f64" where
  "trade_cap r = effective_per_trade_max_bnb (lc_phase (lr_cfg r))
     (hl_per_trade_max_bnb (lc_limits (lr_cfg r)))"

definition run_gates :: "limits_runtime \<Rightarrow> trade_check \<Rightarrow> u64 \<Rightarrow> limit_fail + unit" where
  "run_gates r t now_ms =
     (let s = lr_state r; lim = lc_limits (lr_cfg r) in
      if ds_halted s then Inl (DailyLossHalt (ds_realized_loss_usd s) (hl_daily_loss_usd lim))
      else case cooldown_remaining (ds_last_loss_unix_ms s) (hl_cooldown_after_loss_ms lim) now_ms of
        Some remaining \<Rightarrow> Inl (InCooldown remaining)
      | None \<Rightarrow>
          if tk_kol_name t \<notin> lr_whitelist r then Inl (NotWhitelisted (tk_kol_name t))
          else if sl_public_only (lc_strategy (lr_cfg r)) \<and> tk_visibility t \<noteq> ''public''
            then Inl PrivateVisibilityWhilePublicOnly
          else if flt (trade_cap r) (tk_bnb_amount t)
            then Inl (PerTradeCapExceeded (tk_bnb_amount t) (trade_cap r))
          else if hl_max_open_positions lim \<le> tk_current_open_positions t
            then Inl (MaxOpenPositions (hl_max_open_positions lim))
          else if hl_max_trades_per_day lim \<le> ds_trades_today s
            then Inl (MaxTradesPerDay (hl_max_trades_per_day lim))
          else if flt (tk_current_wallet_bnb t) (hl_min_wallet_bnb lim)
            then Inl (WalletBelowMin (tk_current_wallet_bnb t) (hl_min_wallet_bnb lim))
          else if hl_max_gas_price_gwei lim < tk_current_gas_gwei t
            then Inl (GasTooHigh (tk_current_gas_gwei t) (hl_max_gas_price_gwei lim))
          else Inr ())"

definition limits_check ::
  "limits_runtime \<Rightarrow> trade_check \<Rightarrow> u64 \<Rightarrow> limits_runtime \<times> (limit_fail + unit)" where
  "limits_check r t now_ms =
     (let r' = maybe_reset_day r now_ms in (r', run_gates r' t now_ms))"

definition record_trade_fired :: "limits_runtime \<Rightarrow> limits_runtime" where
  "record_trade_fired r = r\<lparr>lr_state := (lr_state r)
     \<lparr>ds_trades_today := sat_add (ds_trades_today (lr_state r)) 1\<rparr>\<rparr>"

definition F64_EPSILON :: f64 where
  "F64_EPSILON = Fin (1 / 2 ^ 52)"

definition sync_realized_loss :: "limits_runtime \<Rightarrow> f64 \<Rightarrow> limits_runtime" where
  "sync_realized_loss r loss =
     (let loss_usd = fmax loss (Fin 0); s = lr_state r in
      if flt (fabs (fsub loss_usd (ds_realized_loss_usd s))) F64_EPSILON then r
      else (let s1 = s\<lparr>ds_realized_loss_usd := loss_usd\<rparr>
            in r\<lparr>lr_state := (if \<not> ds_halted s1 \<and> fle (hl_daily_loss_usd (lc_limits (lr_cfg r))) loss_usd
                              then s1\<lparr>ds_halted := True\<rparr> else s1)\<rparr>))"

definition is_halted :: "limits_runtime \<Rightarrow> bool" where
  "is_halted r = ds_halted (lr_state r)"

text \<open>The label of a failure in the ledger and the metrics (\<open>executor_live.rs\<close>).\<close>

fun limit_label :: "limit_fail \<Rightarrow> string" where
  "limit_label (NotWhitelisted _) = ''not_whitelisted''"
| "limit_label PrivateVisibilityWhilePublicOnly = ''private_visibility''"
| "limit_label (PerTradeCapExceeded _ _) = ''per_trade_cap''"
| "limit_label (MaxOpenPositions _) = ''max_open''"
| "limit_label (MaxTradesPerDay _) = ''max_trades_day''"
| "limit_label (DailyLossHalt _ _) = ''daily_loss_halt''"
| "limit_label (WalletBelowMin _ _) = ''wallet_low''"
| "limit_label (GasTooHigh _ _) = ''gas_too_high''"
| "limit_label (InCooldown _) = ''cooldown''"
| "limit_label PhaseSaysShadow = ''shadow''"

section \<open>Histories of the runtime\<close>

text \<open>
  The live consumer is one task: it checks a decision and, when every later stage goes
  through, records the trade before it looks at the next decision. The loss poller
  interleaves with it between decisions.
\<close>

datatype limits_event =
    Rejectable trade_check u64
  | Trade trade_check u64
  | LossSync f64

fun limits_step :: "limits_runtime \<Rightarrow> limits_event \<Rightarrow> limits_runtime" where
  "limits_step r (Rejectable t now) = fst (limits_check r t now)"
| "limits_step r (Trade t now) =
     (case limits_check r t now of (r', Inl _) \<Rightarrow> r' | (r', Inr _) \<Rightarrow> record_trade_fired r')"
| "limits_step r (LossSync loss) = sync_realized_loss r loss"

definition limits_inv :: "limits_config \<Rightarrow> limits_runtime \<Rightarrow> bool" where
  "limits_inv cfg r \<longleftrightarrow> lr_cfg r = cfg
     \<and> lr_whitelist r = set (sl_kol_whitelist (lc_strategy cfg))
     \<and> ds_last_loss_unix_ms (lr_state r) = 0
     \<and> ds_trades_today (lr_state r) \<le> hl_max_trades_per_day (lc_limits cfg)"

lemma limits_inv_new: "limits_inv cfg (limits_new cfg now)"
  by (simp add: limits_inv_def limits_new_def daily_state_for_def)

lemma maybe_reset_day_inv: "limits_inv cfg r \<Longrightarrow> limits_inv cfg (maybe_reset_day r now)"
  by (auto simp: limits_inv_def maybe_reset_day_def daily_state_for_def)

lemma sync_inv: "limits_inv cfg r \<Longrightarrow> limits_inv cfg (sync_realized_loss r loss)"
  by (simp add: limits_inv_def sync_realized_loss_def Let_def)

lemma run_gates_okD:
  assumes "run_gates r t now = Inr ()"
  shows "\<not> ds_halted (lr_state r) \<and> tk_kol_name t \<in> lr_whitelist r
    \<and> (sl_public_only (lc_strategy (lr_cfg r)) \<longrightarrow> tk_visibility t = ''public'')
    \<and> \<not> flt (trade_cap r) (tk_bnb_amount t)
    \<and> tk_current_open_positions t < hl_max_open_positions (lc_limits (lr_cfg r))
    \<and> ds_trades_today (lr_state r) < hl_max_trades_per_day (lc_limits (lr_cfg r))
    \<and> \<not> flt (tk_current_wallet_bnb t) (hl_min_wallet_bnb (lc_limits (lr_cfg r)))
    \<and> tk_current_gas_gwei t \<le> hl_max_gas_price_gwei (lc_limits (lr_cfg r))"
  using assms by (auto simp: run_gates_def Let_def split: option.splits if_splits)

lemma sat_add_one_le:
  fixes a b :: "'a::len word"
  assumes "a < b"
  shows "sat_add a 1 \<le> b"
proof -
  have "unat (sat_add a 1) \<le> unat a + 1"
    by (cases "LENGTH('a) = 1") (auto simp: unat_sat_add min_def)
  also have "\<dots> \<le> unat b" using assms by (simp add: word_less_nat_alt)
  finally show ?thesis by (simp add: word_le_nat_alt)
qed

lemma fire_inv:
  assumes "limits_inv cfg r" and "run_gates r t now = Inr ()"
  shows "limits_inv cfg (record_trade_fired r)"
  using assms run_gates_okD [OF assms(2)]
  by (simp add: limits_inv_def record_trade_fired_def sat_add_one_le)

lemma check_inv: "limits_inv cfg r \<Longrightarrow> limits_inv cfg (fst (limits_check r t now))"
  by (simp add: limits_check_def Let_def maybe_reset_day_inv)

lemma trade_inv:
  assumes "limits_inv cfg r"
  shows "limits_inv cfg (limits_step r (Trade t now))"
proof (cases "run_gates (maybe_reset_day r now) t now")
  case (Inl e)
  then show ?thesis using maybe_reset_day_inv [OF assms] by (simp add: limits_check_def Let_def)
next
  case (Inr u)
  then show ?thesis
    using fire_inv [OF maybe_reset_day_inv [OF assms]] by (simp add: limits_check_def Let_def)
qed

interpretation lim: stateful limits_step "limits_inv cfg" for cfg
proof unfold_locales
  fix r e assume inv: "limits_inv cfg r"
  show "limits_inv cfg (limits_step r e)"
  proof (cases e)
    case (Trade t now)
    then show ?thesis using trade_inv [OF inv] by simp
  qed (simp_all add: inv check_inv sync_inv)
qed

section \<open>A concrete configuration\<close>

definition example_limits :: limits_config where
  "example_limits = \<lparr>lc_phase = \<lparr>ph_shadow = False, ph_tiny = True, ph_full = False\<rparr>,
     lc_limits = \<lparr>hl_daily_loss_usd = Fin 25, hl_per_trade_max_bnb = Fin 1,
       hl_min_wallet_bnb = Fin 0, hl_max_open_positions = 10, hl_max_trades_per_day = 60,
       hl_max_gas_price_gwei = 10, hl_slippage_bps = 500, hl_cooldown_after_loss_ms = 5000\<rparr>,
     lc_strategy = \<lparr>sl_mode = [], sl_public_only = True, sl_size_fraction = Fin 1,
       sl_kol_whitelist = [''D''], sl_min_buy_bnb = Fin 0, sl_min_buy_usd = Fin 0,
       sl_trade_size_usd = Fin 10, sl_trade_size_private_usd = Fin 0,
       sl_dev_bonus_size_usd = Fin 0, sl_dev_whitelist_file = []\<rparr>,
     lc_wallet_keyfile = [],
     lc_submission = \<lparr>su_primary_url = [], su_primary_auth_env = [], su_fallback_url = [],
       su_timeout_ms = 0\<rparr>,
     lc_tokens = \<lparr>tp_min_age_seconds = 0, tp_max_sell_tax_bps = 1000, tp_blacklist_file = []\<rparr>,
     lc_audit = \<lparr>au_log_dir = [], au_telegram_alerts = False\<rparr>\<rparr>"

definition example_check :: trade_check where
  "example_check = \<lparr>tk_kol_name = ''D'', tk_visibility = ''public'', tk_bnb_amount = Fin 0,
     tk_current_open_positions = 0, tk_current_wallet_bnb = Fin 1, tk_current_gas_gwei = 10\<rparr>"

text \<open>A runtime halted on day 0, and one that still carries day 0 when day 1 begins.\<close>

definition halted_runtime :: limits_runtime where
  "halted_runtime = (limits_new example_limits 0)
     \<lparr>lr_state := (daily_state_for 0)\<lparr>ds_halted := True, ds_realized_loss_usd := Fin 30\<rparr>\<rparr>"

section \<open>The gates as one condition\<close>

lemma check_passes_iff:
  "snd (limits_check r t now) = Inr () \<longleftrightarrow>
     (let r' = maybe_reset_day r now; lim = lc_limits (lr_cfg r); s = lr_state r' in
      \<not> ds_halted s
      \<and> cooldown_remaining (ds_last_loss_unix_ms s) (hl_cooldown_after_loss_ms lim) now = None
      \<and> tk_kol_name t \<in> lr_whitelist r
      \<and> \<not> (sl_public_only (lc_strategy (lr_cfg r)) \<and> tk_visibility t \<noteq> ''public'')
      \<and> \<not> flt (trade_cap r) (tk_bnb_amount t)
      \<and> tk_current_open_positions t < hl_max_open_positions lim
      \<and> ds_trades_today s < hl_max_trades_per_day lim
      \<and> \<not> flt (tk_current_wallet_bnb t) (hl_min_wallet_bnb lim)
      \<and> tk_current_gas_gwei t \<le> hl_max_gas_price_gwei lim)"
  by (auto simp: limits_check_def run_gates_def Let_def maybe_reset_day_def trade_cap_def
      not_le not_less split: option.splits)

section \<open>Properties\<close>

text \<open>
  The gate as a whole: a check passes exactly when every one of the nine conditions
  holds of the (day-adjusted) state, for any runtime, trade and time.
\<close>

lemma limits_check_ok_iff:
  "snd (limits_check r t now) = Inr () \<longleftrightarrow>
     (let r' = maybe_reset_day r now; lim = lc_limits (lr_cfg r); s = lr_state r' in
      \<not> ds_halted s
      \<and> cooldown_remaining (ds_last_loss_unix_ms s) (hl_cooldown_after_loss_ms lim) now = None
      \<and> tk_kol_name t \<in> lr_whitelist r
      \<and> \<not> (sl_public_only (lc_strategy (lr_cfg r)) \<and> tk_visibility t \<noteq> ''public'')
      \<and> \<not> flt (trade_cap r) (tk_bnb_amount t)
      \<and> tk_current_open_positions t < hl_max_open_positions lim
      \<and> ds_trades_today s < hl_max_trades_per_day lim
      \<and> \<not> flt (tk_current_wallet_bnb t) (hl_min_wallet_bnb lim)
      \<and> tk_current_gas_gwei t \<le> hl_max_gas_price_gwei lim)"
  by (rule check_passes_iff)

text \<open>
  C10: In every history of the runtime the number of trades recorded for the day never
  exceeds \<open>max_trades_per_day\<close>, and the configuration and whitelist never change.
\<close>

theorem trades_never_exceed_cap:
  "ds_trades_today (lr_state (foldl limits_step (limits_new cfg now0) es))
     \<le> hl_max_trades_per_day (lc_limits cfg)
   \<and> lr_cfg (foldl limits_step (limits_new cfg now0) es) = cfg"
  using lim.run_inv [OF limits_inv_new [of cfg now0], of es] by (simp add: limits_inv_def)

text \<open>
  The loss cooldown is dead configuration: no operation ever sets the time of the last
  loss, so after any history no check answers \<open>InCooldown\<close>, whatever
  \<open>cooldown_after_loss_ms\<close> says.
\<close>

lemma cooldown_never_fires:
  "snd (limits_check (foldl limits_step (limits_new cfg now0) es) t now) \<noteq> Inl (InCooldown ms)"
proof -
  let ?r = "maybe_reset_day (foldl limits_step (limits_new cfg now0) es) now"
  have "limits_inv cfg ?r"
    by (intro maybe_reset_day_inv lim.run_inv limits_inv_new)
  then have "cooldown_remaining (ds_last_loss_unix_ms (lr_state ?r)) c now = None" for c
    by (simp add: limits_inv_def cooldown_remaining_def)
  then show ?thesis
    by (auto simp: limits_check_def run_gates_def Let_def split: if_splits)
qed

definition same_day :: "u64 \<Rightarrow> limits_event \<Rightarrow> bool" where
  "same_day d e \<longleftrightarrow> (case e of Rejectable _ now \<Rightarrow> day_of_ms now = d
     | Trade _ now \<Rightarrow> day_of_ms now = d | LossSync _ \<Rightarrow> True)"

lemma halted_step:
  assumes "ds_halted (lr_state r)" and "ds_day (lr_state r) = d" and "same_day d e"
  shows "ds_halted (lr_state (limits_step r e)) \<and> ds_day (lr_state (limits_step r e)) = d
       \<and> lr_cfg (limits_step r e) = lr_cfg r"
  using assms
  by (cases e) (auto simp: same_day_def limits_check_def maybe_reset_day_def run_gates_def
      sync_realized_loss_def Let_def)

text \<open>
  C9: The halt latches within its UTC day: once halted, every later check on the same
  day is refused with \<open>DailyLossHalt\<close>, whatever trades are tried and whatever losses are
  synced in between.
\<close>

theorem halt_latches_for_the_day:
  assumes "ds_halted (lr_state r)" and "ds_day (lr_state r) = day_of_ms now"
    and "\<forall>e \<in> set es. same_day (day_of_ms now) e"
  shows "\<exists>loss. snd (limits_check (foldl limits_step r es) t now)
    = Inl (DailyLossHalt loss (hl_daily_loss_usd (lc_limits (lr_cfg r))))"
proof -
  have "ds_halted (lr_state (foldl limits_step r es)) \<and> ds_day (lr_state (foldl limits_step r es)) = day_of_ms now
      \<and> lr_cfg (foldl limits_step r es) = lr_cfg r"
    using assms
  proof (induction es arbitrary: r)
    case (Cons e es)
    have "same_day (day_of_ms now) e" using Cons.prems(3) by simp
    from halted_step [OF Cons.prems(1,2) this] Cons.IH [of "limits_step r e"] Cons.prems(3)
    show ?case by simp
  qed simp
  then show ?thesis
    by (simp add: limits_check_def maybe_reset_day_def run_gates_def Let_def)
qed

theorem halt_latches_for_the_day_witness:
  "\<exists>loss. snd (limits_check (foldl limits_step halted_runtime
       [LossSync (Fin 0), Trade example_check 7]) example_check 9)
     = Inl (DailyLossHalt loss (Fin 25))"
  using halt_latches_for_the_day [of halted_runtime 9
      "[LossSync (Fin 0), Trade example_check 7]" example_check]
  by (simp add: halted_runtime_def daily_state_for_def limits_new_def day_of_ms_def same_day_def
      example_limits_def)

text \<open>
  A loss synced on a new UTC day before that day's first check is forgotten: the
  check answers exactly as if the loss had not been reported, even when it had crossed the
  daily cap and set the halt.
\<close>

lemma loss_before_first_check_is_lost:
  assumes "ds_day (lr_state r) \<noteq> day_of_ms now"
  shows "limits_check (sync_realized_loss r loss) t now = limits_check r t now"
  using assms
  by (simp add: limits_check_def maybe_reset_day_def sync_realized_loss_def Let_def)

text \<open>
  In tiny phase no trade above 0.001 BNB passes the gate, whatever cap is configured.
\<close>

lemma tiny_phase_cap:
  assumes "ph_tiny (lc_phase (lr_cfg r))" and "\<not> ph_full (lc_phase (lr_cfg r))"
    and "snd (limits_check r t now) = Inr ()"
  shows "\<not> flt (flit (1 / 1000)) (tk_bnb_amount t)"
proof -
  have nn: "flit (1 / 1000) \<noteq> NaN" by (simp add: flit_def)
  have "fle (trade_cap r) (flit (1 / 1000))"
    using assms(1,2) nn by (simp add: trade_cap_def effective_per_trade_max_bnb_def fmin_le2)
  moreover have "\<not> flt (trade_cap r) (tk_bnb_amount t)"
    using assms(3) by (simp add: check_passes_iff Let_def)
  ultimately show ?thesis by (blast intro: fle_flt_trans)
qed

end
