(* ===== verification/Text.thy ===== *)
theory Text
  imports Prelude
begin

text \<open>
  The string functions the sources take from the Rust standard library: decimal printing,
  \<open>trim\<close>, \<open>parse\<close> and \<open>from_str_radix\<close> for unsigned integers, \<open>strip_prefix\<close> and
  \<open>trim_start_matches\<close>. Strings are byte strings; white space is the ASCII white space.
\<close>

section \<open>Digits\<close>

definition digit_char :: "nat \<Rightarrow> char" where
  "digit_char d = char_of (if d < 10 then 48 + d else 87 + d)"

text \<open>The value of a digit character in a radix up to 16, as \<open>char::to_digit\<close> gives it.\<close>

definition digit_val :: "char \<Rightarrow> nat option" where
  "digit_val c = (let n = (of_char c :: nat) in
     if 48 \<le> n \<and> n \<le> 57 then Some (n - 48)
     else if 97 \<le> n \<and> n \<le> 102 then Some (n - 87)
     else if 65 \<le> n \<and> n \<le> 70 then Some (n - 55) else None)"

fun parse_digits :: "nat \<Rightarrow> nat \<Rightarrow> string \<Rightarrow> nat option" where
  "parse_digits r acc [] = Some acc"
| "parse_digits r acc (c # cs) =
     (case digit_val c of None \<Rightarrow> None
      | Some d \<Rightarrow> if d < r then parse_digits r (acc * r + d) cs else None)"

text \<open>An unsigned integer of the given bound: a leading plus sign is allowed, nothing else.\<close>

definition from_str_radix :: "nat \<Rightarrow> nat \<Rightarrow> string \<Rightarrow> nat option" where
  "from_str_radix r bound s =
     (let ds = (case s of c # cs \<Rightarrow> if c = CHR ''+'' then cs else s | [] \<Rightarrow> [])
      in if ds = [] then None
         else case parse_digits r 0 ds of None \<Rightarrow> None
              | Some n \<Rightarrow> if n < bound then Some n else None)"

definition parse_u64 :: "nat \<Rightarrow> string \<Rightarrow> u64 option" where
  "parse_u64 r s = map_option of_nat (from_str_radix r (2 ^ 64) s)"

definition is_space :: "char \<Rightarrow> bool" where
  "is_space c \<longleftrightarrow> (let n = (of_char c :: nat) in n = 32 \<or> (9 \<le> n \<and> n \<le> 13))"

definition trim :: "string \<Rightarrow> string" where
  "trim s = rev (dropWhile is_space (rev (dropWhile is_space s)))"

text \<open>Printing in a radix up to 16 (lower-case digits); \<open>{}\<close> and \<open>{:#x}\<close> use 10 and 16.\<close>

function show_radix_acc :: "nat \<Rightarrow> nat \<Rightarrow> string \<Rightarrow> string" where
  "show_radix_acc r n acc =
     (if n < r \<or> r < 2 then digit_char n # acc
      else show_radix_acc r (n div r) (digit_char (n mod r) # acc))"
  by pat_completeness auto
termination
  by (relation "measure (\<lambda>(r, n, acc). n)") auto

declare show_radix_acc.simps [simp del]

definition show_nat :: "nat \<Rightarrow> string" where
  "show_nat n = show_radix_acc 10 n []"

definition show_hex :: "nat \<Rightarrow> string" where
  "show_hex n = ''0x'' @ show_radix_acc 16 n []"

definition strip_prefix :: "string \<Rightarrow> string \<Rightarrow> string option" where
  "strip_prefix p s = (if take (length p) s = p then Some (drop (length p) s) else None)"

text \<open>\<open>trim_start_matches\<close> removes every leading occurrence of the pattern.\<close>

function trim_start_matches :: "string \<Rightarrow> string \<Rightarrow> string" where
  "trim_start_matches p s =
     (if p \<noteq> [] \<and> take (length p) s = p then trim_start_matches p (drop (length p) s) else s)"
  by pat_completeness auto
termination
proof (relation "measure (\<lambda>(p, s). length s)", goal_cases)
  case (2 p s)
  then have "0 < length p" "length p \<le> length s"
    by (auto simp: take_all_iff) (metis length_take min.cobounded1)
  then have "length s - length p < length s" by linarith
  then show ?case by simp
qed simp

declare trim_start_matches.simps [simp del]

section \<open>Printing and parsing\<close>

lemma of_char_digit: "d < 16 \<Longrightarrow> of_char (digit_char d) = (if d < 10 then 48 + d else 87 + d)"
  by (simp add: digit_char_def)

lemma digit_val_digit [simp]: "d < 16 \<Longrightarrow> digit_val (digit_char d) = Some d"
  by (simp add: digit_val_def of_char_digit Let_def)

lemma digit_not_space [simp]: "d < 16 \<Longrightarrow> \<not> is_space (digit_char d)"
  by (simp add: is_space_def of_char_digit Let_def)

lemma digit_not [simp]:
  "d < 16 \<Longrightarrow> digit_char d \<noteq> CHR ''+''" "d < 16 \<Longrightarrow> digit_char d \<noteq> CHR ''x''"
proof -
  assume d: "d < 16"
  show "digit_char d \<noteq> CHR ''+''" "digit_char d \<noteq> CHR ''x''"
  proof -
    have "(of_char (digit_char d) :: nat) \<noteq> of_char CHR ''+''"
      "(of_char (digit_char d) :: nat) \<noteq> of_char CHR ''x''"
      using d by (simp_all add: of_char_digit)
    then show "digit_char d \<noteq> CHR ''+''" "digit_char d \<noteq> CHR ''x''" by metis+
  qed
qed

lemma parse_digits_snoc:
  "parse_digits r a (xs @ [c]) = (case parse_digits r a xs of None \<Rightarrow> None
     | Some m \<Rightarrow> parse_digits r m [c])"
  by (induction xs arbitrary: a) (auto split: option.splits)

lemma show_radix_acc_digits:
  assumes "2 \<le> r" "r \<le> 16"
  shows "\<exists>d ds. show_radix_acc r n acc = d # ds @ acc
     \<and> (\<forall>c \<in> set (d # ds). \<exists>k < r. c = digit_char k)
     \<and> (\<forall>a. parse_digits r a (d # ds) = Some (a * r ^ (length ds + 1) + n))"
  using assms
proof (induction r n acc rule: show_radix_acc.induct)
  case (1 r n acc)
  show ?case
  proof (cases "n < r")
    case True
    then show ?thesis using 1(3)
      by (intro exI [of _ "digit_char n"] exI [of _ "[]"]) (auto simp: show_radix_acc.simps [of r n acc])
  next
    case False
    then have "\<not> (n < r \<or> r < 2)" using 1(2) by simp
    from "1.IH" [OF this 1(2,3)] obtain d ds
      where IH: "show_radix_acc r (n div r) (digit_char (n mod r) # acc) = d # ds @ digit_char (n mod r) # acc"
        "\<forall>c \<in> set (d # ds). \<exists>k < r. c = digit_char k"
        "\<And>a. parse_digits r a (d # ds) = Some (a * r ^ (length ds + 1) + n div r)"
      by blast
    have m: "n mod r < r" "n mod r < 16" using 1(2,3) by (auto intro: less_le_trans [OF mod_less_divisor])
    have "parse_digits r a ((d # ds) @ [digit_char (n mod r)])
        = Some ((a * r ^ (length ds + 1) + n div r) * r + n mod r)" for a
      unfolding parse_digits_snoc IH(3) using m by simp
    moreover have "(a * r ^ (length ds + 1) + n div r) * r + n mod r = a * r ^ (length ds + 2) + n" for a
      by (simp add: algebra_simps)
    moreover have "\<exists>k < r. digit_char (n mod r) = digit_char k" using m by blast
    ultimately show ?thesis
      using False IH(1,2) m 1(2)
      by (intro exI [of _ d] exI [of _ "ds @ [digit_char (n mod r)]"])
         (auto simp: show_radix_acc.simps [of r n acc])
  qed
qed

lemma show_radix_digits:
  assumes "2 \<le> r" "r \<le> 16"
  obtains d ds where "show_radix_acc r n [] = d # ds" "\<forall>c \<in> set (d # ds). \<exists>k < r. c = digit_char k"
    "parse_digits r 0 (d # ds) = Some n"
proof -
  obtain d ds where "show_radix_acc r n [] = d # ds @ []" "\<forall>c \<in> set (d # ds). \<exists>k < r. c = digit_char k"
    "\<forall>a. parse_digits r a (d # ds) = Some (a * r ^ (length ds + 1) + n)"
    using show_radix_acc_digits [OF assms, of n "[]"] by blast
  then show thesis
    by (intro that [of d ds]) (simp_all del: parse_digits.simps)
qed

lemma trim_no_space:
  assumes "\<forall>c \<in> set s. \<not> is_space c"
  shows "trim s = s"
proof -
  have "dropWhile is_space s = s" using assms by (cases s) auto
  moreover have "dropWhile is_space (rev s) = rev s" 
    using assms by (cases "s = []") (simp_all add: dropWhile_eq_self_iff hd_rev)
  ultimately show ?thesis by (simp add: trim_def)
qed

lemma show_nat_chars:
  "\<forall>c \<in> set (show_nat n). \<exists>k < 10. c = digit_char k"
proof -
  obtain d ds where "show_radix_acc 10 n [] = d # ds" "\<forall>c \<in> set (d # ds). \<exists>k < 10. c = digit_char k"
    by (rule show_radix_digits [of 10 n]) simp_all
  then show ?thesis by (simp add: show_nat_def)
qed

lemma from_str_show_nat: "from_str_radix 10 bound (show_nat n) = (if n < bound then Some n else None)"
proof -
  obtain d ds where s: "show_radix_acc 10 n [] = d # ds" "\<forall>c \<in> set (d # ds). \<exists>k < 10. c = digit_char k"
    "parse_digits 10 0 (d # ds) = Some n" by (rule show_radix_digits [of 10 n]) simp_all
  have "d \<noteq> CHR ''+''" using s(2) by auto
  with s(1,3) show ?thesis by (simp add: from_str_radix_def show_nat_def)
qed

lemma parse_show_nat:
  assumes "n < bound"
  shows "from_str_radix 10 bound (trim (show_nat n)) = Some n"
proof -
  have "trim (show_nat n) = show_nat n"
    using show_nat_chars [of n] by (intro trim_no_space) auto
  with assms show ?thesis by (simp add: from_str_show_nat)
qed

text \<open>A hexadecimal quantity printed with its prefix, stripped of it and parsed again.\<close>

lemma parse_show_hex:
  assumes "n < bound"
  shows "from_str_radix 16 bound (trim_start_matches ''0x'' (show_hex n)) = Some n"
proof -
  obtain d ds where s: "show_radix_acc 16 n [] = d # ds" "\<forall>c \<in> set (d # ds). \<exists>k < 16. c = digit_char k"
    "parse_digits 16 0 (d # ds) = Some n" by (rule show_radix_digits [of 16 n]) simp_all
  have nx: "\<forall>c \<in> set (d # ds). c \<noteq> CHR ''x'' \<and> c \<noteq> CHR ''+''"
    using s(2) digit_not by metis
  then have "take 2 (d # ds) \<noteq> ''0x''" by (cases ds) auto
  then have "trim_start_matches ''0x'' (d # ds) = d # ds"
    by (subst trim_start_matches.simps) auto
  then have "trim_start_matches ''0x'' (show_hex n) = d # ds"
    using trim_start_matches.simps [of "''0x''" "''0x'' @ d # ds"] by (simp add: show_hex_def s(1))
  with s(3) nx assms show ?thesis by (simp add: from_str_radix_def)
qed

end
