(* ===== verification/Nonce.thy ===== *)
theory Nonce
  imports Text
begin

text \<open>
  \<open>crates/bsc-runner/src/trader/nonce.rs\<close>: the wallet nonce counter, its disk copy and its
  resynchronisation with the chain. The node's answer to \<open>eth_getTransactionCount\<close> is an
  argument (the JSON \<open>result\<close> string, \<open>None\<close> when the call or the field fails). The disk
  write of \<open>reserve\<close> is a spawned task: it is a pending write that lands later, in any
  order, or never if the process dies.
\<close>

section \<open>The manager\<close>

datatype nonce_error = RpcFailed | BadHex string

record nonce_manager =
  nm_current :: u64
  nm_persist :: bool

definition fetch_pending_nonce :: "string option \<Rightarrow> nonce_error + u64" where
  "fetch_pending_nonce reply =
     (case reply of None \<Rightarrow> Inl RpcFailed
      | Some hex \<Rightarrow>
          (let s = (case strip_prefix ''0x'' hex of Some t \<Rightarrow> t | None \<Rightarrow> hex)
           in case parse_u64 16 s of None \<Rightarrow> Inl (BadHex hex) | Some n \<Rightarrow> Inr n))"

text \<open>The value the disk file stands for: unreadable or unparsable text counts as 0.\<close>

definition disk_nonce :: "bool \<Rightarrow> string option \<Rightarrow> u64" where
  "disk_nonce persist file =
     (case (if persist then file else None) of None \<Rightarrow> 0
      | Some s \<Rightarrow> (case parse_u64 10 (trim s) of None \<Rightarrow> 0 | Some n \<Rightarrow> n))"

definition nonce_new :: "string option \<Rightarrow> bool \<Rightarrow> string option \<Rightarrow> nonce_error + nonce_manager" where
  "nonce_new reply persist file =
     (case fetch_pending_nonce reply of Inl e \<Rightarrow> Inl e
      | Inr chain_n \<Rightarrow> Inr \<lparr>nm_current = max chain_n (disk_nonce persist file), nm_persist = persist\<rparr>)"

text \<open>\<open>reserve\<close> returns the nonce and, when persistence is on, the text to be written.\<close>

definition reserve :: "nonce_manager \<Rightarrow> u64 \<times> string option \<times> nonce_manager" where
  "reserve m =
     (let n = nm_current m
      in (n, if nm_persist m then Some (show_nat (unat (n + 1))) else None,
          m\<lparr>nm_current := n + 1\<rparr>))"

definition resync :: "nonce_manager \<Rightarrow> string option \<Rightarrow> (nonce_error + u64) \<times> nonce_manager" where
  "resync m reply =
     (case fetch_pending_nonce reply of Inl e \<Rightarrow> (Inl e, m)
      | Inr chain_n \<Rightarrow>
          (let new = max chain_n (nm_current m) in (Inr new, m\<lparr>nm_current := new\<rparr>)))"

definition current :: "nonce_manager \<Rightarrow> u64" where
  "current m = nm_current m"

section \<open>The interface its clients use\<close>

text \<open>
  A nonce source hands out numbers and never reuses one while it is not exhausted. The
  client lemma: a sequence of reservations gives consecutive, pairwise distinct nonces.
\<close>

locale nonce_source =
  fixes take_nonce :: "'m \<Rightarrow> nat \<times> 'm"
    and level :: "'m \<Rightarrow> nat"
    and limit :: nat
  assumes take_level: "level m < limit \<Longrightarrow>
      fst (take_nonce m) = level m \<and> level (snd (take_nonce m)) = level m + 1"
begin

fun take_many :: "nat \<Rightarrow> 'm \<Rightarrow> nat list \<times> 'm" where
  "take_many 0 m = ([], m)"
| "take_many (Suc k) m =
     (let (n, m1) = take_nonce m; (ns, m2) = take_many k m1 in (n # ns, m2))"

lemma take_many_consecutive:
  "level m + k \<le> limit \<Longrightarrow>
   fst (take_many k m) = [level m ..< level m + k] \<and> level (snd (take_many k m)) = level m + k"
proof (induction k arbitrary: m)
  case (Suc k)
  have "fst (take_nonce m) = level m \<and> level (snd (take_nonce m)) = level m + 1"
    using Suc.prems by (intro take_level) simp
  with Suc.IH [of "snd (take_nonce m)"] Suc.prems show ?case
    by (simp add: case_prod_beta Let_def upt_conv_Cons)
qed simp

lemma take_many_distinct: "level m + k \<le> limit \<Longrightarrow> distinct (fst (take_many k m))"
  by (simp add: take_many_consecutive)

end

definition reserve_nat :: "nonce_manager \<Rightarrow> nat \<times> nonce_manager" where
  "reserve_nat m = (case reserve m of (n, _, m') \<Rightarrow> (unat n, m'))"

lemma unat_u64_Suc: "unat (w :: u64) + 1 < 2 ^ 64 \<Longrightarrow> unat (w + 1) = unat w + 1"
  by (simp add: unat_word_ariths)

interpretation manager: nonce_source reserve_nat "\<lambda>m. unat (nm_current m)" "2 ^ 64 - 1"
  by unfold_locales (simp add: reserve_nat_def reserve_def Let_def unat_u64_Suc)

section \<open>Process, disk and interleavings\<close>

text \<open>
  The world around a manager: the disk file, the writes still in flight (in the order they
  were spawned), every nonce handed out so far (latest last) and, for the two atomic
  accesses of \<open>resync\<close> on another thread, the value it is about to store.
\<close>

record nonce_world =
  nw_manager :: nonce_manager
  nw_disk :: "string option"
  nw_pending :: "string list"
  nw_issued :: "u64 list"
  nw_store :: "u64 option"

datatype nonce_event =
    Reserve
  | Resync "string option"
  | ResyncLoad "string option"
  | ResyncStore
  | WriteLands nat
  | Restart "string option"

fun nonce_step :: "nonce_world \<Rightarrow> nonce_event \<Rightarrow> nonce_world" where
  "nonce_step w Reserve =
     (case reserve (nw_manager w) of (n, wr, m') \<Rightarrow>
        w\<lparr>nw_manager := m', nw_issued := nw_issued w @ [n],
          nw_pending := nw_pending w @ (case wr of None \<Rightarrow> [] | Some t \<Rightarrow> [t])\<rparr>)"
| "nonce_step w (Resync reply) = w\<lparr>nw_manager := snd (resync (nw_manager w) reply)\<rparr>"
| "nonce_step w (ResyncLoad reply) =
     (case fetch_pending_nonce reply of Inl _ \<Rightarrow> w
      | Inr c \<Rightarrow> w\<lparr>nw_store := Some (max c (nm_current (nw_manager w)))\<rparr>)"
| "nonce_step w ResyncStore =
     (case nw_store w of None \<Rightarrow> w
      | Some v \<Rightarrow> w\<lparr>nw_manager := (nw_manager w)\<lparr>nm_current := v\<rparr>, nw_store := None\<rparr>)"
| "nonce_step w (WriteLands i) =
     (if i < length (nw_pending w)
      then w\<lparr>nw_disk := Some (nw_pending w ! i),
             nw_pending := take i (nw_pending w) @ drop (Suc i) (nw_pending w)\<rparr>
      else w)"
| "nonce_step w (Restart reply) =
     (case nonce_new reply (nm_persist (nw_manager w)) (nw_disk w) of
        Inl _ \<Rightarrow> w
      | Inr m \<Rightarrow> w\<lparr>nw_manager := m, nw_pending := [], nw_store := None\<rparr>)"

definition nonce_run :: "nonce_world \<Rightarrow> nonce_event list \<Rightarrow> nonce_world" where
  "nonce_run w es = foldl nonce_step w es"

definition boot_world :: "u64 \<Rightarrow> nonce_world" where
  "boot_world n = \<lparr>nw_manager = \<lparr>nm_current = n, nm_persist = True\<rparr>, nw_disk = None,
     nw_pending = [], nw_issued = [], nw_store = None\<rparr>"

section \<open>Invariants of a process\<close>

text \<open>Chain answers that stay in the lower half of the 64-bit range.\<close>

definition tame_reply :: "string option \<Rightarrow> bool" where
  "tame_reply reply \<longleftrightarrow> (case fetch_pending_nonce reply of Inl _ \<Rightarrow> True | Inr c \<Rightarrow> unat c < 2 ^ 63)"

fun live_event :: "nonce_event \<Rightarrow> bool" where
  "live_event Reserve = True"
| "live_event (Resync r) = tame_reply r"
| "live_event (WriteLands i) = True"
| "live_event _ = False"

fun restart_event :: "nonce_event \<Rightarrow> bool" where
  "restart_event Reserve = True"
| "restart_event (Resync r) = tame_reply r"
| "restart_event (Restart r) = tame_reply r"
| "restart_event _ = False"

definition issued_below :: "nat \<Rightarrow> nonce_world \<Rightarrow> bool" where
  "issued_below k w \<longleftrightarrow> sorted_wrt (<) (nw_issued w)
     \<and> (\<forall>x \<in> set (nw_issued w). x < nm_current (nw_manager w))
     \<and> unat (nm_current (nw_manager w)) < 2 ^ 63 + k"

lemma issued_below_mono: "issued_below k w \<Longrightarrow> j \<ge> k \<Longrightarrow> issued_below j w"
  by (auto simp: issued_below_def)

lemma u64_less_Suc:
  assumes "unat (w :: u64) < 2 ^ 63 + k" and "k < 2 ^ 63"
  shows "w < w + 1" and "unat (w + 1) < 2 ^ 63 + Suc k"
proof -
  have "unat (w + 1) = unat w + 1" using assms by (intro unat_u64_Suc) simp
  then show "w < w + 1" "unat (w + 1) < 2 ^ 63 + Suc k"
    using assms by (simp_all add: word_less_nat_alt)
qed

lemma reserve_issued_below:
  assumes "issued_below k w" and "k < 2 ^ 63"
  shows "issued_below (Suc k) (nonce_step w Reserve)"
proof -
  let ?c = "nm_current (nw_manager w)"
  have c: "unat ?c < 2 ^ 63 + k" using assms(1) by (simp add: issued_below_def)
  note s = u64_less_Suc [OF c assms(2)]
  have "x < ?c + 1" if "x \<in> set (nw_issued w)" for x
    using that assms(1) s(1) by (force simp: issued_below_def)
  then show ?thesis
    using assms(1) s by (auto simp: issued_below_def reserve_def Let_def sorted_wrt_append)
qed

lemma resync_issued_below:
  assumes "issued_below k w" and "tame_reply r"
  shows "issued_below k (nonce_step w (Resync r))"
proof (cases "fetch_pending_nonce r")
  case (Inr c)
  then have "unat c < 2 ^ 63" using assms(2) by (simp add: tame_reply_def)
  then show ?thesis
    using assms(1) Inr by (auto simp: issued_below_def resync_def Let_def max_def not_le)
qed (use assms in \<open>simp add: issued_below_def resync_def\<close>)

lemma live_step_issued_below:
  assumes "issued_below k w" and "live_event e" and "k < 2 ^ 63"
  shows "issued_below (Suc k) (nonce_step w e)"
proof (cases e)
  case Reserve
  then show ?thesis using reserve_issued_below [OF assms(1,3)] by simp
next
  case (Resync r)
  then show ?thesis
    using issued_below_mono [OF resync_issued_below [OF assms(1)], of r "Suc k"] assms(2) by simp
next
  case (WriteLands i)
  then show ?thesis using assms(1) by (auto simp: issued_below_def)
qed (use assms(2) in simp_all)

lemma live_run_issued_below:
  "issued_below k w \<Longrightarrow> \<forall>e \<in> set es. live_event e \<Longrightarrow> k + length es \<le> 2 ^ 63 \<Longrightarrow>
   issued_below (k + length es) (nonce_run w es)"
proof (induction es arbitrary: k w)
  case (Cons e es)
  have "issued_below (Suc k) (nonce_step w e)"
    using Cons.prems by (intro live_step_issued_below) auto
  from Cons.IH [OF this] Cons.prems show ?case by (simp add: nonce_run_def)
qed (simp add: nonce_run_def)

text \<open>With every write landed, the file covers all nonces handed out.\<close>

definition durable_inv :: "nat \<Rightarrow> nonce_world \<Rightarrow> bool" where
  "durable_inv k w \<longleftrightarrow> issued_below k w \<and> nm_persist (nw_manager w) \<and> nw_pending w = []
     \<and> (\<forall>x \<in> set (nw_issued w). x < disk_nonce True (nw_disk w))
     \<and> unat (disk_nonce True (nw_disk w)) < 2 ^ 63 + k"

fun durable :: "nonce_event \<Rightarrow> nonce_event list" where
  "durable Reserve = [Reserve, WriteLands 0]"
| "durable e = [e]"

lemma disk_nonce_show [simp]: "disk_nonce True (Some (show_nat (unat (w :: u64)))) = w"
proof -
  have "unat w < 2 ^ 64" using unsigned_less [of w] by simp
  then show ?thesis by (simp add: disk_nonce_def parse_u64_def parse_show_nat)
qed

lemma durable_step:
  assumes "durable_inv k w" and "restart_event e" and "k < 2 ^ 63"
  shows "durable_inv (Suc k) (nonce_run w (durable e))"
proof (cases e)
  case Reserve
  have ib: "issued_below (Suc k) (nonce_step w Reserve)"
    using assms by (intro reserve_issued_below) (simp_all add: durable_inv_def)
  have c: "unat (nm_current (nw_manager w)) < 2 ^ 63 + k"
    using assms(1) by (simp add: durable_inv_def issued_below_def)
  show ?thesis
    using ib assms(1) u64_less_Suc [OF c assms(3)] Reserve
    by (auto simp: durable_inv_def nonce_run_def reserve_def Let_def issued_below_def)
next
  case (Resync r)
  then have "issued_below k (nonce_step w (Resync r))"
    using assms by (intro resync_issued_below) (simp_all add: durable_inv_def)
  then show ?thesis
    using assms(1) Resync
    by (auto simp: durable_inv_def nonce_run_def resync_def Let_def issued_below_def split: sum.splits)
next
  case (Restart r)
  then show ?thesis
    using assms
    by (auto simp: durable_inv_def nonce_run_def nonce_new_def issued_below_def tame_reply_def
        max_def split: sum.splits)
qed (use assms(2) in simp_all)

lemma durable_run:
  "durable_inv k w \<Longrightarrow> \<forall>e \<in> set es. restart_event e \<Longrightarrow> k + length es \<le> 2 ^ 63 \<Longrightarrow>
   durable_inv (k + length es) (nonce_run w (concat (map durable es)))"
proof (induction es arbitrary: k w)
  case (Cons e es)
  have "durable_inv (Suc k) (nonce_run w (durable e))"
    using Cons.prems by (intro durable_step) auto
  from Cons.IH [OF this] Cons.prems show ?case by (simp add: nonce_run_def)
qed (simp add: nonce_run_def)

section \<open>Properties\<close>

text \<open>
  The disk round trip: the text \<open>reserve\<close> writes is read back by the bootstrap as the
  next nonce to hand out, for every counter value.
\<close>

lemma persisted_nonce_roundtrip:
  assumes "nm_persist m"
  shows "\<exists>t. fst (snd (reserve m)) = Some t
     \<and> disk_nonce True (Some t) = nm_current (snd (snd (reserve m)))"
  using assms by (simp add: reserve_def Let_def)

text \<open>
  Within one process, whatever reservations, atomic resyncs and disk writes happen in
  whatever order, the nonces handed out are strictly increasing. In particular a nonce is
  never handed out again, also not one whose transaction was never sent.
\<close>

lemma issued_strictly_increasing:
  assumes "unat n0 < 2 ^ 63" and "length es \<le> 2 ^ 63" and "\<forall>e \<in> set es. live_event e"
  shows "sorted_wrt (<) (nw_issued (nonce_run (boot_world n0) es))"
proof -
  have "issued_below 0 (boot_world n0)" using assms(1) by (simp add: issued_below_def boot_world_def)
  from live_run_issued_below [OF this assms(3)] assms(2) show ?thesis by (simp add: issued_below_def)
qed

text \<open>
  Across restarts, when the write of every reservation has landed before the next
  event, no nonce is reused whatever the chain answers, so the maximum of disk and chain
  is enough to bootstrap from.
\<close>

lemma restart_safe_when_durable:
  assumes "unat n0 < 2 ^ 63" and "length es \<le> 2 ^ 63" and "\<forall>e \<in> set es. restart_event e"
  shows "sorted_wrt (<) (nw_issued (nonce_run (boot_world n0) (concat (map durable es))))"
proof -
  have "durable_inv 0 (boot_world n0)"
    using assms(1) by (simp add: durable_inv_def issued_below_def boot_world_def disk_nonce_def)
  from durable_run [OF this assms(3)] assms(2) show ?thesis
    by (simp add: durable_inv_def issued_below_def)
qed

text \<open>
  The disk copy does not give that by itself: the spawned writes are unordered, so the
  older of two writes may land last, and after a restart against a node that does not know
  the transactions the nonce 6 is handed out a second time.
\<close>

lemma reordered_writes_reuse_nonce:
  "nw_issued (nonce_run (boot_world 5)
     [Reserve, Reserve, WriteLands 1, WriteLands 0, Restart (Some ''0x5''), Reserve]) = [5, 6, 6]"
proof -
  have "disk_nonce True (Some (show_nat 6)) = 6" using disk_nonce_show [of 6] by simp
  then show ?thesis
    by (simp add: nonce_run_def boot_world_def reserve_def Let_def nonce_new_def
        fetch_pending_nonce_def strip_prefix_def parse_u64_def from_str_radix_def digit_val_def)
qed

text \<open>
  \<open>resync\<close> is a load followed by a store: a reservation on another thread between the
  two is undone by the store, and the same nonce is handed out twice.
\<close>

lemma resync_race_reuses_nonce:
  "nw_issued (nonce_run (boot_world 5)
     [ResyncLoad (Some ''0x5''), Reserve, ResyncStore, Reserve]) = [5, 5]"
  by (simp add: nonce_run_def boot_world_def reserve_def Let_def fetch_pending_nonce_def
      strip_prefix_def parse_u64_def from_str_radix_def digit_val_def)

end
