(* ===== verification/Strategy.thy ===== *)
theory Strategy
  imports Calldata
begin

text \<open>
  \<open>crates/bsc-runner/src/trader/strategy.rs\<close>: the decision on a KOL hit. Parsing the
  transaction hash and the wallet address (\<open>B256::from_str\<close>, \<open>Address::from_str\<close> of
  alloy) are arguments.
\<close>

record strategy_config =
  sc_kol_filter :: "string list"
  sc_min_buy_usd :: f64
  sc_min_buy_bnb :: f64
  sc_size_fraction :: f64

definition strategy_config_default :: strategy_config where
  "strategy_config_default = \<lparr>sc_kol_filter = [''D''], sc_min_buy_usd = Fin 400,
     sc_min_buy_bnb = Fin 0, sc_size_fraction = flit (5 / 100)\<rparr>"

definition scale_size :: "u256 \<Rightarrow> f64 \<Rightarrow> u256" where
  "scale_size kol_input fraction =
     (if fle fraction (Fin 0) then 0
      else let permille = min (f64_to_word (fround (fmul fraction (Fin 1000))) :: u128) 1000
           in sat_mul kol_input (ucast permille) div 1000)"

definition bnb_to_wei :: "f64 \<Rightarrow> u256" where
  "bnb_to_wei bnb = ucast (f64_to_word (fmul bnb (flit (10 ^ 18))) :: u128)"

definition evaluate_sell ::
  "(string \<Rightarrow> address option) \<Rightarrow> kol_hit \<Rightarrow> address \<Rightarrow> b256 \<Rightarrow> decision" where
  "evaluate_sell parse_addr hit token tx_hash =
     Exit (kh_kol_name hit) token (case kh_confirmed_block hit of Some b \<Rightarrow> b | None \<Rightarrow> 0) tx_hash
       (case parse_addr (kh_from_addr hit) of Some a \<Rightarrow> a | None \<Rightarrow> 0)"

definition evaluate_buy :: "strategy_config \<Rightarrow> kol_hit \<Rightarrow> f64 \<Rightarrow> address \<Rightarrow> b256 \<Rightarrow> decision" where
  "evaluate_buy cfg hit bnb_usd token tx_hash =
     (if fle (kh_value_bnb hit) (Fin 0) then Skip UnsupportedSide
      else if flt (Fin 0) (sc_min_buy_bnb cfg) \<and> flt (kh_value_bnb hit) (sc_min_buy_bnb cfg)
        then Skip BelowBuyThreshold
      else if flt (Fin 0) (sc_min_buy_usd cfg)
              \<and> flt (fmul (kh_value_bnb hit) bnb_usd) (sc_min_buy_usd cfg)
        then Skip BelowBuyThreshold
      else let kol_bnb = bnb_to_wei (kh_value_bnb hit)
           in Enter (kh_kol_name hit) token (scale_size kol_bnb (sc_size_fraction cfg)) kol_bnb 0 tx_hash)"

definition evaluate ::
  "(string \<Rightarrow> b256 option) \<Rightarrow> (string \<Rightarrow> address option) \<Rightarrow> strategy_config \<Rightarrow> kol_hit \<Rightarrow> f64 \<Rightarrow> decision" where
  "evaluate parse_hash parse_addr cfg hit bnb_usd =
     (if sc_kol_filter cfg \<noteq> [] \<and> kh_kol_name hit \<notin> set (sc_kol_filter cfg) then Skip NotKolHit
      else case parse_hash (kh_tx_hash hit) of
        None \<Rightarrow> Skip UnknownToken
      | Some tx_hash \<Rightarrow>
          (case kh_token hit of
             None \<Rightarrow> Skip NotASwap
           | Some token \<Rightarrow>
               (if kh_side hit = Some ''SELL'' then evaluate_sell parse_addr hit token tx_hash
                else if kh_side hit = Some ''BUY'' then evaluate_buy cfg hit bnb_usd token tx_hash
                else Skip UnsupportedSide)))"

definition classify_side_from_value :: "f64 \<Rightarrow> side" where
  "classify_side_from_value v = (if flt (Fin 0) v then Buy else Sell)"

section \<open>Properties\<close>

lemma unat_ucast_u128_u256: "unat (ucast (w :: u128) :: u256) = unat w"
  by (simp add: unat_ucast_up)

text \<open>Sizing never exceeds the KOL's input, for every fraction (NaN, infinite, above one).\<close>

lemma scale_size_le: "scale_size k f \<le> k"
proof -
  let ?p = "min (f64_to_word (fround (fmul f (Fin 1000))) :: u128) 1000"
  have p: "unat (ucast ?p :: u256) \<le> 1000"
  proof -
    have "?p \<le> 1000" by simp
    then have "unat ?p \<le> 1000" by (simp add: word_le_nat_alt)
    then show ?thesis by (simp add: unat_ucast_u128_u256)
  qed
  have "unat (sat_mul k (ucast ?p)) \<le> unat k * unat (ucast ?p :: u256)"
    by (simp add: unat_sat_mul)
  also have "\<dots> \<le> unat k * 1000" using p by (rule mult_le_mono2)
  finally have "unat (sat_mul k (ucast ?p)) div 1000 \<le> unat k" by simp
  then have "sat_mul k (ucast ?p) div 1000 \<le> k"
    by (simp add: word_le_nat_alt unat_div)
  then show ?thesis by (simp add: scale_size_def Let_def)
qed

text \<open>
  What an entry decision guarantees: the KOL is in the filter (or the filter is empty),
  the hit is a decoded BUY of that token with positive value, both enabled thresholds are
  met, the stake is at most the KOL's, and its block is the mempool marker 0.
\<close>

lemma evaluate_enter_gates:
  assumes "evaluate ph pa cfg hit bnb_usd = Enter kol token amount kol_bnb blk tx"
  shows "(sc_kol_filter cfg = [] \<or> kol \<in> set (sc_kol_filter cfg)) \<and> kol = kh_kol_name hit
     \<and> kh_token hit = Some token \<and> kh_side hit = Some ''BUY'' \<and> ph (kh_tx_hash hit) = Some tx
     \<and> \<not> fle (kh_value_bnb hit) (Fin 0)
     \<and> \<not> (flt (Fin 0) (sc_min_buy_bnb cfg) \<and> flt (kh_value_bnb hit) (sc_min_buy_bnb cfg))
     \<and> \<not> (flt (Fin 0) (sc_min_buy_usd cfg) \<and> flt (fmul (kh_value_bnb hit) bnb_usd) (sc_min_buy_usd cfg))
     \<and> kol_bnb = bnb_to_wei (kh_value_bnb hit) \<and> amount \<le> kol_bnb \<and> blk = 0"
  using assms
  by (auto simp: evaluate_def evaluate_sell_def evaluate_buy_def Let_def scale_size_le
      split: if_splits option.splits)

definition example_hit :: kol_hit where
  "example_hit = \<lparr>kh_kol_name = ''D'', kh_kol_emoji = None, kh_kol_groups = [], kh_tx_hash = [],
     kh_from_addr = [], kh_to_addr = None, kh_to_label = None, kh_method_id = [], kh_method_label = None,
     kh_value_bnb = Fin 1, kh_gas_price_gwei = Fin 1, kh_gas_limit = 0, kh_nonce = 0, kh_source_seen = [],
     kh_calldata = [], kh_decoded = None, kh_token = Some 5, kh_side = Some ''BUY'',
     kh_confirmed_block = None, kh_visibility = ''public''\<rparr>"

text \<open>
  Without a price (the consumer passes 0 when the oracle fails) an enabled USD gate
  closes: no entry is taken, while exits are decided exactly as with a price.
\<close>

lemma no_price_fails_closed:
  assumes "flt (Fin 0) (sc_min_buy_usd cfg)" and "kh_value_bnb hit = Fin v"
  shows "(\<nexists>kol token amount kol_bnb blk tx.
       evaluate ph pa cfg hit (Fin 0) = Enter kol token amount kol_bnb blk tx)
     \<and> (kh_side hit = Some ''SELL'' \<longrightarrow> evaluate ph pa cfg hit (Fin 0) = evaluate ph pa cfg hit price)"
  using assms by (auto simp: evaluate_def evaluate_buy_def evaluate_sell_def Let_def
      split: option.splits if_splits)

end
