(* ===== verification/Rpc.thy ===== *)
theory Rpc
  imports Calldata Text
begin

text \<open>
  The JSON-RPC traffic of \<open>crates/bsc-runner/src/trader/executor_live.rs\<close>: what each call
  sends, how each reply is read, and the retry loop of the raw submission. A JSON value is
  a tree; a reply is a transport failure, a body that is not JSON, or a value. Third-party
  parsing is an argument: \<open>parse_u256\<close> is \<open>U256::from_str_radix(_, 16)\<close>, \<open>hex_decode\<close> is
  \<open>hex::decode\<close>, \<open>json_text\<close> the printed form of a JSON value.
\<close>

datatype json =
    JNull
  | JBool bool
  | JNum int
  | JStr string
  | JArr "json list"
  | JObj "(string \<times> json) list"

fun jget :: "json \<Rightarrow> string \<Rightarrow> json option" where
  "jget (JObj kvs) k = map_of kvs k"
| "jget _ k = None"

fun as_str :: "json \<Rightarrow> string option" where
  "as_str (JStr s) = Some s"
| "as_str _ = None"

datatype reply = SendFailed | BadJson | Reply json

fun reply_json :: "reply \<Rightarrow> json option" where
  "reply_json (Reply v) = Some v"
| "reply_json _ = None"

definition result_str :: "reply \<Rightarrow> string option" where
  "result_str r = Option.bind (reply_json r) (\<lambda>v. Option.bind (jget v ''result'') as_str)"

definition rpc_request :: "string \<Rightarrow> json list \<Rightarrow> json" where
  "rpc_request meth params = JObj [(''jsonrpc'', JStr ''2.0''), (''method'', JStr meth),
     (''params'', JArr params), (''id'', JNum 1)]"

section \<open>Reading quantities\<close>

definition parse_u128 :: "nat \<Rightarrow> string \<Rightarrow> u128 option" where
  "parse_u128 r s = map_option of_nat (from_str_radix r (2 ^ 128) s)"

definition gas_price_of :: "reply \<Rightarrow> u128 option" where
  "gas_price_of r = Option.bind (result_str r) (\<lambda>hex. parse_u128 16 (trim_start_matches ''0x'' hex))"

definition bg_gas_price_of :: "reply \<Rightarrow> u128 option" where
  "bg_gas_price_of r = Option.bind (result_str r) (\<lambda>hex. parse_u128 16 (trim_start_matches ''0x'' hex))"

definition wallet_balance_bnb_of :: "reply \<Rightarrow> f64 option" where
  "wallet_balance_bnb_of r = Option.bind (result_str r) (\<lambda>hex.
     map_option (\<lambda>n. fdiv (f64_of_word n) (flit (10 ^ 18)))
       (parse_u128 16 (trim_start_matches ''0x'' hex)))"

definition head_block_of :: "reply \<Rightarrow> u64 option" where
  "head_block_of r = Option.bind (result_str r) (\<lambda>hex. parse_u64 16 (trim_start_matches ''0x'' hex))"

definition eth_call_u256_of :: "(string \<Rightarrow> u256 option) \<Rightarrow> reply \<Rightarrow> u256 option" where
  "eth_call_u256_of parse_u256 r = Option.bind (result_str r) (\<lambda>hex_s.
     let s = (case strip_prefix ''0x'' hex_s of Some t \<Rightarrow> t | None \<Rightarrow> hex_s)
     in if s = [] then Some 0 else parse_u256 s)"

definition balance_of_at_of :: "(string \<Rightarrow> u256 option) \<Rightarrow> reply \<Rightarrow> u256 option" where
  "balance_of_at_of parse_u256 r = Option.bind (result_str r) (\<lambda>h.
     let hex_s = trim_start_matches ''0x'' h
     in if hex_s = [] then Some 0 else parse_u256 hex_s)"

definition bg_token_balance_of :: "(string \<Rightarrow> u256 option) \<Rightarrow> reply \<Rightarrow> u256 option" where
  "bg_token_balance_of parse_u256 r =
     Option.bind (result_str r) (\<lambda>h. parse_u256 (trim_start_matches ''0x'' h))"

definition receipt_status_of :: "reply \<Rightarrow> bool option" where
  "receipt_status_of r = Option.bind (reply_json r) (\<lambda>v. Option.bind (jget v ''result'') (\<lambda>x.
     if x = JNull then None
     else Option.bind (Option.bind (jget x ''status'') as_str) (\<lambda>s. Some (s = ''0x1''))))"

section \<open>Reading calls\<close>

definition eth_call_succeeds_of :: "reply \<Rightarrow> bool" where
  "eth_call_succeeds_of r =
     (case reply_json r of None \<Rightarrow> False
      | Some v \<Rightarrow> jget v ''result'' \<noteq> None \<and> jget v ''error'' = None)"

fun contains_str :: "string \<Rightarrow> string \<Rightarrow> bool" where
  "contains_str p [] = (p = [])"
| "contains_str p (c # cs) = (take (length p) (c # cs) = p \<or> contains_str p cs)"

text \<open>The sell dry-run: success, or any revert that is not "Invalid token".\<close>

definition sell_probe_accepts :: "reply \<Rightarrow> bool" where
  "sell_probe_accepts r =
     (case reply_json r of None \<Rightarrow> False
      | Some v \<Rightarrow>
          if jget v ''result'' \<noteq> None \<and> jget v ''error'' = None then True
          else let msg = (case Option.bind (Option.bind (jget v ''error'') (\<lambda>e. jget e ''message'')) as_str of
                            Some m \<Rightarrow> m | None \<Rightarrow> [])
               in \<not> contains_str ''Invalid token'' msg)"

definition v2_pair_lookup_of :: "(string \<Rightarrow> u8 list option) \<Rightarrow> reply \<Rightarrow> address option" where
  "v2_pair_lookup_of hex_decode r = Option.bind (result_str r) (\<lambda>h.
     let hex_s = trim_start_matches ''0x'' h in
     if hex_s = [] \<or> list_all (\<lambda>c. c = CHR ''0'') hex_s then None
     else case hex_decode hex_s of None \<Rightarrow> None
       | Some bytes \<Rightarrow>
           if length bytes < 20 then None
           else let addr = address_of_bytes (drop (length bytes - 20) bytes)
                in if addr = 0 then None else Some addr)"

definition v2_pair_exists_of :: "reply \<Rightarrow> bool" where
  "v2_pair_exists_of r =
     (case result_str r of None \<Rightarrow> False
      | Some hex_s \<Rightarrow> \<not> length hex_s < 66 \<and> drop (length hex_s - 40) hex_s \<noteq> replicate 40 CHR ''0'')"

text \<open>\<open>getAmountsOut\<close>: offset word, length word, then the amounts; the last one counts.\<close>

definition amounts_out_decode :: "u8 list \<Rightarrow> u256 option" where
  "amounts_out_decode raw =
     (if length raw < 96 then None
      else let n = be_val (slice 32 64 raw) in
        if \<not> n < 2 ^ 32 then None
        else if n = 0 \<or> length raw < 64 + n * 32 then None
        else let last_off = 64 + (n - 1) * 32
             in Some (of_nat (be_val (slice last_off (last_off + 32) raw))))"

definition get_amounts_out_of :: "(string \<Rightarrow> u8 list option) \<Rightarrow> reply \<Rightarrow> u256 option" where
  "get_amounts_out_of hex_decode r = Option.bind (result_str r) (\<lambda>h.
     Option.bind (hex_decode (trim_start_matches ''0x'' h)) amounts_out_decode)"

section \<open>Submitting\<close>

datatype submit_error = SendError | DecodeError | RpcError json

definition to_lower :: "string \<Rightarrow> string" where
  "to_lower s = map (\<lambda>c. let n = (of_char c :: nat) in if 65 \<le> n \<and> n \<le> 90 then char_of (n + 32) else c) s"

definition already_known :: "string \<Rightarrow> bool" where
  "already_known s \<longleftrightarrow> contains_str ''already known'' s \<or> contains_str ''known transaction'' s
     \<or> contains_str ''alreadyknown'' s"

definition submit_verdict :: "(json \<Rightarrow> string) \<Rightarrow> json \<Rightarrow> submit_error + unit" where
  "submit_verdict json_text v =
     (case jget v ''error'' of None \<Rightarrow> Inr ()
      | Some err \<Rightarrow> if already_known (to_lower (json_text err)) then Inr () else Inl (RpcError err))"

text \<open>
  The attempts, given the reply to each; \<open>None\<close> is the \<open>unreachable!\<close> after the loop.
\<close>

fun submit_loop :: "(json \<Rightarrow> string) \<Rightarrow> (nat \<Rightarrow> reply) \<Rightarrow> nat list \<Rightarrow> (submit_error + unit) option" where
  "submit_loop json_text replies [] = None"
| "submit_loop json_text replies (attempt # rest) =
     (case replies attempt of
        Reply v \<Rightarrow> Some (submit_verdict json_text v)
      | BadJson \<Rightarrow> Some (Inl DecodeError)
      | SendFailed \<Rightarrow> if attempt = 0 then submit_loop json_text replies rest else Some (Inl SendError))"

definition submit_raw :: "(json \<Rightarrow> string) \<Rightarrow> (nat \<Rightarrow> reply) \<Rightarrow> (submit_error + unit) option" where
  "submit_raw json_text replies = submit_loop json_text replies [0 ..< 2]"

definition raw_request :: "string \<Rightarrow> json" where
  "raw_request raw_hex = rpc_request ''eth_sendRawTransaction'' [JStr raw_hex]"

definition bundle_request :: "string \<Rightarrow> u64 \<Rightarrow> json" where
  "bundle_request raw_hex target = rpc_request ''eth_sendBundle''
     [JObj [(''txs'', JArr [JStr raw_hex]), (''blockNumber'', JStr (show_hex (unat target))),
            (''minTimestamp'', JNum 0), (''maxTimestamp'', JNum 0), (''revertingTxHashes'', JArr [])]]"

text \<open>The bundle leg: ask for the head, target the next block, submit. \<open>post\<close> answers the request.\<close>

definition submit_bundle :: "string \<Rightarrow> reply \<Rightarrow> (json \<Rightarrow> reply) \<Rightarrow> submit_error + u64" where
  "submit_bundle raw_hex bn_reply post =
     (case head_block_of bn_reply of None \<Rightarrow> Inl DecodeError
      | Some current \<Rightarrow>
          let target = current + 1 in
          (case post (bundle_request raw_hex target) of
             SendFailed \<Rightarrow> Inl SendError
           | BadJson \<Rightarrow> Inl DecodeError
           | Reply v \<Rightarrow> (case jget v ''error'' of Some err \<Rightarrow> Inl (RpcError err) | None \<Rightarrow> Inr target)))"

definition puissant_request :: "u64 \<Rightarrow> string \<Rightarrow> json" where
  "puissant_request now_secs raw_hex = rpc_request ''eth_sendPuissant''
     [JObj [(''txs'', JArr [JStr raw_hex]), (''maxTimestamp'', JNum (uint (now_secs + 30))),
            (''acceptReverting'', JArr [])]]"

definition submit_puissant :: "u64 \<Rightarrow> string \<Rightarrow> (json \<Rightarrow> reply) \<Rightarrow> submit_error + unit" where
  "submit_puissant now_secs raw_hex post =
     (case post (puissant_request now_secs raw_hex) of
        SendFailed \<Rightarrow> Inl SendError
      | BadJson \<Rightarrow> Inl DecodeError
      | Reply v \<Rightarrow> (case jget v ''error'' of Some err \<Rightarrow> Inl (RpcError err) | None \<Rightarrow> Inr ()))"

text \<open>
  The broadcast waits for the one reporting leg (local geth): its channel closes after
  that report, so the loop over reports ends. The other legs never gate the result.
\<close>

fun await_reports :: "submit_error option \<Rightarrow> (submit_error + unit) list \<Rightarrow> submit_error + unit" where
  "await_reports last_err [] = (case last_err of Some e \<Rightarrow> Inl e | None \<Rightarrow> Inl SendError)"
| "await_reports last_err (Inr _ # rs) = Inr ()"
| "await_reports last_err (Inl e # rs) = await_reports (Some e) rs"

definition broadcast_result :: "(json \<Rightarrow> string) \<Rightarrow> (nat \<Rightarrow> reply) \<Rightarrow> submit_error + unit" where
  "broadcast_result json_text replies =
     await_reports None (case submit_raw json_text replies of Some r \<Rightarrow> [r] | None \<Rightarrow> [])"

section \<open>Properties\<close>

lemma submit_raw_unfold:
  "submit_raw jt f = (case f 0 of
      Reply v \<Rightarrow> Some (submit_verdict jt v)
    | BadJson \<Rightarrow> Some (Inl DecodeError)
    | SendFailed \<Rightarrow> (case f 1 of Reply v \<Rightarrow> Some (submit_verdict jt v)
        | BadJson \<Rightarrow> Some (Inl DecodeError) | SendFailed \<Rightarrow> Some (Inl SendError)))"
  by (simp add: submit_raw_def upt_rec split: reply.splits)

text \<open>
  The broadcast always returns (the code after the retry loop is unreachable), and it
  accepts exactly when the local node, on the first attempt or, after a transport error
  only, on the second, answers without an error or with one that says the transaction is
  already known.
\<close>

lemma broadcast_accepts_iff:
  "broadcast_result jt f = Inr () \<longleftrightarrow>
     (\<exists>v. (f 0 = Reply v \<or> f 0 = SendFailed \<and> f 1 = Reply v)
        \<and> (case jget v ''error'' of Some err \<Rightarrow> already_known (to_lower (jt err)) | None \<Rightarrow> True))
   \<and> submit_raw jt f \<noteq> None"
  by (auto simp: broadcast_result_def submit_raw_unfold submit_verdict_def split: reply.splits option.splits)

lemma head_block_of_hex:
  assumes "head < 2 ^ 64" and "jget v ''result'' = Some (JStr (show_hex head))"
  shows "head_block_of (Reply v) = Some (of_nat head)"
  using parse_show_hex [OF assms(1)] assms(2)
  by (simp add: head_block_of_def result_str_def parse_u64_def)

lemma unat_of_nat_u64: "n < 2 ^ 64 \<Longrightarrow> unat (of_nat n :: u64) = n"
  by (simp add: unsigned_of_nat take_bit_nat_eq_self)

text \<open>
  A bundle goes out for the block right after the node's head: whenever the submission
  reports success the target is head + 1, the request that was answered without an error
  carried that block number in hexadecimal, and the number reads back as head + 1.
\<close>

lemma bundle_targets_next_block:
  assumes "jget v ''result'' = Some (JStr (show_hex head))" and "head + 1 < 2 ^ 64"
    and "submit_bundle raw (Reply v) post = Inr target"
  shows "unat target = head + 1
    \<and> (\<exists>w. post (rpc_request ''eth_sendBundle''
        [JObj [(''txs'', JArr [JStr raw]), (''blockNumber'', JStr (show_hex (head + 1))),
               (''minTimestamp'', JNum 0), (''maxTimestamp'', JNum 0), (''revertingTxHashes'', JArr [])]])
         = Reply w \<and> jget w ''error'' = None)
    \<and> from_str_radix 16 (2 ^ 64) (trim_start_matches ''0x'' (show_hex (head + 1))) = Some (head + 1)"
proof -
  have h: "head_block_of (Reply v) = Some (of_nat head)"
    using assms(1,2) by (intro head_block_of_hex) simp_all
  have s: "(of_nat head + 1 :: u64) = of_nat (head + 1)" by simp
  have u: "unat (of_nat head + 1 :: u64) = head + 1"
    unfolding s by (rule unat_of_nat_u64 [OF assms(2)])
  show ?thesis
    using assms(3) parse_show_hex [OF assms(2)]
    by (auto simp: submit_bundle_def h Let_def u bundle_request_def split: reply.splits option.splits)
qed

lemma length_uint_words [simp]: "length (concat (map uint_word xs)) = 32 * length xs"
  by (induction xs) auto

text \<open>
  The quote decoder inverts the ABI encoding of the router's answer: for every
  non-empty list of amounts it returns the last amount, the output of the full path.
\<close>

lemma amounts_out_roundtrip:
  assumes "amounts \<noteq> []" and "length amounts < 2 ^ 32" and "last amounts < 2 ^ 256"
  shows "amounts_out_decode (uint_word 32 @ uint_word (length amounts) @ concat (map uint_word amounts))
    = Some (of_nat (last amounts))"
proof -
  obtain ys x where xs: "amounts = ys @ [x]" using assms(1) by (cases amounts rule: rev_cases) auto
  let ?raw = "uint_word 32 @ uint_word (length amounts) @ concat (map uint_word amounts)"
  have len: "length ?raw = 64 + 32 * (length ys + 1)" by (simp add: xs)
  have n: "be_val (slice 32 64 ?raw) = length ys + 1"
    using assms(2) by (simp add: slice_def xs be_val_uint_word)
  have "slice (64 + 32 * length ys) (64 + 32 * length ys + 32) ?raw = uint_word x"
    by (simp add: slice_def xs)
  then show ?thesis
    using assms(2,3) unfolding amounts_out_decode_def Let_def n len
    by (simp add: xs be_val_uint_word mult.commute)
qed

end
