(* ===== verification/LiveLedger.thy ===== *)
theory LiveLedger
  imports Types Text "HOL-Library.Sublist"
begin

text \<open>
  \<open>crates/bsc-runner/src/trader/live_ledger.rs\<close>: the append-only CSV of the live trader and
  its open-position counter. The file is missing, unreadable or a text. The formatting of
  addresses, hashes (alloy) and of the wallet balance (\<open>{:.6}\<close>) are arguments.
\<close>

definition CSV_HEADER :: string where
  "CSV_HEADER = ''ts_unix_ns,phase,kol_name,visibility,token_address,token_symbol,bnb_in_wei,gas_gwei,nonce,tx_hash,wallet_bnb,broadcast,limit_skip_reason'' @ [CHR 0x0A]"

record live_entry =
  le_phase :: string
  le_kol_name :: string
  le_visibility :: string
  le_token_address :: address
  le_token_symbol :: string
  le_bnb_in_wei :: u256
  le_gas_gwei :: u64
  le_nonce :: u64
  le_tx_hash :: b256
  le_wallet_bnb :: f64
  le_broadcast :: bool
  le_limit_skip_reason :: "string option"

datatype disk_file = Missing | Unreadable | Content string

record live_ledger =
  ll_file :: disk_file
  ll_open_count :: u32

definition live_ledger_new :: "disk_file \<Rightarrow> live_ledger" where
  "live_ledger_new f =
     (let needs_header = (case f of Content s \<Rightarrow> \<not> prefix CSV_HEADER s | _ \<Rightarrow> True);
          existing = (case f of Content s \<Rightarrow> s | _ \<Rightarrow> [])
      in \<lparr>ll_file = (if needs_header
            then Content (CSV_HEADER @ (if existing \<noteq> [] \<and> \<not> prefix CSV_HEADER existing then existing else []))
            else f),
          ll_open_count = 0\<rparr>)"

fun replace_quotes :: "string \<Rightarrow> string" where
  "replace_quotes [] = []"
| "replace_quotes (c # cs) =
     (if c = CHR 0x22 then CHR 0x22 # CHR 0x22 # replace_quotes cs else c # replace_quotes cs)"

definition csv_escape :: "string \<Rightarrow> string" where
  "csv_escape s = (if CHR '','' \<in> set s \<or> CHR 0x22 \<in> set s \<or> CHR 0x0A \<in> set s
     then [CHR 0x22] @ replace_quotes s @ [CHR 0x22] else s)"

definition show_bool :: "bool \<Rightarrow> string" where
  "show_bool b = (if b then ''true'' else ''false'')"

record row_format =
  rf_address :: "address \<Rightarrow> string"
  rf_hash :: "b256 \<Rightarrow> string"
  rf_f6 :: "f64 \<Rightarrow> string"

fun join_fields :: "string list \<Rightarrow> string" where
  "join_fields [] = []"
| "join_fields [x] = x"
| "join_fields (x # xs) = x @ CHR '','' # join_fields xs"

definition ledger_row :: "row_format \<Rightarrow> u64 \<Rightarrow> live_entry \<Rightarrow> string" where
  "ledger_row rf now e = join_fields
     [show_nat (unat now), le_phase e, csv_escape (le_kol_name e), le_visibility e,
      rf_address rf (le_token_address e), csv_escape (le_token_symbol e),
      show_nat (unat (le_bnb_in_wei e)), show_nat (unat (le_gas_gwei e)), show_nat (unat (le_nonce e)),
      rf_hash rf (le_tx_hash e), rf_f6 rf (le_wallet_bnb e), show_bool (le_broadcast e),
      (case le_limit_skip_reason e of Some r \<Rightarrow> r | None \<Rightarrow> [])] @ [CHR 0x0A]"

text \<open>\<open>append\<close> opens without creating: a missing file is an error and nothing is written.\<close>

definition ledger_append :: "row_format \<Rightarrow> u64 \<Rightarrow> live_entry \<Rightarrow> live_ledger \<Rightarrow> live_ledger" where
  "ledger_append rf now e l =
     (case ll_file l of
        Content s \<Rightarrow> l\<lparr>ll_file := Content (s @ ledger_row rf now e)\<rparr>
      | _ \<Rightarrow> l)"

definition record_opened :: "live_ledger \<Rightarrow> live_ledger" where
  "record_opened l = l\<lparr>ll_open_count := ll_open_count l + 1\<rparr>"

definition record_closed :: "live_ledger \<Rightarrow> live_ledger" where
  "record_closed l = l\<lparr>ll_open_count := sat_sub (ll_open_count l) 1\<rparr>"

definition open_count :: "live_ledger \<Rightarrow> u32" where
  "open_count l = ll_open_count l"

section \<open>The ledger as an append-only component\<close>

datatype ledger_event = Append u64 live_entry | Opened | Closed

fun ledger_step :: "row_format \<Rightarrow> live_ledger \<Rightarrow> ledger_event \<Rightarrow> live_ledger" where
  "ledger_step rf l (Append now e) = ledger_append rf now e l"
| "ledger_step rf l Opened = record_opened l"
| "ledger_step rf l Closed = record_closed l"

definition ledger_text :: "live_ledger \<Rightarrow> string" where
  "ledger_text l = (case ll_file l of Content s \<Rightarrow> s | _ \<Rightarrow> [])"

definition ledger_inv :: "live_ledger \<Rightarrow> bool" where
  "ledger_inv l \<longleftrightarrow> (\<exists>rows. ll_file l = Content (CSV_HEADER @ rows))"

definition ledger_extends :: "live_ledger \<Rightarrow> live_ledger \<Rightarrow> bool" where
  "ledger_extends l l' \<longleftrightarrow> prefix (ledger_text l) (ledger_text l')"

lemma ledger_step_inv: "ledger_inv l \<Longrightarrow> ledger_inv (ledger_step rf l e)"
  by (cases e) (auto simp: ledger_inv_def ledger_append_def record_opened_def record_closed_def)

lemma ledger_step_extends: "ledger_extends l (ledger_step rf l e)"
  by (cases e) (auto simp: ledger_extends_def ledger_text_def ledger_append_def record_opened_def
      record_closed_def split: disk_file.splits)

interpretation ledger: monotone_stateful "ledger_step rf" ledger_inv ledger_extends for rf
proof
  show "ledger_inv l \<Longrightarrow> ledger_inv (ledger_step rf l e)" for l e by (rule ledger_step_inv)
  show "ledger_extends l l" for l by (simp add: ledger_extends_def)
  show "ledger_extends l l' \<Longrightarrow> ledger_extends l' l'' \<Longrightarrow> ledger_extends l l''" for l l' l''
    by (auto simp: ledger_extends_def intro: prefix_order.trans)
  show "ledger_inv l \<Longrightarrow> ledger_extends l (ledger_step rf l e)" for l e
    by (rule ledger_step_extends)
qed

lemma live_ledger_new_inv: "ledger_inv (live_ledger_new f)"
  by (auto simp: live_ledger_new_def ledger_inv_def Let_def prefix_def split: disk_file.splits)

section \<open>Reading a field back\<close>

text \<open>
  The reference reader of CSV: an unquoted field ends at the comma, a quoted one at a
  quote that is not doubled.
\<close>

fun read_quoted :: "string \<Rightarrow> (string \<times> string) option" where
  "read_quoted [] = None"
| "read_quoted [c] = (if c = CHR 0x22 then Some ([], []) else None)"
| "read_quoted (c # d # cs) =
     (if c = CHR 0x22
      then if d = CHR 0x22
           then map_option (\<lambda>(x, rest). (CHR 0x22 # x, rest)) (read_quoted cs)
           else Some ([], d # cs)
      else map_option (\<lambda>(x, rest). (c # x, rest)) (read_quoted (d # cs)))"

definition read_field :: "string \<Rightarrow> (string \<times> string) option" where
  "read_field s = (case s of
       [] \<Rightarrow> Some ([], [])
     | c # cs \<Rightarrow> if c = CHR 0x22 then read_quoted cs
         else Some (takeWhile (\<lambda>x. x \<noteq> CHR '','' \<and> x \<noteq> CHR 0x0A) s,
                    dropWhile (\<lambda>x. x \<noteq> CHR '','' \<and> x \<noteq> CHR 0x0A) s))"

lemma read_quoted_escape:
  "d \<noteq> CHR 0x22 \<Longrightarrow> read_quoted (replace_quotes s @ CHR 0x22 # d # rest) = Some (s, d # rest)"
proof (induction s)
  case (Cons c s)
  obtain e es where e: "replace_quotes s @ CHR 0x22 # d # rest = e # es"
    by (cases "replace_quotes s") auto
  show ?case using Cons by (auto simp: e)
qed simp

section \<open>Properties\<close>

text \<open>
  Every name survives the CSV: whatever characters it has, the standard reader gets
  it back from the escaped field, and stops exactly at the separator that follows.
\<close>

lemma csv_escape_roundtrip:
  assumes "sep = CHR '','' \<or> sep = CHR 0x0A"
  shows "read_field (csv_escape s @ sep # rest) = Some (s, sep # rest)"
proof (cases "CHR '','' \<in> set s \<or> CHR 0x22 \<in> set s \<or> CHR 0x0A \<in> set s")
  case True
  then show ?thesis using assms by (auto simp: csv_escape_def read_field_def read_quoted_escape)
next
  case False
  let ?P = "\<lambda>x. x \<noteq> CHR '','' \<and> x \<noteq> CHR 0x0A"
  have "\<forall>x \<in> set s. ?P x" using False by auto
  then have "takeWhile ?P (s @ sep # rest) = s" "dropWhile ?P (s @ sep # rest) = sep # rest"
    using assms by (auto simp: takeWhile_append2 dropWhile_append2)
  moreover have "s @ sep # rest = c # cs \<Longrightarrow> c \<noteq> CHR 0x22" for c cs
    using False assms by (cases s) auto
  ultimately show ?thesis
    using False by (auto simp: csv_escape_def read_field_def split: list.split)
qed

text \<open>
  The log is append-only: after opening a readable (or missing) file and any sequence
  of rows and counter updates, the text starts with the header, and every text the file
  had, minus the header if it was there, is still in it, in front of the new rows.
\<close>

lemma ledger_append_only:
  assumes "f \<noteq> Unreadable"
  shows "\<exists>rows. ll_file (foldl (ledger_step rf) (live_ledger_new f) es)
     = Content (CSV_HEADER @ (case f of Content s \<Rightarrow> if prefix CSV_HEADER s then drop (length CSV_HEADER) s else s
                              | _ \<Rightarrow> []) @ rows)"
proof -
  let ?l = "foldl (ledger_step rf) (live_ledger_new f) es"
  have "ledger_inv ?l" by (rule ledger.run_inv [OF live_ledger_new_inv])
  moreover have "prefix (ledger_text (live_ledger_new f)) (ledger_text ?l)"
    using ledger.run_below [OF live_ledger_new_inv] by (simp add: ledger_extends_def)
  moreover have "ledger_text (live_ledger_new f) = CSV_HEADER @
      (case f of Content s \<Rightarrow> if prefix CSV_HEADER s then drop (length CSV_HEADER) s else s | _ \<Rightarrow> [])"
    using assms by (auto simp: live_ledger_new_def ledger_text_def Let_def prefix_def split: disk_file.splits)
  ultimately show ?thesis
    by (auto simp: ledger_inv_def ledger_text_def prefix_def)
qed

text \<open>
  A file that exists but cannot be read as UTF-8 text is not kept: opening the ledger
  replaces it by the header alone (the code's comment promises to keep existing rows).
\<close>

lemma unreadable_log_is_truncated:
  "ll_file (live_ledger_new Unreadable) = Content CSV_HEADER"
  by (simp add: live_ledger_new_def Let_def)

end
