(* ===== verification/Executor.thy ===== *)
theory Executor
  imports RiskLimits Nonce Strategy Blacklist Rpc LiveLedger
begin

text \<open>
  \<open>crates/bsc-runner/src/trader/executor_live.rs\<close>, first half: the executor's state and
  caches, the route choice, and the whole buy pipeline \<open>execute\<close> from the duplicate guard
  to the position entry. Clocks, RPC replies and the signer are arguments; a handler runs
  to its end before the next one starts (the consumer awaits it), except for the background
  task it spawns, which is listed in \<open>ex_spawned\<close> and modelled in \<open>ExecutorExit\<close>.
\<close>

section \<open>State\<close>

datatype buy_route = PancakeV2 | FourMeme

datatype exec_action = ActBuy | ActSell

text \<open>Monotone clock readings are nanoseconds.\<close>

record position_entry =
  pe_route :: buy_route
  pe_tokens_bought :: u256
  pe_bnb_in :: u256
  pe_approved :: bool
  pe_opened_at :: int

record gas_cache =
  gc_wei :: u128
  gc_refreshed :: int

record wallet_balance_cache =
  wb_bnb :: f64
  wb_refreshed :: "int option"

record v2_pair_cache_entry =
  vc_pair :: "address option"
  vc_cached_at :: int

definition BSC_CHAIN_ID :: u64 where "BSC_CHAIN_ID = 56"
definition DEADLINE_SECS :: u64 where "DEADLINE_SECS = 60"
definition SWAP_GAS_LIMIT :: u64 where "SWAP_GAS_LIMIT = 300000"
definition FOURMEME_GAS_LIMIT :: u64 where "FOURMEME_GAS_LIMIT = 250000"
definition GAS_PRICE_TTL :: int where "GAS_PRICE_TTL = 2 * 10 ^ 9"
definition V2_PAIR_NEG_TTL :: int where "V2_PAIR_NEG_TTL = 30 * 10 ^ 9"

text \<open>The contract calls, before their ABI encoding (alloy's \<open>sol!\<close>).\<close>

datatype call_data =
    SwapExactETHForTokens u256 "address list" address u256
  | SwapExactTokensForETH u256 u256 "address list" address u256
  | BuyTokenAMAP address u256 u256
  | SellToken address u256
  | Approve address u256

record tx_request =
  tx_from :: address
  tx_to :: address
  tx_value :: u256
  tx_input :: call_data
  tx_gas_limit :: u64
  tx_max_fee :: u128
  tx_priority_fee :: u128
  tx_nonce :: u64
  tx_chain_id :: u64

text \<open>A spawned \<open>finalize_position\<close>: token, buy hash, route and the entry it holds.\<close>

record bg_task =
  bg_token :: address
  bg_buy_hash :: b256
  bg_route :: buy_route
  bg_entry :: nat

text \<open>
  Entries are shared (\<open>Arc\<close>): the map holds an index into \<open>ex_entries\<close>, and a background
  task keeps its index even after the map has dropped or replaced the entry. \<open>ex_sent\<close> is
  every transaction handed to the broadcast, in order; \<open>ex_disk_writes\<close> the nonce texts
  whose writes were spawned.
\<close>

record executor =
  ex_wallet :: address
  ex_nonce :: nonce_manager
  ex_disk_writes :: "string list"
  ex_limits :: limits_runtime
  ex_ledger :: live_ledger
  ex_entries :: "position_entry list"
  ex_positions :: "address \<rightharpoonup> nat"
  ex_gas_cache :: gas_cache
  ex_wallet_bnb :: wallet_balance_cache
  ex_pair_cache :: "address \<rightharpoonup> v2_pair_cache_entry"
  ex_blacklist :: "address set option"
  ex_sent :: "tx_request list"
  ex_spawned :: "bg_task list"

text \<open>What is not under the executor's control: third-party functions and the signer.\<close>

record platform =
  pf_parse_u256 :: "string \<Rightarrow> u256 option"
  pf_hex_decode :: "string \<Rightarrow> u8 list option"
  pf_json_text :: "json \<Rightarrow> string"
  pf_rows :: row_format
  pf_sign :: "tx_request \<Rightarrow> b256 option"

text \<open>The readings one handler run gets: clocks, oracle, node and relay replies.\<close>

record readings =
  rd_instant :: int
  rd_unix_ms :: u64
  rd_unix_secs :: u64
  rd_unix_ns :: u64
  rd_bnb_usd :: "f64 option"
  rd_gas :: "nat \<Rightarrow> reply"
  rd_pair :: reply
  rd_buy_probe :: reply
  rd_sell_probe :: "nat \<Rightarrow> reply"
  rd_amounts_out :: "u256 \<Rightarrow> address list \<Rightarrow> reply"
  rd_balance :: reply
  rd_allowance :: reply
  rd_balance_at :: "u64 \<Rightarrow> reply"
  rd_submit :: "tx_request \<Rightarrow> nat \<Rightarrow> reply"
  rd_chain_nonce :: "string option"

definition executor_new ::
  "address \<Rightarrow> nonce_manager \<Rightarrow> limits_runtime \<Rightarrow> live_ledger \<Rightarrow> address set option \<Rightarrow> int \<Rightarrow> executor" where
  "executor_new wallet nonce limits ledger blacklist now =
     \<lparr>ex_wallet = wallet, ex_nonce = nonce, ex_disk_writes = [], ex_limits = limits,
      ex_ledger = ledger, ex_entries = [], ex_positions = Map.empty,
      ex_gas_cache = \<lparr>gc_wei = 0, gc_refreshed = now - GAS_PRICE_TTL\<rparr>,
      ex_wallet_bnb = \<lparr>wb_bnb = Fin 0, wb_refreshed = None\<rparr>, ex_pair_cache = Map.empty,
      ex_blacklist = blacklist, ex_sent = [], ex_spawned = []\<rparr>"

section \<open>Caches\<close>

definition elapsed :: "int \<Rightarrow> int \<Rightarrow> int" where
  "elapsed since now = max 0 (now - since)"

definition refresh_wallet_balance :: "int \<Rightarrow> reply \<Rightarrow> executor \<Rightarrow> executor" where
  "refresh_wallet_balance now r ex =
     (case wallet_balance_bnb_of r of
        Some bnb \<Rightarrow> ex\<lparr>ex_wallet_bnb := \<lparr>wb_bnb = bnb, wb_refreshed = Some now\<rparr>\<rparr>
      | None \<Rightarrow> ex)"

definition wallet_balance_bnb_cached :: "executor \<Rightarrow> f64" where
  "wallet_balance_bnb_cached ex = wb_bnb (ex_wallet_bnb ex)"

definition gas_wei :: "int \<Rightarrow> reply \<Rightarrow> executor \<Rightarrow> u128 option \<times> executor" where
  "gas_wei now r ex =
     (let g = ex_gas_cache ex in
      if gc_wei g \<noteq> 0 \<and> elapsed (gc_refreshed g) now < GAS_PRICE_TTL then (Some (gc_wei g), ex)
      else case gas_price_of r of
        None \<Rightarrow> (None, ex)
      | Some wei \<Rightarrow> (Some wei, ex\<lparr>ex_gas_cache := \<lparr>gc_wei = wei, gc_refreshed = now\<rparr>\<rparr>))"

definition cached_pair :: "int \<Rightarrow> address \<Rightarrow> executor \<Rightarrow> address option option" where
  "cached_pair now token ex =
     (case ex_pair_cache ex token of
        None \<Rightarrow> None
      | Some entry \<Rightarrow>
          if vc_pair entry \<noteq> None then Some (vc_pair entry)
          else if elapsed (vc_cached_at entry) now < V2_PAIR_NEG_TTL then Some (vc_pair entry)
          else None)"

definition v2_pair_cached ::
  "platform \<Rightarrow> int \<Rightarrow> reply \<Rightarrow> address \<Rightarrow> executor \<Rightarrow> address option \<times> executor" where
  "v2_pair_cached pf now r token ex =
     (case cached_pair now token ex of
        Some pair \<Rightarrow> (pair, ex)
      | None \<Rightarrow>
          let pair = v2_pair_lookup_of (pf_hex_decode pf) r
          in (pair, ex\<lparr>ex_pair_cache := (ex_pair_cache ex)(token \<mapsto>
                \<lparr>vc_pair = pair, vc_cached_at = now\<rparr>)\<rparr>))"

text \<open>The route: V2 when the pair exists, else Four.Meme when the matching dry-run accepts.\<close>

definition pick_route ::
  "platform \<Rightarrow> readings \<Rightarrow> nat \<Rightarrow> address \<Rightarrow> exec_action \<Rightarrow> executor \<Rightarrow> buy_route option \<times> executor" where
  "pick_route pf rd probe_no token action ex =
     (case v2_pair_cached pf (rd_instant rd) (rd_pair rd) token ex of
        (Some _, ex1) \<Rightarrow> (Some PancakeV2, ex1)
      | (None, ex1) \<Rightarrow>
          let accepts = (case action of
                ActBuy \<Rightarrow> eth_call_succeeds_of (rd_buy_probe rd)
              | ActSell \<Rightarrow> sell_probe_accepts (rd_sell_probe rd probe_no))
          in (if accepts then Some FourMeme else None, ex1))"

definition drop_position :: "address \<Rightarrow> executor \<Rightarrow> executor" where
  "drop_position token ex = ex\<lparr>ex_positions := (ex_positions ex)(token := None)\<rparr>"

definition executor_open_positions :: "executor \<Rightarrow> u32" where
  "executor_open_positions ex = open_count (ex_ledger ex)"

section \<open>Arithmetic helpers\<close>

definition apply_slippage :: "u256 \<Rightarrow> u64 \<Rightarrow> u256" where
  "apply_slippage amount slip_bps =
     (if slip_bps = 0 \<or> amount = 0 then amount
      else if 10000 \<le> slip_bps then 0
      else let keep = (ucast (10000 - slip_bps) :: u256) in (amount * keep) div 10000)"

definition get_amounts_out_v2 :: "platform \<Rightarrow> readings \<Rightarrow> u256 \<Rightarrow> address list \<Rightarrow> u256 option" where
  "get_amounts_out_v2 pf rd amount_in path =
     get_amounts_out_of (pf_hex_decode pf) (rd_amounts_out rd amount_in path)"

text \<open>The implied tax from two quotes: the loss of the round trip in basis points, less 50.\<close>

definition round_trip_tax :: "u256 \<Rightarrow> u256 \<Rightarrow> u64 option" where
  "round_trip_tax probe sell_out =
     (if probe \<le> sell_out then Some 0
      else let loss = probe - sell_out; bps = (loss * 10000) div probe
           in if unat bps < 2 ^ 64 then Some (sat_sub (ucast bps) 50) else None)"

definition implied_sell_tax_bps_v2 :: "platform \<Rightarrow> readings \<Rightarrow> address \<Rightarrow> u256 \<Rightarrow> u64 option" where
  "implied_sell_tax_bps_v2 pf rd token probe_bnb =
     Option.bind (get_amounts_out_v2 pf rd probe_bnb [WBNB, token]) (\<lambda>buy_out.
       if buy_out = 0 then None
       else Option.bind (get_amounts_out_v2 pf rd buy_out [token, WBNB]) (round_trip_tax probe_bnb))"

section \<open>The buy pipeline\<close>

definition phase_label :: "executor \<Rightarrow> string" where
  "phase_label ex = (let p = lc_phase (lr_cfg (ex_limits ex)) in
     if ph_full p then ''full'' else if ph_tiny p then ''tiny'' else ''shadow'')"

definition leak_str :: "string \<Rightarrow> string" where
  "leak_str s = (if s = ''public'' then ''public'' else if s = ''private'' then ''private'' else ''public'')"

text \<open>Stage 1, the duplicate guard: skip while held or pending, drop a fully exited entry.\<close>

definition entry_at :: "executor \<Rightarrow> address \<Rightarrow> position_entry option" where
  "entry_at ex token = map_option ((!) (ex_entries ex)) (ex_positions ex token)"

definition dup_guard :: "address \<Rightarrow> executor \<Rightarrow> executor option" where
  "dup_guard token ex =
     (case entry_at ex token of
        None \<Rightarrow> Some ex
      | Some e \<Rightarrow> if pe_tokens_bought e = 0 \<and> pe_approved e then Some (drop_position token ex) else None)"

text \<open>Stage 2, the size by USD policy; \<open>None\<close> when private entries are disabled.\<close>

definition usd_sizing :: "strategy_limits \<Rightarrow> f64 option \<Rightarrow> string \<Rightarrow> u256 \<Rightarrow> (u256 \<times> string) option" where
  "usd_sizing sc price visibility bnb_amount =
     (if flt (Fin 0) (sl_trade_size_usd sc) then
        let bnb_usd = (case price of Some p \<Rightarrow> p | None \<Rightarrow> Fin 0) in
        if fle bnb_usd (Fin 0) then Some (bnb_amount, ''fallback_no_price'')
        else if visibility = ''private'' \<and> \<not> flt (Fin 0) (sl_trade_size_private_usd sc) then None
        else let (usd, tag) = (if visibility = ''private'' then (sl_trade_size_private_usd sc, ''private'')
                               else (sl_trade_size_usd sc, ''public''));
                 wei = (f64_to_word (fmul (fdiv usd bnb_usd) (flit (10 ^ 18))) :: u128)
             in Some (ucast wei, tag)
      else Some (bnb_amount, ''legacy_fraction''))"

text \<open>Stage 4, the clamp to the per-trade cap.\<close>

definition wei_to_bnb :: "u256 \<Rightarrow> f64" where
  "wei_to_bnb w = fdiv (f64_of_word w) (flit (10 ^ 18))"

definition clamp_to_cap :: "f64 \<Rightarrow> u256 \<Rightarrow> f64 \<times> u256" where
  "clamp_to_cap cap_bnb bnb_amount =
     (let wanted = wei_to_bnb bnb_amount in
      if flt cap_bnb wanted then (cap_bnb, ucast (f64_to_word (fmul cap_bnb (flit (10 ^ 18))) :: u128))
      else (wanted, bnb_amount))"

text \<open>The gas price of a buy: the observed one or \<open>u128::MAX\<close>, at least 10 gwei.\<close>

definition buy_gas_wei :: "u128 option \<Rightarrow> u128" where
  "buy_gas_wei observed = max (case observed of Some w \<Rightarrow> w | None \<Rightarrow> - 1) 10000000000"

definition gas_gwei_of :: "u128 \<Rightarrow> u64" where
  "gas_gwei_of wei = ucast (wei div 1000000000)"

definition skip_entry ::
  "executor \<Rightarrow> string \<Rightarrow> string \<Rightarrow> address \<Rightarrow> u256 \<Rightarrow> u64 \<Rightarrow> f64 \<Rightarrow> string \<Rightarrow> live_entry" where
  "skip_entry ex kol visibility token bnb gas_gwei wallet_bnb reason =
     \<lparr>le_phase = phase_label ex, le_kol_name = kol, le_visibility = leak_str visibility,
      le_token_address = token, le_token_symbol = [], le_bnb_in_wei = bnb, le_gas_gwei = gas_gwei,
      le_nonce = 0, le_tx_hash = 0, le_wallet_bnb = wallet_bnb, le_broadcast = False,
      le_limit_skip_reason = Some reason\<rparr>"

definition log_entry :: "platform \<Rightarrow> readings \<Rightarrow> live_entry \<Rightarrow> executor \<Rightarrow> executor" where
  "log_entry pf rd e ex = ex\<lparr>ex_ledger := ledger_append (pf_rows pf) (rd_unix_ns rd) e (ex_ledger ex)\<rparr>"

text \<open>How a run of \<open>execute\<close> ended; every one of them is \<open>Ok(())\<close> for the caller.\<close>

datatype buy_outcome =
    NotAnEntry
  | Skipped string
  | SignFailed
  | BroadcastFailed
  | Shadowed tx_request
  | Broadcast tx_request

text \<open>Stage 9, the call per route: target, gas limit and calldata.\<close>

definition build_buy ::
  "platform \<Rightarrow> readings \<Rightarrow> buy_route \<Rightarrow> address \<Rightarrow> u256 \<Rightarrow> executor \<Rightarrow> address \<times> u64 \<times> call_data" where
  "build_buy pf rd route token bnb ex =
     (let slip_bps = (ucast (hl_slippage_bps (lc_limits (lr_cfg (ex_limits ex)))) :: u64) in
      case route of
        PancakeV2 \<Rightarrow>
          let path = [WBNB, token];
              deadline = ucast (rd_unix_secs rd + DEADLINE_SECS);
              expected_out = (case get_amounts_out_v2 pf rd bnb path of Some a \<Rightarrow> a | None \<Rightarrow> 0);
              amount_out_min = apply_slippage expected_out slip_bps
          in (PANCAKE_V2_ROUTER, SWAP_GAS_LIMIT,
              SwapExactETHForTokens amount_out_min path (ex_wallet ex) deadline)
      | FourMeme \<Rightarrow> (FOURMEME, FOURMEME_GAS_LIMIT, BuyTokenAMAP token bnb 0))"

definition reserve_nonce :: "executor \<Rightarrow> u64 \<times> executor" where
  "reserve_nonce ex = (case reserve (ex_nonce ex) of (n, wr, m) \<Rightarrow>
     (n, ex\<lparr>ex_nonce := m,
            ex_disk_writes := ex_disk_writes ex @ (case wr of None \<Rightarrow> [] | Some t \<Rightarrow> [t])\<rparr>))"

definition resync_nonce :: "readings \<Rightarrow> executor \<Rightarrow> executor" where
  "resync_nonce rd ex = ex\<lparr>ex_nonce := snd (resync (ex_nonce ex) (rd_chain_nonce rd))\<rparr>"

definition make_tx ::
  "executor \<Rightarrow> address \<Rightarrow> u256 \<Rightarrow> call_data \<Rightarrow> u64 \<Rightarrow> u128 \<Rightarrow> u64 \<Rightarrow> tx_request" where
  "make_tx ex target val calldata gas_limit gas_w nonce =
     \<lparr>tx_from = ex_wallet ex, tx_to = target, tx_value = val, tx_input = calldata,
      tx_gas_limit = gas_limit, tx_max_fee = gas_w, tx_priority_fee = gas_w,
      tx_nonce = nonce, tx_chain_id = BSC_CHAIN_ID\<rparr>"

text \<open>
  Handing a signed transaction to the node and the relays. Whatever the verdict, the
  bytes have left the process.
\<close>

definition broadcast :: "platform \<Rightarrow> readings \<Rightarrow> tx_request \<Rightarrow> executor \<Rightarrow> (submit_error + unit) \<times> executor" where
  "broadcast pf rd tx ex =
     (broadcast_result (pf_json_text pf) (rd_submit rd tx), ex\<lparr>ex_sent := ex_sent ex @ [tx]\<rparr>)"

definition live_mode :: "executor \<Rightarrow> bool" where
  "live_mode ex \<longleftrightarrow> broadcast_enabled (lc_phase (lr_cfg (ex_limits ex)))"

text \<open>Stages 10 and 11: nonce, signature, broadcast or shadow, ledger, counters, position.\<close>

definition bought_entry ::
  "executor \<Rightarrow> string \<Rightarrow> string \<Rightarrow> address \<Rightarrow> u256 \<Rightarrow> u64 \<Rightarrow> u64 \<Rightarrow> b256 \<Rightarrow> f64 \<Rightarrow> bool \<Rightarrow> live_entry" where
  "bought_entry ex kol visibility token bnb gas_gwei nonce hash wallet_bnb bcast =
     \<lparr>le_phase = phase_label ex, le_kol_name = kol, le_visibility = leak_str visibility,
      le_token_address = token, le_token_symbol = [], le_bnb_in_wei = bnb, le_gas_gwei = gas_gwei,
      le_nonce = nonce, le_tx_hash = hash, le_wallet_bnb = wallet_bnb, le_broadcast = bcast,
      le_limit_skip_reason = None\<rparr>"

definition insert_position :: "int \<Rightarrow> address \<Rightarrow> b256 \<Rightarrow> buy_route \<Rightarrow> u256 \<Rightarrow> executor \<Rightarrow> executor" where
  "insert_position now token hash route bnb ex =
     ex\<lparr>ex_entries := ex_entries ex @ [\<lparr>pe_route = route, pe_tokens_bought = 0, pe_bnb_in = bnb,
          pe_approved = False, pe_opened_at = now\<rparr>],
        ex_positions := (ex_positions ex)(token \<mapsto> length (ex_entries ex)),
        ex_spawned := ex_spawned ex @ [\<lparr>bg_token = token, bg_buy_hash = hash, bg_route = route,
          bg_entry = length (ex_entries ex)\<rparr>]\<rparr>"

definition finish_buy ::
  "platform \<Rightarrow> readings \<Rightarrow> live_entry \<Rightarrow> executor \<Rightarrow> executor" where
  "finish_buy pf rd e ex =
     (let ex1 = log_entry pf rd e ex
      in ex1\<lparr>ex_ledger := record_opened (ex_ledger ex1),
             ex_limits := record_trade_fired (ex_limits ex1)\<rparr>)"

definition send_buy ::
  "platform \<Rightarrow> readings \<Rightarrow> string \<Rightarrow> string \<Rightarrow> address \<Rightarrow> u256 \<Rightarrow> buy_route \<Rightarrow> u128 \<Rightarrow> f64
     \<Rightarrow> executor \<Rightarrow> buy_outcome \<times> executor" where
  "send_buy pf rd kol visibility token bnb route gas_w wallet_bnb ex =
     (let (target, gas_limit, calldata) = build_buy pf rd route token bnb ex;
          (nonce, ex1) = reserve_nonce ex;
          tx = make_tx ex1 target bnb calldata gas_limit gas_w nonce
      in case pf_sign pf tx of
           None \<Rightarrow> (SignFailed, resync_nonce rd ex1)
         | Some hash \<Rightarrow>
             if live_mode ex1 then
               (case broadcast pf rd tx ex1 of
                  (Inl _, ex2) \<Rightarrow> (BroadcastFailed, resync_nonce rd ex2)
                | (Inr _, ex2) \<Rightarrow>
                    (Broadcast tx, insert_position (rd_instant rd) token hash route bnb
                       (finish_buy pf rd (bought_entry ex2 kol visibility token bnb (gas_gwei_of gas_w)
                          nonce hash wallet_bnb True) ex2)))
             else
               (Shadowed tx, finish_buy pf rd (bought_entry ex1 kol visibility token bnb
                  (gas_gwei_of gas_w) nonce hash wallet_bnb False) ex1))"

text \<open>Stages 7 and 8: the route and, on V2, the sell-tax check.\<close>

definition tax_reason :: "u64 \<Rightarrow> string" where
  "tax_reason t = ''sell_tax_'' @ show_nat (unat t) @ ''bps''"

definition sell_tax_gate :: "platform \<Rightarrow> readings \<Rightarrow> buy_route \<Rightarrow> address \<Rightarrow> u256 \<Rightarrow> executor \<Rightarrow> u64 option" where
  "sell_tax_gate pf rd route token bnb ex =
     (let max_tax = (ucast (tp_max_sell_tax_bps (lc_tokens (lr_cfg (ex_limits ex)))) :: u64) in
      if route = PancakeV2 then
        (case implied_sell_tax_bps_v2 pf rd token bnb of
           Some t \<Rightarrow> if max_tax < t then Some t else None
         | None \<Rightarrow> None)
      else None)"

definition route_and_send ::
  "platform \<Rightarrow> readings \<Rightarrow> string \<Rightarrow> string \<Rightarrow> address \<Rightarrow> u256 \<Rightarrow> u128 \<Rightarrow> f64 \<Rightarrow> executor \<Rightarrow> buy_outcome \<times> executor" where
  "route_and_send pf rd kol visibility token bnb gas_w wallet_bnb ex =
     (case pick_route pf rd 0 token ActBuy ex of
        (None, ex1) \<Rightarrow> (Skipped ''unknown_venue'',
           log_entry pf rd (skip_entry ex1 kol visibility token bnb 0 wallet_bnb ''unknown_venue'') ex1)
      | (Some route, ex1) \<Rightarrow>
          (case sell_tax_gate pf rd route token bnb ex1 of
             Some t \<Rightarrow> (Skipped (tax_reason t),
               log_entry pf rd (skip_entry ex1 kol visibility token bnb 0 wallet_bnb (tax_reason t)) ex1)
           | None \<Rightarrow> send_buy pf rd kol visibility token bnb route gas_w wallet_bnb ex1))"

text \<open>Stages 4 to 6: clamp, gas price, limits gate.\<close>

definition limits_and_send ::
  "platform \<Rightarrow> readings \<Rightarrow> string \<Rightarrow> string \<Rightarrow> address \<Rightarrow> u256 \<Rightarrow> u32 \<Rightarrow> executor \<Rightarrow> buy_outcome \<times> executor" where
  "limits_and_send pf rd kol visibility token bnb_amount open_positions ex =
     (let (bnb_in_f, bnb) = clamp_to_cap (trade_cap (ex_limits ex)) bnb_amount;
          wallet_bnb = wallet_balance_bnb_cached ex;
          (observed, ex1) = gas_wei (rd_instant rd) (rd_gas rd 0) ex;
          gas_w = buy_gas_wei observed;
          chk = \<lparr>tk_kol_name = kol, tk_visibility = visibility, tk_bnb_amount = bnb_in_f,
                 tk_current_open_positions = open_positions, tk_current_wallet_bnb = wallet_bnb,
                 tk_current_gas_gwei = gas_gwei_of gas_w\<rparr>;
          (lim, verdict) = limits_check (ex_limits ex1) chk (rd_unix_ms rd);
          ex2 = ex1\<lparr>ex_limits := lim\<rparr>
      in case verdict of
           Inl why \<Rightarrow> (Skipped (limit_label why), log_entry pf rd (skip_entry ex2 kol visibility token bnb
               (gas_gwei_of gas_w) wallet_bnb (limit_label why)) ex2)
         | Inr _ \<Rightarrow> route_and_send pf rd kol visibility token bnb gas_w wallet_bnb ex2)"

text \<open>The handler: stages 1 to 3, then the rest.\<close>

definition execute ::
  "platform \<Rightarrow> readings \<Rightarrow> decision \<Rightarrow> string \<Rightarrow> u32 \<Rightarrow> executor \<Rightarrow> buy_outcome \<times> executor" where
  "execute pf rd dec visibility open_positions ex =
     (case dec of
        Enter kol token amount _ _ _ \<Rightarrow>
          (case dup_guard token ex of
             None \<Rightarrow> (Skipped ''dup_entry'', ex)
           | Some ex1 \<Rightarrow>
               (case usd_sizing (lc_strategy (lr_cfg (ex_limits ex1))) (rd_bnb_usd rd) visibility amount of
                  None \<Rightarrow> (Skipped ''private_disabled'', ex1)
                | Some (sized, _) \<Rightarrow>
                    if check_blacklisted (ex_blacklist ex1) token
                    then (Skipped ''blacklisted_token'', log_entry pf rd (skip_entry ex1 kol visibility
                            token sized 0 (Fin 0) ''blacklisted_token'') ex1)
                    else limits_and_send pf rd kol visibility token sized open_positions ex1))
      | _ \<Rightarrow> (NotAnEntry, ex))"

end
