(* ===== verification/ExecutorBuy.thy ===== *)
theory ExecutorBuy
  imports Executor
begin

text \<open>
  What the buy pipeline of \<open>Executor\<close> guarantees: the stages are inverted one by one (every
  way a stage can end, with what it leaves unchanged), and the properties of \<open>execute\<close>
  follow from these inversions.
\<close>

named_theorems exec_frame \<open>what the helper stages leave unchanged\<close>

section \<open>Frames of the helpers\<close>

lemma log_entry_frame [exec_frame, simp]:
  "ex_sent (log_entry pf rd e ex) = ex_sent ex"
  "ex_positions (log_entry pf rd e ex) = ex_positions ex"
  "ex_entries (log_entry pf rd e ex) = ex_entries ex"
  "ex_nonce (log_entry pf rd e ex) = ex_nonce ex"
  "ex_limits (log_entry pf rd e ex) = ex_limits ex"
  "ex_spawned (log_entry pf rd e ex) = ex_spawned ex"
  by (simp_all add: log_entry_def)

lemma resync_nonce_frame [exec_frame, simp]:
  "ex_sent (resync_nonce rd ex) = ex_sent ex"
  "ex_positions (resync_nonce rd ex) = ex_positions ex"
  "ex_entries (resync_nonce rd ex) = ex_entries ex"
  "ex_limits (resync_nonce rd ex) = ex_limits ex"
  "ex_spawned (resync_nonce rd ex) = ex_spawned ex"
  by (simp_all add: resync_nonce_def)

lemma reserve_nonce_frame [exec_frame]:
  assumes "reserve_nonce ex = (n, ex')"
  shows "n = nm_current (ex_nonce ex)" "nm_current (ex_nonce ex') = n + 1"
    "ex_sent ex' = ex_sent ex" "ex_positions ex' = ex_positions ex" "ex_entries ex' = ex_entries ex"
    "ex_limits ex' = ex_limits ex" "ex_wallet ex' = ex_wallet ex" "ex_ledger ex' = ex_ledger ex"
    "ex_spawned ex' = ex_spawned ex"
  using assms by (auto simp: reserve_nonce_def reserve_def Let_def)

lemma gas_wei_frame [exec_frame]:
  assumes "gas_wei now r ex = (g, ex')"
  shows "ex_sent ex' = ex_sent ex" "ex_positions ex' = ex_positions ex" "ex_entries ex' = ex_entries ex"
    "ex_limits ex' = ex_limits ex" "ex_wallet ex' = ex_wallet ex" "ex_nonce ex' = ex_nonce ex"
    "ex_ledger ex' = ex_ledger ex" "ex_pair_cache ex' = ex_pair_cache ex"
    "ex_spawned ex' = ex_spawned ex" "ex_blacklist ex' = ex_blacklist ex"
  using assms by (auto simp: gas_wei_def Let_def split: if_splits option.splits)

lemma v2_pair_cached_frame [exec_frame]:
  assumes "v2_pair_cached pf now r token ex = (p, ex')"
  shows "ex_sent ex' = ex_sent ex" "ex_positions ex' = ex_positions ex" "ex_entries ex' = ex_entries ex"
    "ex_limits ex' = ex_limits ex" "ex_wallet ex' = ex_wallet ex" "ex_nonce ex' = ex_nonce ex"
    "ex_ledger ex' = ex_ledger ex" "ex_spawned ex' = ex_spawned ex"
  using assms by (auto simp: v2_pair_cached_def Let_def split: option.splits)

lemma pick_route_frame [exec_frame]:
  assumes "pick_route pf rd k token a ex = (r, ex')"
  shows "ex_sent ex' = ex_sent ex" "ex_positions ex' = ex_positions ex" "ex_entries ex' = ex_entries ex"
    "ex_limits ex' = ex_limits ex" "ex_wallet ex' = ex_wallet ex" "ex_nonce ex' = ex_nonce ex"
    "ex_ledger ex' = ex_ledger ex" "ex_spawned ex' = ex_spawned ex"
proof -
  obtain p ex1 where v: "v2_pair_cached pf (rd_instant rd) (rd_pair rd) token ex = (p, ex1)"
    by fastforce
  have "ex' = ex1" using assms v by (auto simp: pick_route_def Let_def split: option.splits)
  then show "ex_sent ex' = ex_sent ex" "ex_positions ex' = ex_positions ex" "ex_entries ex' = ex_entries ex"
    "ex_limits ex' = ex_limits ex" "ex_wallet ex' = ex_wallet ex" "ex_nonce ex' = ex_nonce ex"
    "ex_ledger ex' = ex_ledger ex" "ex_spawned ex' = ex_spawned ex"
    using v2_pair_cached_frame [OF v] by simp_all
qed

lemma dup_guard_cases:
  assumes "dup_guard token ex = Some ex'"
  shows "(entry_at ex token = None \<and> ex' = ex)
    \<or> (\<exists>e. entry_at ex token = Some e \<and> pe_tokens_bought e = 0 \<and> pe_approved e \<and> ex' = drop_position token ex)"
  using assms by (auto simp: dup_guard_def split: option.splits if_splits)

lemma drop_position_frame [exec_frame, simp]:
  "ex_sent (drop_position token ex) = ex_sent ex"
  "ex_limits (drop_position token ex) = ex_limits ex"
  "ex_nonce (drop_position token ex) = ex_nonce ex"
  "ex_wallet (drop_position token ex) = ex_wallet ex"
  "ex_entries (drop_position token ex) = ex_entries ex"
  "ex_blacklist (drop_position token ex) = ex_blacklist ex"
  "ex_ledger (drop_position token ex) = ex_ledger ex"
  "ex_spawned (drop_position token ex) = ex_spawned ex"
  "ex_positions (drop_position token ex) token = None"
  "wallet_balance_bnb_cached (drop_position token ex) = wallet_balance_bnb_cached ex"
  by (simp_all add: drop_position_def wallet_balance_bnb_cached_def)

section \<open>The transaction of a buy\<close>

definition planned_buy ::
  "platform \<Rightarrow> readings \<Rightarrow> buy_route \<Rightarrow> address \<Rightarrow> u256 \<Rightarrow> u128 \<Rightarrow> executor \<Rightarrow> tx_request" where
  "planned_buy pf rd route token bnb gas_w ex =
     (case build_buy pf rd route token bnb ex of (target, gas_limit, calldata) \<Rightarrow>
        make_tx ex target bnb calldata gas_limit gas_w (nm_current (ex_nonce ex)))"

fun tx_outcome :: "buy_outcome \<Rightarrow> bool" where
  "tx_outcome SignFailed = True"
| "tx_outcome BroadcastFailed = True"
| "tx_outcome (Shadowed _) = True"
| "tx_outcome (Broadcast _) = True"
| "tx_outcome _ = False"

lemma make_tx_wallet: "ex_wallet ex1 = ex_wallet ex \<Longrightarrow> make_tx ex1 = make_tx ex"
  by (intro ext) (simp add: make_tx_def)

lemma send_buy_cases:
  assumes "send_buy pf rd kol vis token bnb route g wb ex = (out, ex')"
  defines "tx \<equiv> planned_buy pf rd route token bnb g ex"
  shows "tx_outcome out \<and> tx_nonce tx = nm_current (ex_nonce ex)
    \<and> (case out of
         SignFailed \<Rightarrow> pf_sign pf tx = None \<and> ex_sent ex' = ex_sent ex \<and> ex_positions ex' = ex_positions ex
       | BroadcastFailed \<Rightarrow> live_mode ex \<and> ex_sent ex' = ex_sent ex @ [tx] \<and> ex_positions ex' = ex_positions ex
       | Shadowed t \<Rightarrow> t = tx \<and> \<not> live_mode ex \<and> ex_sent ex' = ex_sent ex \<and> ex_positions ex' = ex_positions ex
       | Broadcast t \<Rightarrow> t = tx \<and> live_mode ex \<and> ex_sent ex' = ex_sent ex @ [tx]
           \<and> ex_positions ex' = (ex_positions ex)(token \<mapsto> length (ex_entries ex))
           \<and> ex_entries ex' = ex_entries ex @ [\<lparr>pe_route = route, pe_tokens_bought = 0, pe_bnb_in = bnb,
                pe_approved = False, pe_opened_at = rd_instant rd\<rparr>]
       | _ \<Rightarrow> False)"
proof -
  obtain target gl cd where b: "build_buy pf rd route token bnb ex = (target, gl, cd)"
    by (cases "build_buy pf rd route token bnb ex") auto
  obtain n ex1 where r: "reserve_nonce ex = (n, ex1)" by fastforce
  note f = reserve_nonce_frame [OF r]
  have tx: "make_tx ex1 target bnb cd gl g n = tx"
    using f by (simp add: tx_def planned_buy_def b make_tx_wallet [OF f(7)])
  have live: "live_mode ex1 = live_mode ex" using f by (simp add: live_mode_def)
  have n: "tx_nonce tx = nm_current (ex_nonce ex)"
    by (simp add: tx_def planned_buy_def b make_tx_def)
  show ?thesis
    using assms(1) f n
    by (auto simp: send_buy_def b r tx tx [unfolded f(1)] live broadcast_def finish_buy_def insert_position_def Let_def
        split: option.splits if_splits sum.splits)
qed

section \<open>Inversion of the pipeline\<close>

lemma route_and_send_cases:
  assumes "route_and_send pf rd kol vis token bnb g wb ex = (out, ex')"
  shows "(\<exists>reason. out = Skipped reason \<and> ex_sent ex' = ex_sent ex \<and> ex_nonce ex' = ex_nonce ex
            \<and> ex_positions ex' = ex_positions ex)
    \<or> (\<exists>route ex1. pick_route pf rd 0 token ActBuy ex = (Some route, ex1)
         \<and> sell_tax_gate pf rd route token bnb ex1 = None
         \<and> send_buy pf rd kol vis token bnb route g wb ex1 = (out, ex'))"
proof -
  obtain r ex1 where p: "pick_route pf rd 0 token ActBuy ex = (r, ex1)" by fastforce
  show ?thesis
  proof (cases r)
    case None
    then show ?thesis using assms p pick_route_frame [OF p] by (auto simp: route_and_send_def)
  next
    case (Some route)
    then show ?thesis
      using assms p pick_route_frame [OF p] by (auto simp: route_and_send_def split: option.splits)
  qed
qed

definition buy_check :: "readings \<Rightarrow> string \<Rightarrow> string \<Rightarrow> f64 \<Rightarrow> u32 \<Rightarrow> executor \<Rightarrow> trade_check" where
  "buy_check rd kol vis bnb_in_f op ex =
     \<lparr>tk_kol_name = kol, tk_visibility = vis, tk_bnb_amount = bnb_in_f, tk_current_open_positions = op,
      tk_current_wallet_bnb = wallet_balance_bnb_cached ex,
      tk_current_gas_gwei = gas_gwei_of (buy_gas_wei (fst (gas_wei (rd_instant rd) (rd_gas rd 0) ex)))\<rparr>"

lemma limits_and_send_cases:
  assumes "limits_and_send pf rd kol vis token amount op ex = (out, ex')"
  shows "(\<exists>reason. out = Skipped reason \<and> ex_sent ex' = ex_sent ex \<and> ex_nonce ex' = ex_nonce ex
            \<and> ex_positions ex' = ex_positions ex)
    \<or> (\<exists>ex1 lim u. limits_check (ex_limits ex) (buy_check rd kol vis
              (fst (clamp_to_cap (trade_cap (ex_limits ex)) amount)) op ex) (rd_unix_ms rd) = (lim, Inr u)
         \<and> gas_wei (rd_instant rd) (rd_gas rd 0) ex
             = (fst (gas_wei (rd_instant rd) (rd_gas rd 0) ex), ex1)
         \<and> route_and_send pf rd kol vis token (snd (clamp_to_cap (trade_cap (ex_limits ex)) amount))
             (buy_gas_wei (fst (gas_wei (rd_instant rd) (rd_gas rd 0) ex)))
             (wallet_balance_bnb_cached ex) (ex1\<lparr>ex_limits := lim\<rparr>) = (out, ex'))"
proof -
  obtain f bnb where c: "clamp_to_cap (trade_cap (ex_limits ex)) amount = (f, bnb)" by fastforce
  obtain g ex1 where gw: "gas_wei (rd_instant rd) (rd_gas rd 0) ex = (g, ex1)" by fastforce
  note fr = gas_wei_frame [OF gw]
  obtain lim v where l: "limits_check (ex_limits ex) (buy_check rd kol vis f op ex) (rd_unix_ms rd) = (lim, v)"
    by fastforce
  show ?thesis
    using assms fr l
    by (cases v) (auto simp: limits_and_send_def buy_check_def c gw Let_def)
qed

lemma limits_check_cfg: "lr_cfg (fst (limits_check r t now)) = lr_cfg r"
  by (simp add: limits_check_def maybe_reset_day_def Let_def)

text \<open>The inversion of the whole handler: a transaction implies every gate.\<close>

lemma execute_tx_cases:
  assumes "execute pf rd dec vis op ex = (out, ex')" and "tx_outcome out"
  obtains kol token amount kb blk h ex0 sized tag ex1 lim route ex2 where
    "dec = Enter kol token amount kb blk h" "dup_guard token ex = Some ex0"
    "usd_sizing (lc_strategy (lr_cfg (ex_limits ex))) (rd_bnb_usd rd) vis amount = Some (sized, tag)"
    "\<not> check_blacklisted (ex_blacklist ex) token"
    "limits_check (ex_limits ex) (buy_check rd kol vis
        (fst (clamp_to_cap (trade_cap (ex_limits ex)) sized)) op ex0) (rd_unix_ms rd) = (lim, Inr ())"
    "pick_route pf rd 0 token ActBuy (ex1\<lparr>ex_limits := lim\<rparr>) = (Some route, ex2)"
    "sell_tax_gate pf rd route token (snd (clamp_to_cap (trade_cap (ex_limits ex)) sized)) ex2 = None"
    "send_buy pf rd kol vis token (snd (clamp_to_cap (trade_cap (ex_limits ex)) sized)) route
        (buy_gas_wei (fst (gas_wei (rd_instant rd) (rd_gas rd 0) ex0))) (wallet_balance_bnb_cached ex0) ex2
        = (out, ex')"
    "lr_cfg (ex_limits ex2) = lr_cfg (ex_limits ex)" "ex_sent ex2 = ex_sent ex"
    "ex_wallet ex2 = ex_wallet ex" "ex_nonce ex2 = ex_nonce ex" "ex_entries ex2 = ex_entries ex"
    "ex_positions ex2 = ex_positions ex0"
proof -
  from assms obtain kol token amount kb blk h ex0 sized tag where d:
    "dec = Enter kol token amount kb blk h" "dup_guard token ex = Some ex0"
    "usd_sizing (lc_strategy (lr_cfg (ex_limits ex0))) (rd_bnb_usd rd) vis amount = Some (sized, tag)"
    "\<not> check_blacklisted (ex_blacklist ex0) token"
    "limits_and_send pf rd kol vis token sized op ex0 = (out, ex')"
    by (auto simp: execute_def split: decision.splits option.splits if_splits)
  have ex0: "ex0 = ex \<or> ex0 = drop_position token ex" using dup_guard_cases [OF d(2)] by blast
  then have fr0: "ex_limits ex0 = ex_limits ex" "ex_sent ex0 = ex_sent ex" "ex_wallet ex0 = ex_wallet ex"
    "ex_nonce ex0 = ex_nonce ex" "ex_entries ex0 = ex_entries ex" "ex_blacklist ex0 = ex_blacklist ex"
    by auto
  from limits_and_send_cases [OF d(5)] assms(2) obtain ex1 lim u where l:
    "limits_check (ex_limits ex0) (buy_check rd kol vis
        (fst (clamp_to_cap (trade_cap (ex_limits ex0)) sized)) op ex0) (rd_unix_ms rd) = (lim, Inr u)"
    "gas_wei (rd_instant rd) (rd_gas rd 0) ex0 = (fst (gas_wei (rd_instant rd) (rd_gas rd 0) ex0), ex1)"
    "route_and_send pf rd kol vis token (snd (clamp_to_cap (trade_cap (ex_limits ex0)) sized))
        (buy_gas_wei (fst (gas_wei (rd_instant rd) (rd_gas rd 0) ex0))) (wallet_balance_bnb_cached ex0)
        (ex1\<lparr>ex_limits := lim\<rparr>) = (out, ex')"
    by auto
  note fr1 = gas_wei_frame [OF l(2)]
  from route_and_send_cases [OF l(3)] assms(2) obtain route ex2 where r:
    "pick_route pf rd 0 token ActBuy (ex1\<lparr>ex_limits := lim\<rparr>) = (Some route, ex2)"
    "sell_tax_gate pf rd route token (snd (clamp_to_cap (trade_cap (ex_limits ex0)) sized)) ex2 = None"
    "send_buy pf rd kol vis token (snd (clamp_to_cap (trade_cap (ex_limits ex0)) sized)) route
        (buy_gas_wei (fst (gas_wei (rd_instant rd) (rd_gas rd 0) ex0))) (wallet_balance_bnb_cached ex0) ex2
        = (out, ex')"
    by auto
  note fr2 = pick_route_frame [OF r(1)]
  have "lr_cfg lim = lr_cfg (ex_limits ex)"
    using limits_check_cfg [of "ex_limits ex0"] l(1) fr0(1) by (metis fst_conv)
  then show thesis
    using that d l(1) r fr0 fr1 fr2 by simp
qed

section \<open>Effects of a run\<close>

lemma skip_effects:
  assumes "execute pf rd dec vis op ex = (out, ex')" and "\<not> tx_outcome out"
  shows "ex_sent ex' = ex_sent ex \<and> ex_nonce ex' = ex_nonce ex"
proof (cases dec)
  case (Enter kol token amount kb blk h)
  show ?thesis
  proof (cases "dup_guard token ex")
    case None
    then show ?thesis using assms(1) Enter by (simp add: execute_def)
  next
    case (Some ex0)
    then have fr: "ex_sent ex0 = ex_sent ex" "ex_nonce ex0 = ex_nonce ex"
      using dup_guard_cases [OF Some] by auto
    have tail: "ex_sent x = ex_sent ex0 \<and> ex_nonce x = ex_nonce ex0"
      if las: "limits_and_send pf rd kol vis token sized op ex0 = (out, x)" for sized x
    proof -
      from limits_and_send_cases [OF las] show ?thesis
      proof (elim disjE exE conjE)
        fix ex1 lim u
        assume g: "gas_wei (rd_instant rd) (rd_gas rd 0) ex0 = (fst (gas_wei (rd_instant rd) (rd_gas rd 0) ex0), ex1)"
          and r: "route_and_send pf rd kol vis token (snd (clamp_to_cap (trade_cap (ex_limits ex0)) sized))
             (buy_gas_wei (fst (gas_wei (rd_instant rd) (rd_gas rd 0) ex0)))
             (wallet_balance_bnb_cached ex0) (ex1\<lparr>ex_limits := lim\<rparr>) = (out, x)"
        from route_and_send_cases [OF r] gas_wei_frame [OF g] assms(2) show ?thesis
          by (auto dest: send_buy_cases)
      qed simp
    qed
    show ?thesis
      using assms(1) Enter Some fr tail
      by (auto simp: execute_def split: option.splits if_splits dest!: tail)
  qed
qed (use assms in \<open>simp_all add: execute_def\<close>)

lemma broadcast_sent:
  assumes "execute pf rd dec vis op ex = (Broadcast tx, ex')"
  shows "ex_sent ex' = ex_sent ex @ [tx]"
proof (rule execute_tx_cases [OF assms])
  fix kol token sized ex0 ex2 route
  assume s: "send_buy pf rd kol vis token (snd (clamp_to_cap (trade_cap (ex_limits ex)) sized)) route
        (buy_gas_wei (fst (gas_wei (rd_instant rd) (rd_gas rd 0) ex0))) (wallet_balance_bnb_cached ex0) ex2
        = (Broadcast tx, ex')" and eq: "ex_sent ex2 = ex_sent ex"
  then show ?thesis using send_buy_cases [OF s] by simp
qed simp

section \<open>Rounding of amounts\<close>

lemma flit_wei: "flit (10 ^ 18) = Fin (10 ^ 18)"
  using rnd_dyadic [of "5 ^ 18" 18] by (simp add: flit_def)

lemma f64_of_u256: "\<exists>r. f64_of_word (w :: u256) = Fin r \<and> of_int (uint w) * (1 - 1 / 2 ^ 53) \<le> r"
proof (cases "uint w = 0")
  case True
  then show ?thesis by (simp add: f64_of_word_def f64_of_int_def)
next
  case False
  have pos: "1 \<le> uint w" using False uint_ge_0 [of w] by linarith
  then have "(of_int 1 :: rat) \<le> of_int (uint w)" by (simp only: of_int_le_iff)
  moreover have "2 powi (- 1022) \<le> (1 :: rat)" using two_powi_mono [of "- 1022" 0] by simp
  ultimately have big: "2 powi (- 1022) \<le> (of_int (uint w) :: rat)" by (simp only: of_int_1)
  have "uint w < 2 ^ 256" using uint_lt2p [of w] by simp
  then have "(of_int (uint w) :: rat) < of_int (2 ^ 256)" by (simp only: of_int_less_iff)
  then have "(of_int (uint w) :: rat) < 2 ^ 256" by simp
  then have "rnd_fin (of_int (uint w)) \<le> 2 ^ 256 * (1 + 1 / 2 ^ 53)"
    by (intro order_trans [OF rnd_fin_rel(2) [OF big] mult_right_mono]) simp_all
  then have "rnd_fin (of_int (uint w)) < 2 ^ 1024"
    by (rule order.strict_trans1) (simp add: field_simps)
  moreover have "0 \<le> rnd_fin (of_int (uint w))" by (rule rnd_fin_nonneg) (simp del: of_int_uint)
  then have "- (2 ^ 1024) < rnd_fin (of_int (uint w))"
    by (rule order.strict_trans2 [rotated]) simp
  ultimately have "f64_of_word w = Fin (rnd_fin (of_int (uint w)))"
    by (simp add: f64_of_word_def f64_of_int_def rnd_def Let_def)
  then show ?thesis using rnd_fin_rel(1) [OF big] by blast
qed

lemma uint_f64_to_u128: "of_int (uint (f64_to_word (rnd y) :: u128)) \<le> max 0 (rnd_fin y)"
proof -
  have top: "(of_int (uint (w :: u128)) :: rat) \<le> 2 ^ 128" for w
  proof -
    have "uint w \<le> 2 ^ 128" using uint_lt2p [of w] by simp
    then have "(of_int (uint w) :: rat) \<le> of_int (2 ^ 128)" by (simp only: of_int_le_iff)
    then show ?thesis by simp
  qed
  show ?thesis
  proof (cases "rnd y")
    case PInf
    then have "2 ^ 1024 \<le> rnd_fin y" by (simp add: rnd_def Let_def split: if_splits)
    moreover have "(2 :: rat) ^ 128 \<le> 2 ^ 1024" by simp
    ultimately show ?thesis using top [of "f64_to_word (rnd y)"] by linarith
  next
    case (Fin q)
    then have q: "q = rnd_fin y" by (simp add: rnd_def Let_def split: if_splits)
    show ?thesis
    proof (cases "trunc_rat q \<le> 0")
      case False
      then have "0 \<le> q" by (auto simp: trunc_rat_def split: if_splits)
      then have fl: "trunc_rat q = \<lfloor>q\<rfloor>" by (simp add: trunc_rat_def)
      have "uint (f64_to_word (Fin q) :: u128) \<le> \<lfloor>q\<rfloor>"
      proof (cases "2 ^ 128 \<le> \<lfloor>q\<rfloor>")
        case True
        have "uint (f64_to_word (Fin q) :: u128) < 2 ^ 128"
          using uint_lt2p [of "f64_to_word (Fin q) :: u128"] by (simp del: f64_to_word.simps)
        then show ?thesis using True by (rule less_imp_le [OF order.strict_trans2])
      next
        case nb: False
        then show ?thesis using False fl by (simp add: uint_word_of_int)
      qed
      then have "(of_int (uint (f64_to_word (Fin q) :: u128)) :: rat) \<le> of_int \<lfloor>q\<rfloor>"
        by (simp only: of_int_le_iff)
      also have "\<dots> \<le> q" by simp
      finally show ?thesis by (simp only: Fin q)
    qed (simp add: Fin)
  qed (simp_all add: rnd_def Let_def)
qed

lemma uint_ucast_u128_u256: "uint (ucast (w :: u128) :: u256) = uint w"
  using unat_ucast_u128_u256 [of w] by (metis uint_nat)

text \<open>The wei a buy can spend under a finite cap: the cap in wei, up to the rounding of \<open>f64\<close>.\<close>

lemma clamp_unclamped_bound:
  assumes "\<not> flt (Fin c) (wei_to_bnb w)"
  shows "of_int (uint w) \<le> max 0 c * 10 ^ 18 * (1 + 1 / 2 ^ 51)"
proof (cases "uint w = 0")
  case False
  obtain r where r: "f64_of_word w = Fin r" "of_int (uint w) * (1 - 1 / 2 ^ 53) \<le> r"
    using f64_of_u256 [of w] by blast
  let ?x = "of_int (uint w) :: rat"
  have "1 \<le> uint w" using False uint_ge_0 [of w] by linarith
  then have "(of_int 1 :: rat) \<le> ?x" by (simp only: of_int_le_iff)
  then have x: "1 \<le> ?x" by (simp only: of_int_1)
  then have "1 * (1 - 1 / 2 ^ 53) \<le> ?x * (1 - 1 / 2 ^ 53)" by (intro mult_right_mono) simp_all
  then have "1 * (1 - 1 / 2 ^ 53) \<le> r" using r(2) by (rule order_trans)
  moreover have "(1 / 2 :: rat) \<le> 1 * (1 - 1 / 2 ^ 53)" by simp
  ultimately have r1: "1 / 2 \<le> r" by (rule order_trans [rotated])
  have "(2 :: rat) powi (- 1022) \<le> 2 powi (- 64)" by (rule two_powi_mono) simp
  also have "\<dots> \<le> (1 / 2) / 10 ^ 18" by (simp add: power_int_minus)
  also have "\<dots> \<le> r / 10 ^ 18" using r1 by (intro divide_right_mono) simp_all
  finally have big: "2 powi (- 1022) \<le> r / 10 ^ 18" .
  let ?q = "rnd_fin (r / 10 ^ 18)"
  have q0: "0 \<le> ?q" using r1 by (intro rnd_fin_nonneg) simp
  have "wei_to_bnb w = rnd (r / 10 ^ 18)" by (simp only: wei_to_bnb_def r flit_wei fdiv.simps) simp
  with assms have q: "?q \<le> c"
    using q0 by (auto simp: rnd_def Let_def not_less split: if_splits)
  have "?x * (1 - 1 / 2 ^ 53) / 10 ^ 18 * (1 - 1 / 2 ^ 53) \<le> r / 10 ^ 18 * (1 - 1 / 2 ^ 53)"
    using r(2) by (intro mult_right_mono divide_right_mono) simp_all
  also have "\<dots> \<le> c" using rnd_fin_rel(1) [OF big] q by linarith
  finally have c: "?x * ((1 - 1 / 2 ^ 53) * (1 - 1 / 2 ^ 53)) \<le> c * 10 ^ 18"
    by (simp add: field_simps)
  have c0: "max 0 c = c" using q q0 by simp
  have "?x * 1 \<le> ?x * ((1 - 1 / 2 ^ 53) * (1 - 1 / 2 ^ 53) * (1 + 1 / 2 ^ 51))"
    using x by (intro mult_left_mono) simp_all
  also have "\<dots> = ?x * ((1 - 1 / 2 ^ 53) * (1 - 1 / 2 ^ 53)) * (1 + 1 / 2 ^ 51)"
    by (simp only: mult.assoc)
  also have "\<dots> \<le> c * 10 ^ 18 * (1 + 1 / 2 ^ 51)"
    using c by (intro mult_right_mono) simp_all
  finally show ?thesis using c0 by (simp only: mult_1_right)
qed simp

lemma clamp_clamped_bound:
  "of_int (uint (f64_to_word (rnd (c * 10 ^ 18)) :: u128)) \<le> max 0 c * 10 ^ 18 * (1 + 1 / 2 ^ 51)"
proof (cases "2 powi (- 1022) \<le> c * 10 ^ 18")
  case True
  then have c: "0 < c" using two_powi_pos [of "- 1022"] by (simp add: zero_less_mult_iff order.strict_trans1)
  have "max 0 (rnd_fin (c * 10 ^ 18)) \<le> c * 10 ^ 18 * (1 + 1 / 2 ^ 53)"
    using rnd_fin_rel(2) [OF True] c by simp
  also have "\<dots> \<le> c * 10 ^ 18 * (1 + 1 / 2 ^ 51)" using c by (intro mult_left_mono) simp_all
  finally have "max 0 (rnd_fin (c * 10 ^ 18)) \<le> max 0 c * 10 ^ 18 * (1 + 1 / 2 ^ 51)"
    using c by (simp only: max_absorb2 less_imp_le)
  then show ?thesis by (rule order_trans [OF uint_f64_to_u128])
next
  case False
  have "rnd_fin (c * 10 ^ 18) \<le> rnd_fin (2 powi (- 1022))"
    using False by (intro rnd_fin_mono) simp
  also have "\<dots> \<le> 2 powi (- 1022) * (1 + 1 / 2 ^ 53)" by (rule rnd_fin_rel) simp
  also have "\<dots> \<le> 2 powi (- 2) * 2" by (intro mult_mono two_powi_mono) simp_all
  also have "\<dots> < 1" by (simp add: power_int_minus)
  finally have "max 0 (rnd_fin (c * 10 ^ 18)) < 1" by simp
  then have "of_int (uint (f64_to_word (rnd (c * 10 ^ 18)) :: u128)) < (1 :: rat)"
    using uint_f64_to_u128 [of "c * 10 ^ 18"] by linarith
  then have "of_int (uint (f64_to_word (rnd (c * 10 ^ 18)) :: u128)) < (of_int 1 :: rat)"
    by (simp only: of_int_1)
  then have "uint (f64_to_word (rnd (c * 10 ^ 18)) :: u128) < 1" by (simp only: of_int_less_iff)
  then have "uint (f64_to_word (rnd (c * 10 ^ 18)) :: u128) = 0"
    using uint_ge_0 [of "f64_to_word (rnd (c * 10 ^ 18)) :: u128"] by linarith
  then show ?thesis by (simp only: of_int_0) simp
qed

lemma clamp_bound:
  "of_int (uint (snd (clamp_to_cap (Fin c) amount))) \<le> max 0 c * 10 ^ 18 * (1 + 1 / 2 ^ 51)"
proof (cases "flt (Fin c) (wei_to_bnb amount)")
  case True
  then show ?thesis
    using clamp_clamped_bound [of c]
    by (simp only: clamp_to_cap_def Let_def flit_wei fmul.simps uint_ucast_u128_u256 if_True snd_conv)
next
  case False
  then show ?thesis
    using clamp_unclamped_bound [OF False] by (simp add: clamp_to_cap_def Let_def del: of_int_uint)
qed

section \<open>A concrete executor\<close>

definition example_platform :: platform where
  "example_platform = \<lparr>pf_parse_u256 = (\<lambda>_. None), pf_hex_decode = (\<lambda>_. None), pf_json_text = (\<lambda>_. []),
     pf_rows = \<lparr>rf_address = (\<lambda>_. []), rf_hash = (\<lambda>_. []), rf_f6 = (\<lambda>_. [])\<rparr>, pf_sign = (\<lambda>_. Some 7)\<rparr>"

definition example_readings :: readings where
  "example_readings = \<lparr>rd_instant = 0, rd_unix_ms = 0, rd_unix_secs = 0, rd_unix_ns = 0,
     rd_bnb_usd = None, rd_gas = (\<lambda>_. SendFailed), rd_pair = SendFailed,
     rd_buy_probe = Reply (JObj [(''result'', JNull)]), rd_sell_probe = (\<lambda>_. Reply (JObj [])),
     rd_amounts_out = (\<lambda>_ _. SendFailed), rd_balance = SendFailed, rd_allowance = SendFailed,
     rd_balance_at = (\<lambda>_. SendFailed), rd_submit = (\<lambda>_ _. Reply (JObj [])), rd_chain_nonce = None\<rparr>"

definition example_executor :: executor where
  "example_executor = (executor_new 3 \<lparr>nm_current = 41, nm_persist = False\<rparr>
       (limits_new (example_limits\<lparr>lc_phase := \<lparr>ph_shadow = False, ph_tiny = False, ph_full = True\<rparr>\<rparr>) 0)
       (live_ledger_new Missing) None 0)
     \<lparr>ex_gas_cache := \<lparr>gc_wei = 10000000000, gc_refreshed = 0\<rparr>,
      ex_pair_cache := [5 \<mapsto> \<lparr>vc_pair = None, vc_cached_at = 0\<rparr>]\<rparr>"

definition example_enter :: decision where
  "example_enter = Enter ''D'' 5 1000000000000000000 1000000000000000000 0 9"

lemma example_wei: "wei_to_bnb 1000000000000000000 = Fin 1"
proof -
  have w: "f64_of_word (1000000000000000000 :: u256) = Fin (10 ^ 18)"
    using flit_wei by (simp add: f64_of_word_def f64_of_int_def flit_def)
  show ?thesis by (simp only: wei_to_bnb_def w flit_wei fdiv.simps) simp
qed

lemma example_gas: "gas_gwei_of (buy_gas_wei (Some 10000000000)) = 10"
  by (simp add: gas_gwei_of_def buy_gas_wei_def)

lemma example_broadcast:
  obtains tx ex' where
    "execute example_platform example_readings example_enter ''public'' 0 example_executor = (Broadcast tx, ex')"
    "tx_value tx = 1000000000000000000" "tx_nonce tx = 41"
proof -
  have cap: "trade_cap (ex_limits example_executor) = Fin 1"
    by (simp add: trade_cap_def example_executor_def executor_new_def limits_new_def
        effective_per_trade_max_bnb_def example_limits_def)
  have dg: "dup_guard 5 example_executor = Some example_executor"
    by (simp add: dup_guard_def entry_at_def example_executor_def executor_new_def)
  have us: "usd_sizing (lc_strategy (lr_cfg (ex_limits example_executor))) (rd_bnb_usd example_readings)
      ''public'' 1000000000000000000 = Some (1000000000000000000, ''fallback_no_price'')"
    by (simp add: usd_sizing_def example_executor_def executor_new_def limits_new_def
        example_limits_def example_readings_def)
  have bl: "\<not> check_blacklisted (ex_blacklist example_executor) 5"
    by (simp add: check_blacklisted_def example_executor_def executor_new_def is_blacklisted_def
        FALLBACK_BLACKLISTED_def)
  have cl: "clamp_to_cap (Fin 1) 1000000000000000000 = (Fin 1, 1000000000000000000)"
    by (simp add: clamp_to_cap_def Let_def example_wei)
  have gw: "gas_wei (rd_instant example_readings) (rd_gas example_readings 0) example_executor
      = (Some 10000000000, example_executor)"
    by (simp add: gas_wei_def example_executor_def example_readings_def elapsed_def GAS_PRICE_TTL_def)
  have lc: "limits_check (ex_limits example_executor) \<lparr>tk_kol_name = ''D'', tk_visibility = ''public'',
        tk_bnb_amount = Fin 1, tk_current_open_positions = 0,
        tk_current_wallet_bnb = wallet_balance_bnb_cached example_executor, tk_current_gas_gwei = 10\<rparr>
        (rd_unix_ms example_readings) = (ex_limits example_executor, Inr ())"
    by (simp add: limits_check_def maybe_reset_day_def run_gates_def example_executor_def executor_new_def
        limits_new_def daily_state_for_def day_of_ms_def cooldown_remaining_def trade_cap_def
        effective_per_trade_max_bnb_def example_limits_def example_readings_def
        wallet_balance_bnb_cached_def)
  have pr: "pick_route example_platform example_readings 0 5 ActBuy example_executor
      = (Some FourMeme, example_executor)"
    by (simp add: pick_route_def v2_pair_cached_def cached_pair_def example_executor_def elapsed_def
        V2_PAIR_NEG_TTL_def example_readings_def eth_call_succeeds_of_def)
  have br: "broadcast_result jt (\<lambda>_. Reply (JObj [])) = Inr ()" for jt
    by (simp add: broadcast_result_def submit_raw_unfold submit_verdict_def)
  have upd: "example_executor\<lparr>ex_limits := ex_limits example_executor\<rparr> = example_executor" by simp
  have live: "live_mode example_executor"
    by (simp add: live_mode_def example_executor_def executor_new_def limits_new_def broadcast_enabled_def)
  have las: "limits_and_send example_platform example_readings ''D'' ''public'' 5 1000000000000000000 0
      example_executor = send_buy example_platform example_readings ''D'' ''public'' 5 1000000000000000000
        FourMeme (buy_gas_wei (Some 10000000000)) (wallet_balance_bnb_cached example_executor) example_executor"
    by (simp add: limits_and_send_def cap cl gw lc example_gas upd route_and_send_def pr sell_tax_gate_def)
  obtain n ex1 where r: "reserve_nonce example_executor = (n, ex1)" by fastforce
  note f = reserve_nonce_frame [OF r]
  have live1: "live_mode ex1" using live f by (simp add: live_mode_def)
  have n: "n = 41" using f(1) by (simp add: example_executor_def executor_new_def)
  have sub: "rd_submit example_readings = (\<lambda>_ _. Reply (JObj []))"
    and sgn: "pf_sign example_platform = (\<lambda>_. Some 7)"
    by (simp_all add: example_readings_def example_platform_def)
  show thesis
    by (rule that)
      (simp_all add: execute_def example_enter_def dg us bl las send_buy_def build_buy_def r broadcast_def
        br sub sgn live1 Let_def make_tx_def n, simp_all)
qed

section \<open>Properties\<close>



text \<open>
  C1: The spending bound in wei: whatever the KOL, the price oracle and the sizing policy
  say, a transaction added by a buy carries at most the per-trade cap (0.001 BNB in tiny
  phase), up to the \<open>2 ^ -51\<close> relative rounding of the \<open>f64\<close> arithmetic; it is signed for the
  wallet's own address on chain 56 with the current nonce, at 10 gwei or more.
\<close>

theorem buy_spend_bounded:
  assumes "trade_cap (ex_limits ex) = Fin cap"
    and "tx \<in> set (ex_sent (snd (execute pf rd dec vis op ex)))" and "tx \<notin> set (ex_sent ex)"
  shows "of_int (uint (tx_value tx)) \<le> max 0 cap * 10 ^ 18 * (1 + 1 / 2 ^ 51)
    \<and> tx_from tx = ex_wallet ex \<and> tx_chain_id tx = 56 \<and> tx_nonce tx = nm_current (ex_nonce ex)
    \<and> 10000000000 \<le> tx_max_fee tx \<and> tx_to tx \<in> {PANCAKE_V2_ROUTER, FOURMEME}"
proof -
  obtain out ex' where e: "execute pf rd dec vis op ex = (out, ex')" by fastforce
  have "tx_outcome out"
  proof (rule ccontr)
    assume "\<not> tx_outcome out"
    then have "ex_sent ex' = ex_sent ex" using skip_effects [OF e] by simp
    then show False using assms(2,3) e by simp
  qed
  from e this show ?thesis
  proof (rule execute_tx_cases)
    fix kol token amount kb blk h ex0 sized tag ex1 lim route ex2
    assume s: "send_buy pf rd kol vis token (snd (clamp_to_cap (trade_cap (ex_limits ex)) sized)) route
        (buy_gas_wei (fst (gas_wei (rd_instant rd) (rd_gas rd 0) ex0))) (wallet_balance_bnb_cached ex0) ex2
        = (out, ex')"
      and eq: "ex_sent ex2 = ex_sent ex" "ex_wallet ex2 = ex_wallet ex" "ex_nonce ex2 = ex_nonce ex"
    let ?tx = "planned_buy pf rd route token (snd (clamp_to_cap (trade_cap (ex_limits ex)) sized))
        (buy_gas_wei (fst (gas_wei (rd_instant rd) (rd_gas rd 0) ex0))) ex2"
    have "tx = ?tx"
      using send_buy_cases [OF s] eq assms(2,3) e by (auto split: buy_outcome.splits)
    moreover have "10000000000 \<le> buy_gas_wei g" for g by (simp add: buy_gas_wei_def)
    ultimately show ?thesis
      using clamp_bound [of cap sized] eq assms(1)
      by (auto simp: planned_buy_def make_tx_def BSC_CHAIN_ID_def build_buy_def Let_def
          split: buy_route.splits)
  qed
qed

theorem buy_spend_bounded_witness:
  "\<exists>tx \<in> set (ex_sent (snd (execute example_platform example_readings example_enter ''public'' 0 example_executor))).
     of_int (uint (tx_value tx)) \<le> max 0 1 * 10 ^ 18 * ((1 :: rat) + 1 / 2 ^ 51) \<and> tx_nonce tx = 41"
proof (rule example_broadcast)
  fix tx ex'
  assume e: "execute example_platform example_readings example_enter ''public'' 0 example_executor
      = (Broadcast tx, ex')" and n: "tx_nonce tx = 41"
  have sent: "ex_sent example_executor = []" by (simp add: example_executor_def executor_new_def)
  have "tx \<in> set (ex_sent ex')" using broadcast_sent [OF e] by simp
  moreover have "trade_cap (ex_limits example_executor) = Fin 1"
    by (simp add: trade_cap_def example_executor_def executor_new_def limits_new_def
        effective_per_trade_max_bnb_def example_limits_def)
  ultimately show ?thesis
    using buy_spend_bounded [of example_executor 1 tx example_platform example_readings example_enter "''public''" 0]
      e n sent by (intro bexI [of _ tx]) simp_all
qed

text \<open>
  What a run can do to the outside: it adds at most one transaction to those sent; it
  adds none in shadow mode (zero on-chain risk), nor when the signer refuses; and a run
  that stops at a gate leaves the nonce counter as it was.
\<close>

lemma execute_effects:
  "(\<exists>txs. length txs \<le> 1 \<and> ex_sent (snd (execute pf rd dec vis op ex)) = ex_sent ex @ txs)
    \<and> (\<not> live_mode ex \<or> fst (execute pf rd dec vis op ex) = SignFailed
        \<longrightarrow> ex_sent (snd (execute pf rd dec vis op ex)) = ex_sent ex)
    \<and> (\<not> tx_outcome (fst (execute pf rd dec vis op ex))
        \<longrightarrow> ex_nonce (snd (execute pf rd dec vis op ex)) = ex_nonce ex
          \<and> ex_sent (snd (execute pf rd dec vis op ex)) = ex_sent ex)"
proof -
  obtain out ex' where e: "execute pf rd dec vis op ex = (out, ex')" by fastforce
  show ?thesis
  proof (cases "tx_outcome out")
    case False
    then show ?thesis using skip_effects [OF e] e by simp
  next
    case True
    from e True show ?thesis
    proof (rule execute_tx_cases)
      fix kol token sized ex0 ex2 route
      assume s: "send_buy pf rd kol vis token (snd (clamp_to_cap (trade_cap (ex_limits ex)) sized)) route
          (buy_gas_wei (fst (gas_wei (rd_instant rd) (rd_gas rd 0) ex0))) (wallet_balance_bnb_cached ex0) ex2
          = (out, ex')" and eq: "ex_sent ex2 = ex_sent ex" "lr_cfg (ex_limits ex2) = lr_cfg (ex_limits ex)"
      have "live_mode ex2 = live_mode ex" using eq by (simp add: live_mode_def)
      then show ?thesis
        using send_buy_cases [OF s] eq e by (cases out) auto
    qed
  qed
qed

lemma broadcast_position:
  assumes "execute pf rd (Enter kol token amount kb blk h) vis op ex = (Broadcast tx, ex')"
  shows "entry_at ex' token = Some \<lparr>pe_route = (if tx_to tx = FOURMEME then FourMeme else PancakeV2),
     pe_tokens_bought = 0, pe_bnb_in = tx_value tx, pe_approved = False, pe_opened_at = rd_instant rd\<rparr>"
proof (rule execute_tx_cases [OF assms])
  fix kol' token' amount' kb' blk' h' sized ex0 ex2 route
  assume d: "Enter kol token amount kb blk h = Enter kol' token' amount' kb' blk' h'"
    and s: "send_buy pf rd kol' vis token' (snd (clamp_to_cap (trade_cap (ex_limits ex)) sized)) route
        (buy_gas_wei (fst (gas_wei (rd_instant rd) (rd_gas rd 0) ex0))) (wallet_balance_bnb_cached ex0) ex2
        = (Broadcast tx, ex')"
  then show ?thesis
    using send_buy_cases [OF s]
    by (auto simp: entry_at_def planned_buy_def build_buy_def make_tx_def Let_def FOURMEME_def
        PANCAKE_V2_ROUTER_def split: buy_route.splits)
qed simp



lemma gas_fallback: "gas_gwei_of (buy_gas_wei None) = 13088917067439035463"
proof -
  have "\<not> (- 1 :: u128) \<le> 10000000000" by (simp add: word_le_nat_alt unat_max_word)
  then show ?thesis by (simp add: gas_gwei_of_def buy_gas_wei_def max_def)
qed

text \<open>
  Without a gas price no buy goes out: when the cache is empty or stale and the node
  gives no price, the fallback \<open>u128::MAX\<close>, truncated to 64 bits of gwei, is above every
  realistic limit and the run stops at the gate.
\<close>

lemma gas_outage_blocks_buy:
  assumes "gc_wei (ex_gas_cache ex) = 0 \<or> GAS_PRICE_TTL \<le> elapsed (gc_refreshed (ex_gas_cache ex)) (rd_instant rd)"
    and "gas_price_of (rd_gas rd 0) = None"
    and "hl_max_gas_price_gwei (lc_limits (lr_cfg (ex_limits ex))) < 13088917067439035463"
  shows "\<not> tx_outcome (fst (execute pf rd dec vis op ex))"
proof
  assume t: "tx_outcome (fst (execute pf rd dec vis op ex))"
  obtain out ex' where e: "execute pf rd dec vis op ex = (out, ex')" by fastforce
  from e have "tx_outcome out" using t by simp
  with e show False
  proof (rule execute_tx_cases)
    fix kol token sized ex0 lim
    assume d: "dup_guard token ex = Some ex0"
      and l: "limits_check (ex_limits ex) (buy_check rd kol vis
        (fst (clamp_to_cap (trade_cap (ex_limits ex)) sized)) op ex0) (rd_unix_ms rd) = (lim, Inr ())"
    have "ex_gas_cache ex0 = ex_gas_cache ex"
      using dup_guard_cases [OF d] by (auto simp: drop_position_def)
    then have "fst (gas_wei (rd_instant rd) (rd_gas rd 0) ex0) = None"
      using assms(1,2) by (auto simp: gas_wei_def Let_def)
    then have "snd (limits_check (ex_limits ex) (buy_check rd kol vis
        (fst (clamp_to_cap (trade_cap (ex_limits ex)) sized)) op ex0) (rd_unix_ms rd)) \<noteq> Inr ()"
      using assms(3) by (auto simp: check_passes_iff Let_def buy_check_def gas_fallback not_le)
    with l show False by simp
  qed
qed

text \<open>
  The slippage floor is the exact rounded-down share: for amounts below
  \<open>2 ^ 256 / 10000\<close> and any tolerance, \<open>amountOutMin\<close> is \<open>amount * (10000 - bps) / 10000\<close>,
  so never above the quote; a tolerance of 100 per cent or more removes the floor.
\<close>

lemma apply_slippage_exact:
  assumes "unat amount * 10000 < 2 ^ 256"
  shows "unat (apply_slippage amount bps) = unat amount * (10000 - unat bps) div 10000"
proof -
  consider "bps = 0 \<or> amount = 0" | "bps \<noteq> 0" "amount \<noteq> 0" "10000 \<le> bps" | "bps \<noteq> 0" "amount \<noteq> 0" "bps < 10000"
    by (metis not_le)
  then show ?thesis
  proof cases
    case 1
    then show ?thesis by (auto simp: apply_slippage_def)
  next
    case 2
    then show ?thesis by (simp add: apply_slippage_def word_le_nat_alt)
  next
    case 3
    have b: "unat (10000 - bps) = 10000 - unat bps"
      using 3(3) by (simp add: unat_sub word_less_nat_alt word_le_nat_alt)
    have lt: "10000 - unat bps < 2 ^ 256" by (rule le_less_trans [of _ 10000]) simp_all
    have k: "unat (ucast (10000 - bps) :: u256) = 10000 - unat bps"
      using lt by (simp add: unsigned_ucast_eq b take_bit_nat_eq_self)
    have "unat amount * unat (ucast (10000 - bps) :: u256) < 2 ^ 256"
      using assms k by (metis diff_le_self le_less_trans mult_le_mono2)
    then show ?thesis
      using 3 k by (simp add: apply_slippage_def Let_def unat_scale_down not_le [symmetric])
  qed
qed

text \<open>
  The implied tax is the exact round-trip loss in basis points less the 50 of the two
  swap fees: for probes below \<open>2 ^ 256 / 10000\<close> the check always yields a number, zero when
  nothing is lost, and never more than 9950.
\<close>

lemma round_trip_tax_exact:
  assumes "unat probe * 10000 < 2 ^ 256"
  shows "\<exists>t. round_trip_tax probe sell_out = Some t
     \<and> unat t = (unat probe - unat sell_out) * 10000 div unat probe - 50 \<and> unat t \<le> 9950"
proof (cases "probe \<le> sell_out")
  case True
  then show ?thesis by (simp add: round_trip_tax_def word_le_nat_alt)
next
  case False
  then have lt: "unat sell_out < unat probe" by (simp add: word_le_nat_alt)
  define loss where "loss = probe - sell_out"
  have l: "unat loss = unat probe - unat sell_out"
    using False by (simp add: loss_def unat_sub word_le_nat_alt)
  have "unat loss * 10000 < 2 ^ 256"
    using assms l by (auto intro: le_less_trans [rotated])
  then have b: "unat ((loss * 10000) div probe) = unat loss * 10000 div unat probe"
    using unat_scale_down [of loss 10000 probe] by simp
  have "unat loss * 10000 div unat probe \<le> unat probe * 10000 div unat probe"
    using l by (intro div_le_mono) simp
  then have small: "unat loss * 10000 div unat probe \<le> 10000" using lt by simp
  then have c: "unat (ucast ((loss * 10000) div probe) :: u64) = unat loss * 10000 div unat probe"
    by (simp add: unsigned_ucast_eq take_bit_nat_eq_self b)
  show ?thesis
    using False small
    by (simp add: round_trip_tax_def Let_def b unat_sat_sub c flip: loss_def l)
qed

text \<open>
  A pair once found is used forever without asking again: with a positive entry in the
  cache every route choice, buy or sell and whatever the node would answer, is V2 and
  leaves the state unchanged; a negative entry is trusted for 30 seconds and then replaced
  by the answer of that moment.
\<close>

lemma pair_cache_policy:
  assumes "ex_pair_cache ex token = Some e"
  shows "(vc_pair e \<noteq> None \<longrightarrow> pick_route pf rd k token a ex = (Some PancakeV2, ex))
    \<and> (vc_pair e = None \<longrightarrow> elapsed (vc_cached_at e) (rd_instant rd) < 30 * 10 ^ 9
         \<longrightarrow> snd (pick_route pf rd k token a ex) = ex \<and> fst (pick_route pf rd k token a ex) \<noteq> Some PancakeV2)
    \<and> (vc_pair e = None \<longrightarrow> 30 * 10 ^ 9 \<le> elapsed (vc_cached_at e) (rd_instant rd)
         \<longrightarrow> (fst (pick_route pf rd k token a ex) = Some PancakeV2
                \<longleftrightarrow> v2_pair_lookup_of (pf_hex_decode pf) (rd_pair rd) \<noteq> None))"
  using assms
  by (auto simp: pick_route_def v2_pair_cached_def cached_pair_def V2_PAIR_NEG_TTL_def Let_def
      split: option.splits exec_action.splits)

end
