(* ===== verification/ExecutorExit.thy ===== *)
theory ExecutorExit
  imports ExecutorBuy
begin

text \<open>
  \<open>crates/bsc-runner/src/trader/executor_live.rs\<close>, second half: the exit pipeline
  \<open>execute_exit\<close>, the approvals, and the background task \<open>finalize_position\<close>. Exits of one
  token are serialised by a per-token lock, so each is one step.
\<close>

section \<open>Sizing an exit\<close>

definition balance_of_at :: "platform \<Rightarrow> readings \<Rightarrow> u64 \<Rightarrow> u256 option" where
  "balance_of_at pf rd block = balance_of_at_of (pf_parse_u256 pf) (rd_balance_at rd block)"

definition sold_fraction :: "u256 \<Rightarrow> u256 \<Rightarrow> f64 option" where
  "sold_fraction pre post =
     (if pre = 0 \<or> pre \<le> post then None
      else let sold = pre - post
           in Some (fclamp (Fin 0) (Fin 1) (fdiv (f64_of_word sold) (f64_of_word pre))))"

definition kol_sell_fraction :: "platform \<Rightarrow> readings \<Rightarrow> address \<Rightarrow> u64 \<Rightarrow> f64 option" where
  "kol_sell_fraction pf rd kol_addr kol_block =
     (if kol_addr = 0 \<or> kol_block = 0 then None
      else Option.bind (balance_of_at pf rd (sat_sub kol_block 1)) (\<lambda>pre.
             Option.bind (balance_of_at pf rd kol_block) (\<lambda>post. sold_fraction pre post)))"

definition scale_u256_by_fraction :: "u256 \<Rightarrow> f64 \<Rightarrow> u256" where
  "scale_u256_by_fraction x f =
     (let bps = (f64_to_word (fmul (fclamp (Fin 0) (Fin 1) f) (Fin 10000)) :: u64) in
      if bps = 0 then 0 else if 10000 \<le> bps then x else (x * ucast bps) div 10000)"

definition saturating_sub_u256 :: "u256 \<Rightarrow> u256 \<Rightarrow> u256" where
  "saturating_sub_u256 a b = (if b \<le> a then a - b else 0)"

definition token_balance :: "platform \<Rightarrow> readings \<Rightarrow> u256" where
  "token_balance pf rd = (case eth_call_u256_of (pf_parse_u256 pf) (rd_balance rd) of Some b \<Rightarrow> b | None \<Rightarrow> 0)"

definition token_allowance :: "platform \<Rightarrow> readings \<Rightarrow> u256" where
  "token_allowance pf rd = (case eth_call_u256_of (pf_parse_u256 pf) (rd_allowance rd) of Some b \<Rightarrow> b | None \<Rightarrow> 0)"

text \<open>What there is to sell: from the cache when it is ready, else from the chain.\<close>

datatype holding =
    FullyExited
  | NothingHeld
  | NoRoute
  | Holding u256 buy_route bool

definition exit_holding :: "platform \<Rightarrow> readings \<Rightarrow> address \<Rightarrow> executor \<Rightarrow> holding \<times> executor" where
  "exit_holding pf rd token ex =
     (case entry_at ex token of
        Some e \<Rightarrow>
          let cached_amt = pe_tokens_bought e in
          if cached_amt = 0 \<and> pe_approved e then (FullyExited, ex)
          else if cached_amt \<noteq> 0 \<and> pe_approved e then (Holding cached_amt (pe_route e) True, ex)
          else let bal = token_balance pf rd in
            if bal = 0 then (NothingHeld, ex) else (Holding bal (pe_route e) False, ex)
      | None \<Rightarrow>
          let bal = token_balance pf rd in
          if bal = 0 then (NothingHeld, ex)
          else (case pick_route pf rd 0 token ActSell ex of
                  (None, ex1) \<Rightarrow> (NoRoute, ex1)
                | (Some r, ex1) \<Rightarrow> (Holding bal r False, ex1)))"

section \<open>Approvals\<close>

definition sell_gas_wei :: "u128 option \<Rightarrow> u128" where
  "sell_gas_wei observed = max (case observed of Some w \<Rightarrow> w | None \<Rightarrow> - 1) 3000000000"

definition spender_of :: "buy_route \<Rightarrow> address" where
  "spender_of route = (case route of PancakeV2 \<Rightarrow> PANCAKE_V2_ROUTER | FourMeme \<Rightarrow> FOURMEME)"

definition submit_approve :: "platform \<Rightarrow> readings \<Rightarrow> address \<Rightarrow> address \<Rightarrow> executor \<Rightarrow> bool \<times> executor" where
  "submit_approve pf rd token spender ex =
     (let (nonce, ex1) = reserve_nonce ex;
          (observed, ex2) = gas_wei (rd_instant rd) (rd_gas rd 1) ex1;
          tx = make_tx ex2 token 0 (Approve spender (- 1)) 60000 (sell_gas_wei observed) nonce
      in case pf_sign pf tx of
           None \<Rightarrow> (False, ex2)
         | Some hash \<Rightarrow>
             if live_mode ex2 then
               (case broadcast pf rd tx ex2 of (Inl _, ex3) \<Rightarrow> (False, ex3) | (Inr _, ex3) \<Rightarrow> (True, ex3))
             else (True, ex2))"

text \<open>Only off the fast path, and only when the spender lacks allowance.\<close>

definition ensure_allowance ::
  "platform \<Rightarrow> readings \<Rightarrow> address \<Rightarrow> buy_route \<Rightarrow> u256 \<Rightarrow> bool \<Rightarrow> executor \<Rightarrow> bool \<times> executor" where
  "ensure_allowance pf rd token route balance fast ex =
     (if \<not> fast \<and> token_allowance pf rd < balance
      then submit_approve pf rd token (spender_of route) ex
      else (True, ex))"

section \<open>Selling\<close>

definition build_sell ::
  "platform \<Rightarrow> readings \<Rightarrow> buy_route \<Rightarrow> address \<Rightarrow> u256 \<Rightarrow> executor \<Rightarrow> address \<times> u64 \<times> call_data" where
  "build_sell pf rd route token balance ex =
     (let slip_bps = (ucast (hl_slippage_bps (lc_limits (lr_cfg (ex_limits ex)))) :: u64) in
      case route of
        PancakeV2 \<Rightarrow>
          let path = [token, WBNB];
              deadline = ucast (rd_unix_secs rd + DEADLINE_SECS);
              expected_out = (case get_amounts_out_v2 pf rd balance path of Some a \<Rightarrow> a | None \<Rightarrow> 0);
              amount_out_min = apply_slippage expected_out slip_bps
          in (PANCAKE_V2_ROUTER, SWAP_GAS_LIMIT,
              SwapExactTokensForETH balance amount_out_min path (ex_wallet ex) deadline)
      | FourMeme \<Rightarrow> (FOURMEME, FOURMEME_GAS_LIMIT, SellToken token balance))"

datatype exit_outcome =
    ExitSkipped string
  | ApproveFailed
  | ExitSignFailed
  | ExitBroadcastFailed
  | SellShadowed tx_request
  | SellBroadcast tx_request

definition exit_entry :: "executor \<Rightarrow> string \<Rightarrow> address \<Rightarrow> u64 \<Rightarrow> u64 \<Rightarrow> b256 \<Rightarrow> f64 \<Rightarrow> bool \<Rightarrow> live_entry" where
  "exit_entry ex kol token gas_gwei nonce hash wallet_bnb bcast =
     \<lparr>le_phase = phase_label ex, le_kol_name = kol, le_visibility = ''exit'', le_token_address = token,
      le_token_symbol = [], le_bnb_in_wei = 0, le_gas_gwei = gas_gwei, le_nonce = nonce,
      le_tx_hash = hash, le_wallet_bnb = wallet_bnb, le_broadcast = bcast, le_limit_skip_reason = None\<rparr>"

text \<open>After an accepted sell: full close leaves 0, partial close the remainder.\<close>

definition set_tokens :: "nat \<Rightarrow> u256 \<Rightarrow> executor \<Rightarrow> executor" where
  "set_tokens i v ex = ex\<lparr>ex_entries := (ex_entries ex)[i := (ex_entries ex ! i)\<lparr>pe_tokens_bought := v\<rparr>]\<rparr>"

definition mark_sold :: "address \<Rightarrow> bool \<Rightarrow> u256 \<Rightarrow> u256 \<Rightarrow> executor \<Rightarrow> executor" where
  "mark_sold token full our_balance sold ex =
     (case ex_positions ex token of
        None \<Rightarrow> ex
      | Some i \<Rightarrow> set_tokens i (if full then 0 else saturating_sub_u256 our_balance sold) ex)"

definition finish_exit :: "platform \<Rightarrow> readings \<Rightarrow> live_entry \<Rightarrow> executor \<Rightarrow> executor" where
  "finish_exit pf rd e ex =
     (let ex1 = log_entry pf rd e ex in ex1\<lparr>ex_ledger := record_closed (ex_ledger ex1)\<rparr>)"

definition send_sell ::
  "platform \<Rightarrow> readings \<Rightarrow> string \<Rightarrow> address \<Rightarrow> buy_route \<Rightarrow> bool \<Rightarrow> u256 \<Rightarrow> u256
     \<Rightarrow> executor \<Rightarrow> exit_outcome \<times> executor" where
  "send_sell pf rd kol token route full our_balance balance ex =
     (let (target, gas_limit, calldata) = build_sell pf rd route token balance ex;
          (nonce, ex1) = reserve_nonce ex;
          (observed, ex2) = gas_wei (rd_instant rd) (rd_gas rd 0) ex1;
          gas_w = sell_gas_wei observed;
          tx = make_tx ex2 target 0 calldata gas_limit gas_w nonce;
          wallet_bnb = wallet_balance_bnb_cached ex2
      in case pf_sign pf tx of
           None \<Rightarrow> (ExitSignFailed, resync_nonce rd ex2)
         | Some hash \<Rightarrow>
             if live_mode ex2 then
               (case broadcast pf rd tx ex2 of
                  (Inl _, ex3) \<Rightarrow> (ExitBroadcastFailed, resync_nonce rd ex3)
                | (Inr _, ex3) \<Rightarrow>
                    (SellBroadcast tx, finish_exit pf rd
                       (exit_entry ex3 kol token (gas_gwei_of gas_w) nonce hash wallet_bnb True)
                       (mark_sold token full our_balance balance ex3)))
             else (SellShadowed tx, finish_exit pf rd
                     (exit_entry ex2 kol token (gas_gwei_of gas_w) nonce hash wallet_bnb False) ex2))"

text \<open>The exit with its amount settled: allowance, fresh route, sell.\<close>

definition approve_and_sell ::
  "platform \<Rightarrow> readings \<Rightarrow> string \<Rightarrow> address \<Rightarrow> buy_route \<Rightarrow> bool \<Rightarrow> bool \<Rightarrow> u256 \<Rightarrow> u256
     \<Rightarrow> executor \<Rightarrow> exit_outcome \<times> executor" where
  "approve_and_sell pf rd kol token route fast full our_balance balance ex =
     (case ensure_allowance pf rd token route balance fast ex of
        (False, ex1) \<Rightarrow> (ApproveFailed, resync_nonce rd ex1)
      | (True, ex1) \<Rightarrow>
          (case pick_route pf rd 1 token ActSell ex1 of
             (fresh, ex2) \<Rightarrow> send_sell pf rd kol token (case fresh of Some r \<Rightarrow> r | None \<Rightarrow> route)
                               full our_balance balance ex2))"

definition exit_fraction :: "platform \<Rightarrow> readings \<Rightarrow> address \<Rightarrow> u64 \<Rightarrow> f64" where
  "exit_fraction pf rd kol_addr kol_block =
     (case kol_sell_fraction pf rd kol_addr kol_block of Some f \<Rightarrow> f | None \<Rightarrow> Fin 1)"

definition is_full_close :: "f64 \<Rightarrow> bool" where
  "is_full_close fraction \<longleftrightarrow> fle (flit (99 / 100)) fraction"

definition execute_exit ::
  "platform \<Rightarrow> readings \<Rightarrow> address \<Rightarrow> string \<Rightarrow> u64 \<Rightarrow> address \<Rightarrow> executor \<Rightarrow> exit_outcome \<times> executor" where
  "execute_exit pf rd token kol kol_block kol_addr ex =
     (if check_blacklisted (ex_blacklist ex) token then (ExitSkipped ''blacklisted'', ex)
      else let fraction = exit_fraction pf rd kol_addr kol_block; full = is_full_close fraction in
        (case exit_holding pf rd token ex of
           (FullyExited, ex1) \<Rightarrow> (ExitSkipped ''fully_exited'', ex1)
         | (NothingHeld, ex1) \<Rightarrow> (ExitSkipped ''no_balance'', ex1)
         | (NoRoute, ex1) \<Rightarrow> (ExitSkipped ''no_route'', ex1)
         | (Holding our_balance route fast, ex1) \<Rightarrow>
             let balance = (if full then our_balance else scale_u256_by_fraction our_balance fraction) in
             if \<not> full \<and> balance = 0 then (ExitSkipped ''rounds_to_zero'', ex1)
             else approve_and_sell pf rd kol token route fast full our_balance balance ex1))"

section \<open>The background task\<close>

text \<open>
  The polls of a receipt: each iteration reads the clock, and before the deadline asks the
  node; the list holds the iterations' clock readings and replies.
\<close>

fun poll_receipt :: "int \<Rightarrow> (int \<times> reply) list \<Rightarrow> bool" where
  "poll_receipt deadline [] = False"
| "poll_receipt deadline ((now, r) # rest) =
     (if now < deadline
      then if receipt_status_of r = Some True then True else poll_receipt deadline rest
      else False)"

record bg_readings =
  br_start :: int
  br_buy_polls :: "(int \<times> reply) list"
  br_balance :: reply
  br_gas :: reply
  br_submit :: reply
  br_approve_start :: int
  br_approve_polls :: "(int \<times> reply) list"

definition submit_approve_bg :: "platform \<Rightarrow> bg_readings \<Rightarrow> address \<Rightarrow> executor \<Rightarrow> bool \<times> executor" where
  "submit_approve_bg pf br token ex =
     (let (nonce, ex1) = reserve_nonce ex;
          gas_w = max (case bg_gas_price_of (br_gas br) of Some w \<Rightarrow> w | None \<Rightarrow> 3000000000) 3000000000;
          tx = make_tx ex1 token 0 (Approve FOURMEME (- 1)) 60000 gas_w nonce
      in case pf_sign pf tx of
           None \<Rightarrow> (False, ex1)
         | Some hash \<Rightarrow>
             let ex2 = ex1\<lparr>ex_sent := ex_sent ex1 @ [tx]\<rparr> in
             (case br_submit br of
                Reply v \<Rightarrow> (jget v ''error'' = None, ex2)
              | _ \<Rightarrow> (False, ex2)))"

definition set_approved :: "nat \<Rightarrow> executor \<Rightarrow> executor" where
  "set_approved i ex = ex\<lparr>ex_entries := (ex_entries ex)[i := (ex_entries ex ! i)\<lparr>pe_approved := True\<rparr>]\<rparr>"

definition learn_balance :: "platform \<Rightarrow> bg_readings \<Rightarrow> bg_task \<Rightarrow> executor \<Rightarrow> executor" where
  "learn_balance pf br task ex =
     (let bal = (case bg_token_balance_of (pf_parse_u256 pf) (br_balance br) of Some b \<Rightarrow> b | None \<Rightarrow> 0)
      in if bal \<noteq> 0 then set_tokens (bg_entry task) bal ex else ex)"

definition finalize_position :: "platform \<Rightarrow> bg_readings \<Rightarrow> bg_task \<Rightarrow> executor \<Rightarrow> executor" where
  "finalize_position pf br task ex =
     (if \<not> poll_receipt (br_start br + 30 * 10 ^ 9) (br_buy_polls br) then ex
      else let ex1 = learn_balance pf br task ex in
        if bg_route task = FourMeme \<and> live_mode ex1 then
          (case submit_approve_bg pf br (bg_token task) ex1 of
             (False, ex2) \<Rightarrow> ex2
           | (True, ex2) \<Rightarrow>
               if poll_receipt (br_approve_start br + 15 * 10 ^ 9) (br_approve_polls br)
               then set_approved (bg_entry task) ex2 else ex2)
        else ex1)"

end
