(* ===== verification/ExecutorRun.thy ===== *)
theory ExecutorRun
  imports ExecutorExit
begin

text \<open>
  The executor over its whole life: histories of buys, exits, background tasks and cache
  refreshes, the well-formedness every step keeps, and the properties of exits and of the
  background task.
\<close>

section \<open>What a step does to the position book\<close>

definition same_book :: "executor \<Rightarrow> executor \<Rightarrow> bool" where
  "same_book ex ex' \<longleftrightarrow> ex_entries ex' = ex_entries ex \<and> ex_spawned ex' = ex_spawned ex
     \<and> (\<forall>t i. ex_positions ex' t = Some i \<longrightarrow> ex_positions ex t = Some i)"

definition book_grows :: "executor \<Rightarrow> executor \<Rightarrow> bool" where
  "book_grows ex ex' \<longleftrightarrow> (\<exists>e task token.
     ex_entries ex' = ex_entries ex @ [e] \<and> \<not> pe_approved e
     \<and> ex_spawned ex' = ex_spawned ex @ [task]
     \<and> bg_entry task = length (ex_entries ex) \<and> bg_route task = pe_route e
     \<and> (\<forall>t i. ex_positions ex' t = Some i \<longrightarrow>
            ex_positions ex t = Some i \<or> t = token \<and> i = length (ex_entries ex)))"

lemma same_book_refl [simp]: "same_book ex ex"
  by (simp add: same_book_def)

lemma same_book_grows: "same_book ex ex1 \<Longrightarrow> book_grows ex1 ex2 \<Longrightarrow> book_grows ex ex2"
proof -
  assume s: "same_book ex ex1" and "book_grows ex1 ex2"
  then obtain e task token where g: "ex_entries ex2 = ex_entries ex1 @ [e]" "\<not> pe_approved e"
    "ex_spawned ex2 = ex_spawned ex1 @ [task]" "bg_entry task = length (ex_entries ex1)" "bg_route task = pe_route e"
    "\<forall>t i. ex_positions ex2 t = Some i \<longrightarrow> ex_positions ex1 t = Some i \<or> t = token \<and> i = length (ex_entries ex1)"
    unfolding book_grows_def by blast
  show "book_grows ex ex2"
    unfolding book_grows_def
    by (rule exI [of _ e], rule exI [of _ task], rule exI [of _ token]) (use s g in \<open>auto simp: same_book_def\<close>)
qed

lemma same_book_trans: "same_book ex ex1 \<Longrightarrow> same_book ex1 ex2 \<Longrightarrow> same_book ex ex2"
  by (simp add: same_book_def)

lemma same_book_fields:
  "ex_entries ex' = ex_entries ex \<Longrightarrow> ex_spawned ex' = ex_spawned ex \<Longrightarrow> ex_positions ex' = ex_positions ex
    \<Longrightarrow> same_book ex ex'"
  by (simp add: same_book_def)

lemma send_buy_book:
  assumes "send_buy pf rd kol vis token bnb route g wb ex = (out, ex')"
  shows "same_book ex ex' \<or> book_grows ex ex'"
proof -
  obtain target gl cd where b: "build_buy pf rd route token bnb ex = (target, gl, cd)"
    by (cases "build_buy pf rd route token bnb ex") auto
  obtain n ex1 where r: "reserve_nonce ex = (n, ex1)" by fastforce
  note f = reserve_nonce_frame [OF r]
  consider "ex_entries ex' = ex_entries ex \<and> ex_spawned ex' = ex_spawned ex \<and> ex_positions ex' = ex_positions ex"
    | e task where "ex_entries ex' = ex_entries ex @ [e]" "\<not> pe_approved e"
        "ex_spawned ex' = ex_spawned ex @ [task]" "bg_entry task = length (ex_entries ex)"
        "bg_route task = pe_route e" "ex_positions ex' = (ex_positions ex)(token \<mapsto> length (ex_entries ex))"
    using assms f
    by (auto simp: send_buy_def b r broadcast_def finish_buy_def insert_position_def Let_def
        split: option.splits if_splits sum.splits)
  then show ?thesis
  proof cases
    case 1
    then show ?thesis by (intro disjI1 same_book_fields) simp_all
  next
    case 2
    have "book_grows ex ex'"
      unfolding book_grows_def
      by (rule exI [of _ e], rule exI [of _ task], rule exI [of _ token]) (use 2 in \<open>auto split: if_splits\<close>)
    then show ?thesis by simp
  qed
qed

lemma route_and_send_book:
  assumes "route_and_send pf rd kol vis token bnb g wb ex = (out, ex')"
  shows "same_book ex ex' \<or> book_grows ex ex'"
proof -
  obtain r ex1 where p: "pick_route pf rd 0 token ActBuy ex = (r, ex1)" by fastforce
  have s: "same_book ex ex1" using pick_route_frame [OF p] by (intro same_book_fields) simp_all
  have log: "same_book ex (log_entry pf rd e ex1)" for e
    using s by (rule same_book_trans) (intro same_book_fields; simp)
  show ?thesis
    using assms log same_book_grows [OF s] same_book_trans [OF s] send_buy_book
    by (auto simp: route_and_send_def p split: option.splits) blast
qed

lemma limits_and_send_book:
  assumes "limits_and_send pf rd kol vis token amount op ex = (out, ex')"
  shows "same_book ex ex' \<or> book_grows ex ex'"
proof -
  obtain f bnb where c: "clamp_to_cap (trade_cap (ex_limits ex)) amount = (f, bnb)" by fastforce
  obtain g ex1 where gw: "gas_wei (rd_instant rd) (rd_gas rd 0) ex = (g, ex1)" by fastforce
  obtain lim v where l: "limits_check (ex_limits ex1) (buy_check rd kol vis f op ex) (rd_unix_ms rd) = (lim, v)"
    by fastforce
  let ?ex2 = "ex1\<lparr>ex_limits := lim\<rparr>"
  have s: "same_book ex ?ex2" using gas_wei_frame [OF gw] by (intro same_book_fields) simp_all
  have log: "same_book ex (log_entry pf rd e ?ex2)" for e
    using s by (rule same_book_trans) (intro same_book_fields; simp)
  have "route_and_send pf rd kol vis token bnb (buy_gas_wei g) (wallet_balance_bnb_cached ex) ?ex2 = (out, ex')
      \<or> (\<exists>e. ex' = log_entry pf rd e ?ex2)"
    using assms l by (cases v) (auto simp: limits_and_send_def buy_check_def c gw Let_def)
  then show ?thesis
    using log route_and_send_book same_book_grows [OF s] same_book_trans [OF s] by blast
qed

lemma execute_book:
  "same_book ex (snd (execute pf rd dec vis op ex)) \<or> book_grows ex (snd (execute pf rd dec vis op ex))"
proof (cases dec)
  case (Enter kol token amount kb blk h)
  show ?thesis
  proof (cases "dup_guard token ex")
    case (Some ex1)
    have s: "same_book ex ex1"
      using dup_guard_cases [OF Some] by (auto simp: same_book_def drop_position_def split: if_splits)
    have log: "same_book ex (log_entry pf rd e ex1)" for e
      using s by (rule same_book_trans) (intro same_book_fields; simp)
    have las: "same_book ex (snd (limits_and_send pf rd kol vis token sized op ex1))
        \<or> book_grows ex (snd (limits_and_send pf rd kol vis token sized op ex1))" for sized
      using limits_and_send_book [of pf rd kol vis token sized op ex1] same_book_grows [OF s]
        same_book_trans [OF s] by (metis prod.collapse)
    show ?thesis
      using s log las by (auto simp: execute_def Enter Some split: option.splits)
  qed (simp add: execute_def Enter)
qed (simp_all add: execute_def)

section \<open>Exits: frames\<close>

lemma submit_approve_frame:
  assumes "submit_approve pf rd token sp ex = (ok, ex')"
  shows "ex_positions ex' = ex_positions ex" "ex_entries ex' = ex_entries ex"
    "ex_limits ex' = ex_limits ex" "ex_spawned ex' = ex_spawned ex" "ex_wallet ex' = ex_wallet ex"
    "\<not> live_mode ex \<Longrightarrow> ex_sent ex' = ex_sent ex" "ex_pair_cache ex' = ex_pair_cache ex"
proof -
  obtain n ex1 where r: "reserve_nonce ex = (n, ex1)" by fastforce
  obtain g ex2 where gw: "gas_wei (rd_instant rd) (rd_gas rd 1) ex1 = (g, ex2)" by fastforce
  note f = reserve_nonce_frame [OF r] gas_wei_frame [OF gw]
  have pc: "ex_pair_cache ex2 = ex_pair_cache ex"
    using r f by (auto simp: reserve_nonce_def reserve_def Let_def)
  show "ex_positions ex' = ex_positions ex" "ex_entries ex' = ex_entries ex"
    "ex_limits ex' = ex_limits ex" "ex_spawned ex' = ex_spawned ex" "ex_wallet ex' = ex_wallet ex"
    "\<not> live_mode ex \<Longrightarrow> ex_sent ex' = ex_sent ex" "ex_pair_cache ex' = ex_pair_cache ex"
    using assms f pc
    by (auto simp: submit_approve_def r gw broadcast_def live_mode_def Let_def simp del: One_nat_def
        split: option.splits if_splits sum.splits)
qed

lemma ensure_allowance_frame:
  assumes "ensure_allowance pf rd token route bal fast ex = (ok, ex')"
  shows "ex_positions ex' = ex_positions ex" "ex_entries ex' = ex_entries ex"
    "ex_limits ex' = ex_limits ex" "ex_spawned ex' = ex_spawned ex" "ex_wallet ex' = ex_wallet ex"
    "\<not> live_mode ex \<Longrightarrow> ex_sent ex' = ex_sent ex" "ex_pair_cache ex' = ex_pair_cache ex"
    "fast \<Longrightarrow> ok \<and> ex' = ex"
  using assms submit_approve_frame [of pf rd token "spender_of route" ex ok ex']
  by (auto simp: ensure_allowance_def split: if_splits)

lemma exit_holding_frame:
  assumes "exit_holding pf rd token ex = (h, ex')"
  shows "ex_positions ex' = ex_positions ex" "ex_entries ex' = ex_entries ex"
    "ex_limits ex' = ex_limits ex" "ex_spawned ex' = ex_spawned ex" "ex_wallet ex' = ex_wallet ex"
    "ex_sent ex' = ex_sent ex" "ex_nonce ex' = ex_nonce ex"
proof -
  have "ex' = ex \<or> (\<exists>r. pick_route pf rd 0 token ActSell ex = (r, ex'))"
    using assms by (auto simp: exit_holding_def Let_def split: option.splits if_splits prod.splits)
  then consider "ex' = ex" | r where "pick_route pf rd 0 token ActSell ex = (r, ex')" by blast
  then have "ex_positions ex' = ex_positions ex \<and> ex_entries ex' = ex_entries ex
    \<and> ex_limits ex' = ex_limits ex \<and> ex_spawned ex' = ex_spawned ex \<and> ex_wallet ex' = ex_wallet ex
    \<and> ex_sent ex' = ex_sent ex \<and> ex_nonce ex' = ex_nonce ex"
  proof cases
    case 2
    then show ?thesis using pick_route_frame [OF 2] by simp
  qed simp
  then show "ex_positions ex' = ex_positions ex" "ex_entries ex' = ex_entries ex"
    "ex_limits ex' = ex_limits ex" "ex_spawned ex' = ex_spawned ex" "ex_wallet ex' = ex_wallet ex"
    "ex_sent ex' = ex_sent ex" "ex_nonce ex' = ex_nonce ex"
    by simp_all
qed

section \<open>The sale of an exit\<close>

fun sale_amount :: "call_data \<Rightarrow> u256" where
  "sale_amount (SwapExactTokensForETH amount _ _ _ _) = amount"
| "sale_amount (SellToken _ amount) = amount"
| "sale_amount _ = 0"

lemma build_sell_amount [simp]:
  "sale_amount (snd (snd (build_sell pf rd route token bal ex))) = bal"
  by (cases route) (simp_all add: build_sell_def Let_def)

text \<open>Every way a sale can end.\<close>

lemma send_sell_cases:
  assumes "send_sell pf rd kol token route full ours bal ex = (out, ex')"
  shows "ex_positions ex' = ex_positions ex \<and> ex_spawned ex' = ex_spawned ex
    \<and> ex_limits ex' = ex_limits ex
    \<and> (case out of
         SellBroadcast tx \<Rightarrow> live_mode ex \<and> sale_amount (tx_input tx) = bal \<and> tx_value tx = 0
           \<and> tx_to tx = spender_of route \<and> ex_sent ex' = ex_sent ex @ [tx]
           \<and> ex_entries ex' = ex_entries (mark_sold token full ours bal ex)
       | SellShadowed tx \<Rightarrow> \<not> live_mode ex \<and> sale_amount (tx_input tx) = bal
           \<and> ex_sent ex' = ex_sent ex \<and> ex_entries ex' = ex_entries ex
       | ExitSignFailed \<Rightarrow> ex_sent ex' = ex_sent ex \<and> ex_entries ex' = ex_entries ex
       | ExitBroadcastFailed \<Rightarrow> live_mode ex \<and> ex_entries ex' = ex_entries ex
       | _ \<Rightarrow> False)"
proof -
  obtain target gl cd where b: "build_sell pf rd route token bal ex = (target, gl, cd)"
    by (cases "build_sell pf rd route token bal ex") auto
  have cd: "sale_amount cd = bal" using build_sell_amount [of pf rd route token bal ex] by (simp add: b)
  have to: "target = spender_of route"
    using b by (cases route) (simp_all add: build_sell_def spender_of_def Let_def)
  obtain n ex1 where r: "reserve_nonce ex = (n, ex1)" by fastforce
  obtain g ex2 where gw: "gas_wei (rd_instant rd) (rd_gas rd 0) ex1 = (g, ex2)" by fastforce
  note f = reserve_nonce_frame [OF r] gas_wei_frame [OF gw]
  have live: "live_mode ex2 = live_mode ex" using f by (simp add: live_mode_def)
  have mark: "ex_entries (mark_sold token full ours bal (ex2\<lparr>ex_sent := s\<rparr>))
      = ex_entries (mark_sold token full ours bal ex)" for s
    using f by (auto simp: mark_sold_def set_tokens_def split: option.splits)
  have mark_frame: "ex_positions (mark_sold t fl o' b' x) = ex_positions x"
    "ex_spawned (mark_sold t fl o' b' x) = ex_spawned x" "ex_limits (mark_sold t fl o' b' x) = ex_limits x"
    "ex_sent (mark_sold t fl o' b' x) = ex_sent x" for t fl o' b' x
    by (simp_all add: mark_sold_def set_tokens_def split: option.splits)
  show ?thesis
    using assms f
    by (auto simp: send_sell_def b r gw broadcast_def finish_exit_def Let_def live mark mark_frame
        make_tx_def cd to split: option.splits if_splits sum.splits)
qed

lemma approve_and_sell_cases:
  assumes "approve_and_sell pf rd kol token route fast full ours bal ex = (out, ex')"
  shows "ex_positions ex' = ex_positions ex \<and> ex_spawned ex' = ex_spawned ex \<and> ex_limits ex' = ex_limits ex
    \<and> (\<not> live_mode ex \<longrightarrow> ex_sent ex' = ex_sent ex)
    \<and> (case out of
         SellBroadcast tx \<Rightarrow> live_mode ex \<and> sale_amount (tx_input tx) = bal \<and> tx_value tx = 0
           \<and> ex_entries ex' = ex_entries (mark_sold token full ours bal ex)
       | ExitSkipped _ \<Rightarrow> False
       | _ \<Rightarrow> ex_entries ex' = ex_entries ex)"
proof -
  obtain ok ex1 where e: "ensure_allowance pf rd token route bal fast ex = (ok, ex1)" by fastforce
  note f1 = ensure_allowance_frame [OF e]
  show ?thesis
  proof (cases ok)
    case False
    then show ?thesis using assms f1 by (auto simp: approve_and_sell_def e)
  next
    case True
    obtain fresh ex2 where p: "pick_route pf rd 1 token ActSell ex1 = (fresh, ex2)" by fastforce
    note f2 = pick_route_frame [OF p]
    have s: "send_sell pf rd kol token (case fresh of Some r \<Rightarrow> r | None \<Rightarrow> route) full ours bal ex2 = (out, ex')"
      using assms True by (simp add: approve_and_sell_def e p del: One_nat_def)
    have live: "live_mode ex2 = live_mode ex" using f1 f2 by (simp add: live_mode_def)
    have mark: "ex_entries (mark_sold token full ours bal ex2) = ex_entries (mark_sold token full ours bal ex)"
      using f1 f2 by (auto simp: mark_sold_def set_tokens_def split: option.splits)
    show ?thesis
      using send_sell_cases [OF s] f1 f2 live mark by (auto split: exit_outcome.splits)
  qed
qed

lemma scale_le: "scale_u256_by_fraction x f \<le> x"
proof -
  let ?bps = "f64_to_word (fmul (fclamp (Fin 0) (Fin 1) f) (Fin 10000)) :: u64"
  have "(x * ucast ?bps) div 10000 \<le> x" if "?bps < 10000"
  proof (cases "unat x * 10000 < 2 ^ 256")
    case True
    have u: "unat (ucast ?bps :: u256) = unat ?bps"
      by (simp add: unat_ucast_up)
    have k: "unat (ucast ?bps :: u256) \<le> 10000" using that u by (simp add: word_less_nat_alt)
    then have "unat x * unat (ucast ?bps :: u256) \<le> unat x * 10000" by (rule mult_le_mono2)
    also have "\<dots> < 2 ^ 256" by (rule True)
    finally show ?thesis using k by (intro scale_down_le) simp_all
  next
    case False
    have "unat ((x * ucast ?bps) div 10000) \<le> (2 ^ 256 - 1) div 10000"
      using div_le_mono [OF unat_le_max_word [of "x * ucast ?bps"], of 10000] by (simp add: unat_div)
    also have "\<dots> \<le> unat x" using False by simp
    finally show ?thesis by (simp add: word_le_nat_alt)
  qed
  then show ?thesis by (auto simp: scale_u256_by_fraction_def Let_def not_le)
qed

section \<open>The executor as an event-driven component\<close>

datatype exec_event =
    BuyDecision platform readings decision string
  | SellSignal platform readings address string u64 address
  | BackgroundRun platform bg_readings nat
  | DropPosition address
  | WalletRefresh int reply
  | LossReport f64

fun exec_step :: "executor \<Rightarrow> exec_event \<Rightarrow> executor" where
  "exec_step ex (BuyDecision pf rd dec vis) = snd (execute pf rd dec vis (executor_open_positions ex) ex)"
| "exec_step ex (SellSignal pf rd token kol blk addr) = snd (execute_exit pf rd token kol blk addr ex)"
| "exec_step ex (BackgroundRun pf br k) =
     (if k < length (ex_spawned ex) then finalize_position pf br (ex_spawned ex ! k) ex else ex)"
| "exec_step ex (DropPosition token) = drop_position token ex"
| "exec_step ex (WalletRefresh now r) = refresh_wallet_balance now r ex"
| "exec_step ex (LossReport loss) = ex\<lparr>ex_limits := sync_realized_loss (ex_limits ex) loss\<rparr>"

text \<open>
  Well-formed: the map and the tasks point at entries, a task knows its entry's route, and
  no V2 entry is approved (only the background task of a Four.Meme buy approves).
\<close>

definition exec_wf :: "executor \<Rightarrow> bool" where
  "exec_wf ex \<longleftrightarrow> (\<forall>t i. ex_positions ex t = Some i \<longrightarrow> i < length (ex_entries ex))
    \<and> (\<forall>b \<in> set (ex_spawned ex). bg_entry b < length (ex_entries ex)
          \<and> pe_route (ex_entries ex ! bg_entry b) = bg_route b)
    \<and> (\<forall>e \<in> set (ex_entries ex). pe_route e = PancakeV2 \<longrightarrow> \<not> pe_approved e)"

lemma same_book_wf: "exec_wf ex \<Longrightarrow> same_book ex ex' \<Longrightarrow> exec_wf ex'"
proof -
  assume wf: "exec_wf ex" and s: "same_book ex ex'"
  have "i < length (ex_entries ex')" if "ex_positions ex' t = Some i" for t i
  proof -
    have "ex_positions ex t = Some i" using s that by (simp add: same_book_def)
    then show ?thesis using wf s by (simp add: exec_wf_def same_book_def)
  qed
  then show "exec_wf ex'" using wf s by (simp add: exec_wf_def same_book_def)
qed

lemma book_grows_wf:
  assumes "exec_wf ex" and "book_grows ex ex'"
  shows "exec_wf ex'"
proof -
  obtain e task token where g: "ex_entries ex' = ex_entries ex @ [e]" "\<not> pe_approved e"
    "ex_spawned ex' = ex_spawned ex @ [task]" "bg_entry task = length (ex_entries ex)" "bg_route task = pe_route e"
    "\<forall>t i. ex_positions ex' t = Some i \<longrightarrow> ex_positions ex t = Some i \<or> t = token \<and> i = length (ex_entries ex)"
    using assms(2) unfolding book_grows_def by blast
  show ?thesis
    using assms(1) g by (fastforce simp: exec_wf_def nth_append)
qed

text \<open>An entry rewritten in place, keeping its route and never approving V2.\<close>

lemma update_wf:
  assumes "exec_wf ex" and "ex_entries ex' = (ex_entries ex)[i := e]"
    and "ex_positions ex' = ex_positions ex" and "ex_spawned ex' = ex_spawned ex"
    and "i < length (ex_entries ex) \<Longrightarrow> pe_route e = pe_route (ex_entries ex ! i)
           \<and> (pe_route e = PancakeV2 \<longrightarrow> \<not> pe_approved e)"
  shows "exec_wf ex'"
proof -
  have "pe_route e' = PancakeV2 \<longrightarrow> \<not> pe_approved e'" if "e' \<in> set ((ex_entries ex)[i := e])" for e'
  proof (cases "i < length (ex_entries ex)")
    case True
    then show ?thesis using that assms(1,5) set_update_subset_insert [of "ex_entries ex" i e]
      by (auto simp: exec_wf_def)
  next
    case False
    then show ?thesis using that assms(1) by (simp add: exec_wf_def list_update_beyond)
  qed
  moreover have "pe_route ((ex_entries ex)[i := e] ! j) = pe_route (ex_entries ex ! j)" if "j < length (ex_entries ex)" for j
    using that assms(5) by (cases "i = j") simp_all
  ultimately show ?thesis using assms(1-4) by (auto simp: exec_wf_def)
qed

lemma entry_at_Some:
  "entry_at ex token = Some e \<longleftrightarrow> (\<exists>i. ex_positions ex token = Some i \<and> e = ex_entries ex ! i)"
  by (auto simp: entry_at_def)

lemma mark_sold_wf: "exec_wf ex \<Longrightarrow> exec_wf (mark_sold token full ours bal ex)"
proof -
  assume wf: "exec_wf ex"
  show ?thesis
  proof (cases "ex_positions ex token")
    case (Some i)
    then have "i < length (ex_entries ex)" using wf by (simp add: exec_wf_def)
    then have mem: "ex_entries ex ! i \<in> set (ex_entries ex)" by simp
    show ?thesis
      using wf mem
      by (intro update_wf [OF wf, of _ i "(ex_entries ex ! i)\<lparr>pe_tokens_bought
            := if full then 0 else saturating_sub_u256 ours bal\<rparr>"])
        (auto simp: mark_sold_def Some set_tokens_def exec_wf_def)
  qed (simp add: mark_sold_def wf)
qed

lemma approve_and_sell_wf:
  assumes "exec_wf ex" and "approve_and_sell pf rd kol token route fast full ours bal ex = (out, ex')"
  shows "exec_wf ex'"
proof -
  have "ex_entries ex' = ex_entries ex \<or> ex_entries ex' = ex_entries (mark_sold token full ours bal ex)"
    using approve_and_sell_cases [OF assms(2)] by (cases out) auto
  moreover have "ex_positions (mark_sold token full ours bal ex) = ex_positions ex"
    "ex_spawned (mark_sold token full ours bal ex) = ex_spawned ex"
    by (simp_all add: mark_sold_def set_tokens_def split: option.splits)
  ultimately show ?thesis
    using assms(1) mark_sold_wf [OF assms(1), of token full ours bal] approve_and_sell_cases [OF assms(2)]
    by (auto simp: exec_wf_def)
qed

lemma execute_exit_wf:
  assumes "exec_wf ex"
  shows "exec_wf (snd (execute_exit pf rd token kol blk addr ex))"
proof -
  obtain h ex1 where h: "exit_holding pf rd token ex = (h, ex1)" by fastforce
  have wf1: "exec_wf ex1" using exit_holding_frame [OF h] assms by (simp add: exec_wf_def)
  have "exec_wf (snd (approve_and_sell pf rd kol token route fast full ours bal ex1))" for route fast full ours bal
    using approve_and_sell_wf [OF wf1] by (metis prod.collapse)
  then show ?thesis
    using assms wf1 by (auto simp: execute_exit_def h Let_def split: holding.splits)
qed

lemma set_tokens_wf: "exec_wf ex \<Longrightarrow> exec_wf (set_tokens i v ex)"
  by (rule update_wf [of ex _ i "(ex_entries ex ! i)\<lparr>pe_tokens_bought := v\<rparr>"])
    (auto simp: set_tokens_def exec_wf_def)

lemma submit_approve_bg_frame:
  assumes "submit_approve_bg pf br token ex = (ok, ex')"
  shows "ex_entries ex' = ex_entries ex" "ex_positions ex' = ex_positions ex" "ex_spawned ex' = ex_spawned ex"
    "ex_limits ex' = ex_limits ex"
proof -
  obtain n ex1 where r: "reserve_nonce ex = (n, ex1)" by fastforce
  show "ex_entries ex' = ex_entries ex" "ex_positions ex' = ex_positions ex" "ex_spawned ex' = ex_spawned ex"
    "ex_limits ex' = ex_limits ex"
    using assms reserve_nonce_frame [OF r]
    by (auto simp: submit_approve_bg_def r Let_def split: option.splits reply.splits)
qed

lemma finalize_position_wf:
  assumes "exec_wf ex" and "task \<in> set (ex_spawned ex)"
  shows "exec_wf (finalize_position pf br task ex)"
proof -
  let ?ex1 = "learn_balance pf br task ex"
  have wf1: "exec_wf ?ex1"
    using assms(1) by (simp add: learn_balance_def Let_def set_tokens_wf)
  have task: "bg_entry task < length (ex_entries ?ex1)
      \<and> pe_route (ex_entries ?ex1 ! bg_entry task) = bg_route task"
    using wf1 assms(2) by (auto simp: learn_balance_def Let_def set_tokens_def exec_wf_def split: if_splits)
  obtain ok ex2 where a: "submit_approve_bg pf br (bg_token task) ?ex1 = (ok, ex2)" by fastforce
  note f = submit_approve_bg_frame [OF a]
  have wf2: "exec_wf ex2" using wf1 f by (simp add: exec_wf_def)
  have wf3: "exec_wf (set_approved (bg_entry task) ex2)" if "bg_route task = FourMeme"
    by (rule update_wf [OF wf2, of _ "bg_entry task" "(ex_entries ex2 ! bg_entry task)\<lparr>pe_approved := True\<rparr>"])
      (use task f that in \<open>auto simp: set_approved_def\<close>)
  show ?thesis
    using assms(1) wf1 wf2 wf3 by (auto simp: finalize_position_def Let_def a split: if_splits bool.splits)
qed

lemma exec_step_wf:
  assumes "exec_wf ex"
  shows "exec_wf (exec_step ex ev)"
proof (cases ev)
  case (BuyDecision pf rd dec vis)
  then show ?thesis
    using execute_book [of ex pf rd dec vis "executor_open_positions ex"] same_book_wf [OF assms]
      book_grows_wf [OF assms] by auto
next
  case (DropPosition token)
  then show ?thesis using assms by (auto simp: drop_position_def exec_wf_def split: if_splits)
next
  case (WalletRefresh now r)
  then show ?thesis using assms by (auto simp: refresh_wallet_balance_def exec_wf_def split: option.splits)
next
  case (LossReport loss)
  then show ?thesis using assms by (simp add: exec_wf_def)
qed (simp_all add: assms execute_exit_wf finalize_position_wf)

interpretation exec: stateful exec_step exec_wf
  by unfold_locales (rule exec_step_wf)

lemma executor_new_wf: "exec_wf (executor_new w n l ll b now)"
  by (simp add: exec_wf_def executor_new_def)

end
