(* ===== verification/ExecutorSafety.thy ===== *)
theory ExecutorSafety
  imports ExecutorRun
begin

text \<open>
  The properties of the executor that span buys, exits and the background task: no
  oversell, the fully-exited state, what a pending sell does, the route switch on the fast
  path, the entries of V2 buys, the background task and the nonces of everything sent.
\<close>

section \<open>Exits of a ready position\<close>

definition ready_at :: "executor \<Rightarrow> address \<Rightarrow> nat \<Rightarrow> bool" where
  "ready_at ex token i \<longleftrightarrow> ex_positions ex token = Some i \<and> i < length (ex_entries ex)
     \<and> pe_approved (ex_entries ex ! i)"

definition tokens_at :: "executor \<Rightarrow> nat \<Rightarrow> u256" where
  "tokens_at ex i = pe_tokens_bought (ex_entries ex ! i)"

fun exit_sold :: "exit_outcome \<Rightarrow> nat" where
  "exit_sold (SellBroadcast tx) = unat (sale_amount (tx_input tx))"
| "exit_sold _ = 0"

definition exit_size :: "u256 \<Rightarrow> f64 \<Rightarrow> u256" where
  "exit_size ours fraction = (if is_full_close fraction then ours else scale_u256_by_fraction ours fraction)"

lemma exit_size_le: "exit_size ours fraction \<le> ours"
  by (simp add: exit_size_def scale_le)

text \<open>One exit of a ready position, with its effect on the cached amount.\<close>

lemma ready_exit:
  assumes "ready_at ex token i" and "execute_exit pf rd token kol blk addr ex = (out, ex')"
  shows "ready_at ex' token i
    \<and> (tokens_at ex i = 0 \<longrightarrow> ex' = ex \<and> exit_sold out = 0)
    \<and> (case out of
         SellBroadcast tx \<Rightarrow> sale_amount (tx_input tx) = exit_size (tokens_at ex i) (exit_fraction pf rd addr blk)
           \<and> tokens_at ex' i = tokens_at ex i - sale_amount (tx_input tx)
       | _ \<Rightarrow> tokens_at ex' i = tokens_at ex i)"
proof -
  let ?e = "ex_entries ex ! i" and ?f = "exit_fraction pf rd addr blk"
  let ?bal = "exit_size (tokens_at ex i) ?f"
  have e: "entry_at ex token = Some ?e" using assms(1) by (simp add: ready_at_def entry_at_def)
  have ap: "pe_approved ?e" using assms(1) by (simp add: ready_at_def)
  show ?thesis
  proof (cases "check_blacklisted (ex_blacklist ex) token \<or> tokens_at ex i = 0
      \<or> \<not> is_full_close ?f \<and> ?bal = 0")
    case True
    then have "ex' = ex \<and> (\<exists>s. out = ExitSkipped s)"
      using assms(2) e ap by (auto simp: execute_exit_def exit_holding_def tokens_at_def exit_size_def Let_def
          split: if_splits)
    then show ?thesis using assms(1) by auto
  next
    case False
    then have as: "approve_and_sell pf rd kol token (pe_route ?e) True (is_full_close ?f) (tokens_at ex i) ?bal ex
        = (out, ex')"
      using assms(2) e ap by (auto simp: execute_exit_def exit_holding_def tokens_at_def exit_size_def Let_def)
    have i: "i < length (ex_entries ex)" "ex_positions ex token = Some i"
      using assms(1) by (simp_all add: ready_at_def)
    have le: "?bal \<le> tokens_at ex i" by (rule exit_size_le)
    have mark: "ex_entries (mark_sold token (is_full_close ?f) (tokens_at ex i) ?bal ex)
        = (ex_entries ex)[i := ?e\<lparr>pe_tokens_bought := tokens_at ex i - ?bal\<rparr>]"
      using i le by (auto simp: mark_sold_def set_tokens_def saturating_sub_u256_def exit_size_def)
    have pos: "ex_positions ex' token = Some i"
      using approve_and_sell_cases [OF as] i by simp
    show ?thesis
    proof (cases out)
      case (SellBroadcast tx)
      then have "ex_entries ex' = (ex_entries ex)[i := ?e\<lparr>pe_tokens_bought := tokens_at ex i - ?bal\<rparr>]"
        "sale_amount (tx_input tx) = ?bal"
        using approve_and_sell_cases [OF as] mark by simp_all
      then show ?thesis using SellBroadcast False i ap pos by (simp add: ready_at_def tokens_at_def)
    qed (use approve_and_sell_cases [OF as] False i ap pos in \<open>simp_all add: ready_at_def tokens_at_def\<close>)
  qed
qed

text \<open>A sequence of exits of one token, each with its own signal, replies and outcome.\<close>

record exit_signal =
  xs_platform :: platform
  xs_readings :: readings
  xs_kol :: string
  xs_block :: u64
  xs_addr :: address

fun run_exits :: "address \<Rightarrow> exit_signal list \<Rightarrow> executor \<Rightarrow> nat \<times> executor" where
  "run_exits token [] ex = (0, ex)"
| "run_exits token (x # xs) ex =
     (case execute_exit (xs_platform x) (xs_readings x) token (xs_kol x) (xs_block x) (xs_addr x) ex of
        (out, ex1) \<Rightarrow> (case run_exits token xs ex1 of (n, ex2) \<Rightarrow> (exit_sold out + n, ex2)))"

lemma run_exits_conserve:
  "ready_at ex token i \<Longrightarrow> run_exits token xs ex = (n, ex') \<Longrightarrow>
   ready_at ex' token i \<and> n + unat (tokens_at ex' i) = unat (tokens_at ex i)"
proof (induction xs arbitrary: ex n ex')
  case (Cons x xs)
  obtain out ex1 where o: "execute_exit (xs_platform x) (xs_readings x) token (xs_kol x) (xs_block x) (xs_addr x) ex
      = (out, ex1)" by fastforce
  obtain m ex2 where m: "run_exits token xs ex1 = (m, ex2)" by fastforce
  note r = ready_exit [OF Cons.prems(1) o]
  have ih: "ready_at ex2 token i \<and> m + unat (tokens_at ex2 i) = unat (tokens_at ex1 i)"
    using Cons.IH [OF _ m] r by blast
  have "exit_sold out + unat (tokens_at ex1 i) = unat (tokens_at ex i)"
  proof (cases out)
    case (SellBroadcast tx)
    then have "sale_amount (tx_input tx) \<le> tokens_at ex i" using r exit_size_le by simp
    then show ?thesis using SellBroadcast r by (simp add: unat_sub word_le_nat_alt)
  qed (use r in simp_all)
  then show ?case using Cons.prems(2) o m ih by simp
qed simp

lemma full_close_one: "is_full_close (Fin 1)"
  using rnd_mono [of "99 / 100" 1] by (simp add: is_full_close_def flit_def)

section \<open>A concrete holding\<close>

definition example_entry :: "u256 \<Rightarrow> bool \<Rightarrow> position_entry" where
  "example_entry tokens approved = \<lparr>pe_route = FourMeme, pe_tokens_bought = tokens, pe_bnb_in = 1,
     pe_approved = approved, pe_opened_at = 0\<rparr>"

definition example_holder :: "u256 \<Rightarrow> bool \<Rightarrow> executor" where
  "example_holder tokens approved = example_executor
     \<lparr>ex_entries := [example_entry tokens approved], ex_positions := [5 \<mapsto> 0]\<rparr>"

lemma example_ready: "ready_at (example_holder n True) 5 0" "tokens_at (example_holder n True) 0 = n"
  by (simp_all add: ready_at_def tokens_at_def example_holder_def example_entry_def)

lemma example_live: "live_mode (example_holder n a)"
  by (simp add: live_mode_def example_holder_def example_executor_def executor_new_def limits_new_def
      broadcast_enabled_def)

lemma example_submit: "broadcast_result jt (rd_submit example_readings tx) = Inr ()"
  by (simp add: example_readings_def broadcast_result_def submit_raw_unfold submit_verdict_def)

lemma example_gas_cached:
  "ex_gas_cache ex = \<lparr>gc_wei = 10000000000, gc_refreshed = 0\<rparr> \<Longrightarrow>
   gas_wei (rd_instant example_readings) r ex = (Some 10000000000, ex)"
  by (simp add: gas_wei_def example_readings_def elapsed_def GAS_PRICE_TTL_def)

lemma example_sell:
  assumes "blk = 0 \<or> addr = 0"
  obtains tx ex' where
    "execute_exit example_platform example_readings 5 kol blk addr (example_holder 1000 True) = (SellBroadcast tx, ex')"
proof -
  let ?ex = "example_holder 1000 True"
  have bl: "\<not> check_blacklisted (ex_blacklist ?ex) 5"
    by (simp add: check_blacklisted_def example_holder_def example_executor_def executor_new_def
        is_blacklisted_def FALLBACK_BLACKLISTED_def)
  have h: "exit_holding example_platform example_readings 5 ?ex = (Holding 1000 FourMeme True, ?ex)"
    by (simp add: exit_holding_def entry_at_def example_holder_def example_entry_def Let_def)
  have pr: "pick_route example_platform example_readings k 5 ActSell ?ex = (Some FourMeme, ?ex)" for k
    by (simp add: pick_route_def v2_pair_cached_def cached_pair_def example_holder_def example_executor_def
        elapsed_def V2_PAIR_NEG_TTL_def example_readings_def sell_probe_accepts_def)
  obtain n ex1 where r: "reserve_nonce ?ex = (n, ex1)" by fastforce
  note f = reserve_nonce_frame [OF r]
  have "ex_gas_cache ex1 = \<lparr>gc_wei = 10000000000, gc_refreshed = 0\<rparr>"
    using r by (auto simp: reserve_nonce_def reserve_def Let_def example_holder_def example_executor_def)
  note g = example_gas_cached [OF this]
  have live: "live_mode ex1" using example_live [of 1000 True] f by (simp add: live_mode_def)
  have sgn: "pf_sign example_platform = (\<lambda>_. Some 7)" by (simp add: example_platform_def)
  have ff: "exit_fraction example_platform example_readings addr blk = Fin 1"
    using assms by (auto simp: exit_fraction_def kol_sell_fraction_def)
  show thesis
    by (rule that)
      (simp add: execute_exit_def bl h ff full_close_one approve_and_sell_def ensure_allowance_def pr
        send_sell_def build_sell_def r g sgn live broadcast_def example_submit Let_def del: One_nat_def)
qed

section \<open>Properties\<close>

text \<open>
  C3: No oversell: over any sequence of exit signals for a token whose position is cached
  and approved (duplicates, tranches, different KOLs, any replies, failed and shadow runs
  included), the accepted sells add up to what was held minus what the cache still holds,
  so they never exceed the holding.
\<close>

theorem exits_never_oversell:
  assumes "ready_at ex token i" and "run_exits token xs ex = (sold, ex')"
  shows "sold + unat (tokens_at ex' i) = unat (tokens_at ex i) \<and> sold \<le> unat (tokens_at ex i)
    \<and> ready_at ex' token i"
  using run_exits_conserve [OF assms] by simp

theorem exits_never_oversell_witness:
  "\<exists>sold ex'. run_exits 5 [\<lparr>xs_platform = example_platform, xs_readings = example_readings, xs_kol = ''D'',
       xs_block = 0, xs_addr = 1\<rparr>] (example_holder 1000 True) = (sold, ex')
     \<and> sold + unat (tokens_at ex' 0) = 1000"
proof -
  obtain sold ex' where r: "run_exits 5 [\<lparr>xs_platform = example_platform, xs_readings = example_readings,
      xs_kol = ''D'', xs_block = 0, xs_addr = 1\<rparr>] (example_holder 1000 True) = (sold, ex')" by fastforce
  from exits_never_oversell [OF example_ready(1) r] r show ?thesis by (simp add: example_ready)
qed

text \<open>
  A fully exited position is inert: once the cached amount of an approved position is
  zero every further exit signal is skipped and leaves the whole state as it is, so no
  second sell transaction is built; and a new entry decision clears it instead of being
  refused.
\<close>

lemma fully_exited_is_noop:
  assumes "ready_at ex token i" and "tokens_at ex i = 0"
  shows "execute_exit pf rd token kol blk addr ex
      \<in> {(ExitSkipped ''blacklisted'', ex), (ExitSkipped ''fully_exited'', ex)}
    \<and> dup_guard token ex = Some (drop_position token ex)"
  using assms by (auto simp: execute_exit_def exit_holding_def ready_at_def tokens_at_def entry_at_def
      dup_guard_def Let_def)

text \<open>
  A sell seen in the mempool (block 0, so no fraction can be computed) closes the
  whole position: an accepted sell takes every cached token, and the confirmed signal
  that follows is a no-op.
\<close>

lemma pending_sell_closes_fully:
  assumes "ready_at ex token i"
    and "execute_exit pf rd token kol 0 addr ex = (SellBroadcast tx, ex')"
  shows "sale_amount (tx_input tx) = tokens_at ex i \<and> tokens_at ex' i = 0
    \<and> execute_exit pf2 rd2 token kol2 blk2 addr2 ex'
        \<in> {(ExitSkipped ''blacklisted'', ex'), (ExitSkipped ''fully_exited'', ex')}"
proof -
  have f: "exit_fraction pf rd addr 0 = Fin 1"
    by (simp add: exit_fraction_def kol_sell_fraction_def)
  have r: "ready_at ex' token i" "sale_amount (tx_input tx) = tokens_at ex i" "tokens_at ex' i = 0"
    using ready_exit [OF assms] by (simp_all add: f exit_size_def full_close_one)
  then show ?thesis
    by (auto simp: execute_exit_def exit_holding_def ready_at_def tokens_at_def entry_at_def Let_def)
qed

text \<open>
  A V2 position never becomes approved, so it is never recognised as fully exited: in
  every state reached from a well-formed one, whatever exits have sold, a further entry
  decision on its token is refused as a duplicate (only \<open>drop_position\<close> would free it).
\<close>

lemma v2_position_blocks_reentry:
  assumes "exec_wf ex0" and "entry_at (foldl exec_step ex0 es) token = Some e" and "pe_route e = PancakeV2"
  shows "\<not> pe_approved e
    \<and> execute pf rd (Enter kol token amount kb blk h) vis op (foldl exec_step ex0 es)
        = (Skipped ''dup_entry'', foldl exec_step ex0 es)"
proof -
  let ?ex = "foldl exec_step ex0 es"
  have wf: "exec_wf ?ex" by (rule exec.run_inv [OF assms(1)])
  obtain i where i: "ex_positions ?ex token = Some i" "e = ex_entries ?ex ! i"
    using assms(2) by (auto simp: entry_at_Some)
  then have "e \<in> set (ex_entries ?ex)" using wf by (auto simp: exec_wf_def)
  then have "\<not> pe_approved e" using wf assms(3) by (simp add: exec_wf_def)
  then show ?thesis using assms(2) by (simp add: execute_def dup_guard_def)
qed

text \<open>
  The fast path never looks at the allowance: a position approved for Four.Meme whose
  token has since got a V2 pair is sold through the V2 router by a single transaction, with
  no approval for that router sent before it, and the cached amount is reduced as if the
  sell had gone through.
\<close>

lemma fast_path_route_switch:
  assumes "ready_at ex token i" and "pe_route (ex_entries ex ! i) = FourMeme"
    and "ex_pair_cache ex token = Some c" and "vc_pair c \<noteq> None"
    and "execute_exit pf rd token kol blk addr ex = (SellBroadcast tx, ex')"
  shows "tx_to tx = PANCAKE_V2_ROUTER \<and> ex_sent ex' = ex_sent ex @ [tx]
    \<and> tokens_at ex' i = tokens_at ex i - sale_amount (tx_input tx)"
proof -
  let ?e = "ex_entries ex ! i" and ?f = "exit_fraction pf rd addr blk"
  let ?bal = "exit_size (tokens_at ex i) ?f"
  have e: "entry_at ex token = Some ?e" "pe_approved ?e"
    using assms(1) by (simp_all add: ready_at_def entry_at_def)
  have pr: "pick_route pf rd k token ActSell ex = (Some PancakeV2, ex)" for k
    using assms(3,4) by (auto simp: pick_route_def v2_pair_cached_def cached_pair_def split: option.splits)
  have "tokens_at ex i \<noteq> 0"
    using assms(1,5) ready_exit [OF assms(1,5)]
    by (auto simp: execute_exit_def exit_holding_def e tokens_at_def Let_def split: if_splits)
  then have "approve_and_sell pf rd kol token (pe_route ?e) True (is_full_close ?f) (tokens_at ex i) ?bal ex
      = (SellBroadcast tx, ex')"
    using assms(5) e
    by (auto simp: execute_exit_def exit_holding_def tokens_at_def exit_size_def Let_def split: if_splits)
  then have s: "send_sell pf rd kol token PancakeV2 (is_full_close ?f) (tokens_at ex i) ?bal ex
      = (SellBroadcast tx, ex')"
    by (simp add: approve_and_sell_def ensure_allowance_def pr del: One_nat_def)
  from send_sell_cases [OF s] ready_exit [OF assms(1,5)] show ?thesis
    by (simp add: spender_of_def)
qed

definition example_graduated :: executor where
  "example_graduated = (example_holder 1000 True)\<lparr>ex_pair_cache := [5 \<mapsto> \<lparr>vc_pair = Some 8, vc_cached_at = 0\<rparr>]\<rparr>"

lemma example_v2_sell:
  obtains tx ex' where
    "execute_exit example_platform example_readings 5 ''D'' 0 1 example_graduated = (SellBroadcast tx, ex')"
proof -
  let ?ex = example_graduated
  have bl: "\<not> check_blacklisted (ex_blacklist ?ex) 5"
    by (simp add: check_blacklisted_def example_graduated_def example_holder_def example_executor_def
        executor_new_def is_blacklisted_def FALLBACK_BLACKLISTED_def)
  have h: "exit_holding example_platform example_readings 5 ?ex = (Holding 1000 FourMeme True, ?ex)"
    by (simp add: exit_holding_def entry_at_def example_graduated_def example_holder_def example_entry_def Let_def)
  have pr: "pick_route example_platform example_readings k 5 ActSell ?ex = (Some PancakeV2, ?ex)" for k
    by (simp add: pick_route_def v2_pair_cached_def cached_pair_def example_graduated_def)
  obtain n ex1 where r: "reserve_nonce ?ex = (n, ex1)" by fastforce
  note f = reserve_nonce_frame [OF r]
  have "ex_gas_cache ex1 = \<lparr>gc_wei = 10000000000, gc_refreshed = 0\<rparr>"
    using r by (auto simp: reserve_nonce_def reserve_def Let_def example_graduated_def example_holder_def
        example_executor_def)
  note g = example_gas_cached [OF this]
  have live: "live_mode ex1"
    using example_live [of 1000 True] f by (simp add: live_mode_def example_graduated_def)
  have sgn: "pf_sign example_platform = (\<lambda>_. Some 7)" by (simp add: example_platform_def)
  have ff: "exit_fraction example_platform example_readings 1 0 = Fin 1"
    by (simp add: exit_fraction_def kol_sell_fraction_def)
  show thesis
    by (rule that)
      (simp add: execute_exit_def bl h ff full_close_one approve_and_sell_def ensure_allowance_def pr
        send_sell_def build_sell_def r g sgn live broadcast_def example_submit Let_def del: One_nat_def)
qed

text \<open>
  The background task arms the fast path with what the chain reports: once the buy
  receipt, the balance and the approval are there, the entry holds the reported balance and
  is approved, whatever the cache said before, also when an exit on the slow path had just
  set it to zero (the sold position is then taken for a held one).
\<close>

lemma finalize_arms_entry:
  assumes "bg_entry task < length (ex_entries ex)" and "bg_route task = FourMeme" and "live_mode ex"
    and "poll_receipt (br_start br + 30 * 10 ^ 9) (br_buy_polls br)"
    and "bg_token_balance_of (pf_parse_u256 pf) (br_balance br) = Some b" and "b \<noteq> 0"
    and "\<And>tx. pf_sign pf tx \<noteq> None" and "br_submit br = Reply v" and "jget v ''error'' = None"
    and "poll_receipt (br_approve_start br + 15 * 10 ^ 9) (br_approve_polls br)"
  shows "ex_entries (finalize_position pf br task ex) ! bg_entry task
    = (ex_entries ex ! bg_entry task)\<lparr>pe_tokens_bought := b, pe_approved := True\<rparr>"
proof -
  let ?ex1 = "set_tokens (bg_entry task) b ex"
  obtain n ex2 where r: "reserve_nonce ?ex1 = (n, ex2)" by fastforce
  note f = reserve_nonce_frame [OF r]
  have live: "live_mode ?ex1" using assms(3) by (simp add: live_mode_def set_tokens_def)
  obtain ex3 where a: "submit_approve_bg pf br (bg_token task) ?ex1 = (True, ex3)" "ex_entries ex3 = ex_entries ?ex1"
    using assms(7-9) f by (auto simp: submit_approve_bg_def r Let_def split: option.splits)
  show ?thesis
    using assms(1-6,10) live a
    by (simp add: finalize_position_def learn_balance_def set_approved_def set_tokens_def Let_def)
qed

definition example_bg :: bg_readings where
  "example_bg = (let mined = Reply (JObj [(''result'', JObj [(''status'', JStr ''0x1'')])]) in
     \<lparr>br_start = 0, br_buy_polls = [(1, mined)], br_balance = Reply (JObj [(''result'', JStr [])]),
      br_gas = SendFailed, br_submit = Reply (JObj []), br_approve_start = 5,
      br_approve_polls = [(6, mined)]\<rparr>)"

definition example_task :: bg_task where
  "example_task = \<lparr>bg_token = 5, bg_buy_hash = 7, bg_route = FourMeme, bg_entry = 0\<rparr>"

lemma poll_receipt_cut:
  "(\<forall>p \<in> set ys. d \<le> fst p) \<Longrightarrow> poll_receipt d (xs @ ys) = poll_receipt d xs"
proof (induction xs)
  case Nil
  then show ?case by (cases ys) (auto split: if_splits)
qed (auto split: if_splits)

text \<open>
  The receipt wait is bounded: with iterations at least half a second apart, only the
  first 60 polls of the 30-second wait can matter.
\<close>

lemma receipt_wait_bounded:
  assumes "\<And>j. j < length polls \<Longrightarrow> start + int j * 500000000 \<le> fst (polls ! j)"
  shows "poll_receipt (start + 30 * 10 ^ 9) polls = poll_receipt (start + 30 * 10 ^ 9) (take 60 polls)"
proof -
  have "start + 30 * 10 ^ 9 \<le> fst p" if "p \<in> set (drop 60 polls)" for p
  proof -
    obtain j where j: "j < length (drop 60 polls)" "p = drop 60 polls ! j"
      using \<open>p \<in> set (drop 60 polls)\<close> by (metis in_set_conv_nth)
    then have "p = polls ! (60 + j)" "60 + j < length polls" by simp_all
    then show ?thesis using assms [of "60 + j"] by simp
  qed
  then show ?thesis using poll_receipt_cut [of "drop 60 polls" _ "take 60 polls"] by simp
qed

end
