(* ===== verification/TrailWatcher.thy ===== *)
theory TrailWatcher
  imports AdaptiveTrail FourMeme ExecutorSafety
begin

text \<open>
  \<open>crates/bsc-runner/src/trader/adaptive_trail.rs\<close>, the watcher around the tick function:
  the price sources (feed, V2 quote, observed curve), the state read back from the live
  ledger, the vote over the flow statistics, and what one block does to the held positions.
  HTTP replies and file lines are arguments. The tasks of one block, which the code spawns
  and joins, run one after the other; each touches only its own token's trail state.
\<close>

section \<open>Price sources\<close>

text \<open>A reading can panic (a slice out of range), give nothing, or give a price.\<close>

datatype price_read = PricePanic | NoPrice | Price f64

fun as_array :: "json \<Rightarrow> json list option" where
  "as_array (JArr xs) = Some xs"
| "as_array _ = None"

definition QUOTE_PROBE_IN :: u128 where
  "QUOTE_PROBE_IN = 1000000000000000"

text \<open>
  The last amount of the router's answer. Offsets are \<open>usize\<close>: they wrap, and a slice whose
  start is past its end (or whose end is past the data) panics.
\<close>

definition quote_decode :: "u8 list \<Rightarrow> u256 option option" where
  "quote_decode raw =
     (if length raw < 96 then Some None
      else let n = be_val (slice 32 64 raw) in
        if \<not> n < 2 ^ 64 then Some None
        else let needed = 64 + of_nat n * 32 :: u64 in
          if n = 0 \<or> length raw < unat needed then Some None
          else let last_off = 64 + (of_nat n - 1) * 32 :: u64; last_end = last_off + 32
               in if unat last_off \<le> unat last_end \<and> unat last_end \<le> length raw
                  then Some (Some (of_nat (be_val (slice (unat last_off) (unat last_end) raw))))
                  else None)"

definition v2_quote_price :: "(string \<Rightarrow> u8 list option) \<Rightarrow> reply \<Rightarrow> price_read" where
  "v2_quote_price hex_decode r =
     (case Option.bind (result_str r) (\<lambda>h. hex_decode (trim_start_matches ''0x'' h)) of
        None \<Rightarrow> NoPrice
      | Some raw \<Rightarrow>
          (case quote_decode raw of
             None \<Rightarrow> PricePanic
           | Some None \<Rightarrow> NoPrice
           | Some (Some tokens_out) \<Rightarrow>
               let tokens_out_f = f64_of_word tokens_out in
               if fle tokens_out_f (Fin 0) then NoPrice
               else Price (fdiv (f64_of_word QUOTE_PROBE_IN) tokens_out_f)))"

text \<open>The launchpad transfers of the token, latest first; \<open>tx_reply\<close> answers the fetch of a hash.\<close>

fun observed_loop :: "(string \<Rightarrow> u256 option) \<Rightarrow> (string \<Rightarrow> reply) \<Rightarrow> json list \<Rightarrow> f64 option" where
  "observed_loop parse_u256 tx_reply [] = None"
| "observed_loop parse_u256 tx_reply (lg # rest) =
     (let hex_s = trim_start_matches ''0x''
            (case Option.bind (jget lg ''data'') as_str of Some d \<Rightarrow> d | None \<Rightarrow> ''0x'') in
      if hex_s = [] then observed_loop parse_u256 tx_reply rest
      else case parse_u256 hex_s of
        None \<Rightarrow> None
      | Some tokens \<Rightarrow>
          if tokens = 0 then observed_loop parse_u256 tx_reply rest
          else case Option.bind (jget lg ''transactionHash'') as_str of
            None \<Rightarrow> None
          | Some h \<Rightarrow>
              (case Option.bind (Option.bind (reply_json (tx_reply h)) (\<lambda>v.
                      Option.bind (jget v ''result'') (\<lambda>tx. Option.bind (jget tx ''value'') as_str)))
                      (\<lambda>s. parse_u256 (trim_start_matches ''0x'' s)) of
                 None \<Rightarrow> None
               | Some bnb \<Rightarrow>
                   if bnb = 0 then observed_loop parse_u256 tx_reply rest
                   else Some (fdiv (f64_of_word bnb) (f64_of_word tokens))))"

definition fourmeme_observed_price ::
  "(string \<Rightarrow> u256 option) \<Rightarrow> reply \<Rightarrow> (string \<Rightarrow> reply) \<Rightarrow> u64 \<Rightarrow> u64 \<Rightarrow> f64 option" where
  "fourmeme_observed_price parse_u256 logs_reply tx_reply from_block to_block =
     (if to_block \<le> from_block then None
      else Option.bind (reply_json logs_reply) (\<lambda>v. Option.bind (jget v ''result'') (\<lambda>r.
             Option.bind (as_array r) (\<lambda>logs. observed_loop parse_u256 tx_reply (rev logs)))))"

text \<open>What one position's tick reads from outside.\<close>

record trail_readings =
  tr_ledger :: "string list option"
  tr_receipt :: "string \<Rightarrow> reply"
  tr_quote :: reply
  tr_logs :: reply
  tr_tx :: "string \<Rightarrow> reply"
  tr_exit :: readings

definition get_latest_price :: "platform \<Rightarrow> trail_readings \<Rightarrow> u64 \<Rightarrow> u64 \<Rightarrow> price_read" where
  "get_latest_price pf tr from_block to_block =
     (case v2_quote_price (pf_hex_decode pf) (tr_quote tr) of
        PricePanic \<Rightarrow> PricePanic
      | Price p \<Rightarrow> Price p
      | NoPrice \<Rightarrow>
          (case fourmeme_observed_price (pf_parse_u256 pf) (tr_logs tr) (tr_tx tr) from_block to_block of
             Some p \<Rightarrow> Price p | None \<Rightarrow> NoPrice))"

definition get_latest_price_cached ::
  "feed \<Rightarrow> u64 \<Rightarrow> platform \<Rightarrow> trail_readings \<Rightarrow> address \<Rightarrow> u64 \<Rightarrow> u64 \<Rightarrow> price_read" where
  "get_latest_price_cached fd max_stale_blocks pf tr token from_block to_block =
     (case fd_prices fd token of
        Some pp \<Rightarrow> if sat_sub to_block (pp_block pp) \<le> max_stale_blocks then Price (pp_price pp)
                   else get_latest_price pf tr from_block to_block
      | None \<Rightarrow> get_latest_price pf tr from_block to_block)"

section \<open>The state from the ledger\<close>

text \<open>\<open>str::split\<close>: the parts between separators, at least one.\<close>

fun split_on :: "char \<Rightarrow> string \<Rightarrow> string list" where
  "split_on c [] = [[]]"
| "split_on c (x # xs) =
     (if x = c then [] # split_on c xs
      else case split_on c xs of p # ps \<Rightarrow> (x # p) # ps | [] \<Rightarrow> [[x]])"

definition row_matches :: "string \<Rightarrow> string list \<Rightarrow> bool" where
  "row_matches token_lower parts \<longleftrightarrow> \<not> length parts < 13
     \<and> contains_str token_lower (to_lower (parts ! 4)) \<and> parts ! 3 \<noteq> ''exit''
     \<and> (case parse_u128 10 (parts ! 6) of Some n \<Rightarrow> n | None \<Rightarrow> 0) \<noteq> 0"

text \<open>The latest buy row of the token.\<close>

definition find_buy_row :: "string \<Rightarrow> string list \<Rightarrow> string list option" where
  "find_buy_row token_lower lines =
     foldl (\<lambda>acc line. let parts = split_on CHR '','' line in
              if row_matches token_lower parts then Some parts else acc) None lines"

definition TRANSFER_TOPIC :: string where
  "TRANSFER_TOPIC = ''0xddf252ad1be2c89b69c2b068fc378daa952ba7f163c4a11628f55a4df523b3ef''"

text \<open>The largest transfer of the token in the receipt; \<open>None\<close> is an early return.\<close>

fun received_loop :: "(string \<Rightarrow> u256 option) \<Rightarrow> string \<Rightarrow> f64 \<Rightarrow> json list \<Rightarrow> f64 option" where
  "received_loop parse_u256 token_str acc [] = Some acc"
| "received_loop parse_u256 token_str acc (lg # rest) =
     (if to_lower (case Option.bind (jget lg ''address'') as_str of Some a \<Rightarrow> a | None \<Rightarrow> []) \<noteq> token_str
      then received_loop parse_u256 token_str acc rest
      else case Option.bind (jget lg ''topics'') as_array of
        None \<Rightarrow> None
      | Some [] \<Rightarrow> received_loop parse_u256 token_str acc rest
      | Some (t # ts) \<Rightarrow>
          if to_lower (case as_str t of Some s \<Rightarrow> s | None \<Rightarrow> []) \<noteq> TRANSFER_TOPIC
          then received_loop parse_u256 token_str acc rest
          else let hex = trim_start_matches ''0x''
                     (case Option.bind (jget lg ''data'') as_str of Some d \<Rightarrow> d | None \<Rightarrow> ''0x'') in
            if hex = [] then received_loop parse_u256 token_str acc rest
            else case parse_u256 hex of
              None \<Rightarrow> None
            | Some amt \<Rightarrow>
                let amt_f = f64_of_word amt in
                received_loop parse_u256 token_str (if flt acc amt_f then amt_f else acc) rest)"

definition init_state_from_ledger ::
  "platform \<Rightarrow> trail_readings \<Rightarrow> address \<Rightarrow> u64 \<Rightarrow> trail_state option" where
  "init_state_from_ledger pf tr token current_block =
     (let token_lower = to_lower (rf_address (pf_rows pf) token) in
      Option.bind (tr_ledger tr) (\<lambda>lines. Option.bind (find_buy_row token_lower lines) (\<lambda>row.
      Option.bind (parse_u128 10 (row ! 6)) (\<lambda>wei.
        let bnb_in = fdiv (f64_of_word wei) (flit (10 ^ 18)) in
        Option.bind (reply_json (tr_receipt tr (row ! 9))) (\<lambda>v.
        Option.bind (jget v ''result'') (\<lambda>receipt.
        Option.bind (Option.bind (jget receipt ''logs'') as_array) (\<lambda>logs.
        Option.bind (received_loop (pf_parse_u256 pf) token_lower (Fin 0) (rev logs)) (\<lambda>tokens_received.
          if fle tokens_received (Fin 0) then None
          else let entry_price = fdiv (fmul bnb_in (flit (10 ^ 18))) tokens_received;
                   buy_block = (case Option.bind (Option.bind (jget receipt ''blockNumber'') as_str)
                       (\<lambda>s. parse_u64 16 (trim_start_matches ''0x'' s)) of Some b \<Rightarrow> b | None \<Rightarrow> current_block)
               in Some (trail_state_default\<lparr>ts_entry_price := entry_price, ts_peak_price := entry_price,
                    ts_last_price := entry_price, ts_armed := False, ts_opened_block := buy_block,
                    ts_last_observed_block := buy_block\<rparr>)))))))))"

section \<open>The vote\<close>

definition buy_collapse :: "token_stats \<Rightarrow> f64" where
  "buy_collapse stats =
     (let bv3 = fdiv (f64_of_word (buy_count_last 3 stats)) (Fin 3);
          bv10 = fdiv (f64_of_word (buy_count_last 10 stats)) (Fin 10)
      in if flt (Fin 0) bv10 then fdiv bv3 bv10 else Fin 1)"

definition net_flow_bnb :: "token_stats \<Rightarrow> f64" where
  "net_flow_bnb stats = fdiv (f64_of_int (sint (net_flow_bnb_wei_last 3 stats))) (flit (10 ^ 18))"

definition count_votes :: "trail_state \<Rightarrow> f64 \<Rightarrow> token_stats \<Rightarrow> u8" where
  "count_votes s price stats =
     of_bool (dist_signal s price) + of_bool (vel_signal s price)
     + of_bool (flt (buy_collapse stats) (flit (1 / 2))) + of_bool (flt (net_flow_bnb stats) (Fin (- 1)))"

definition compute_vote_signals :: "feed \<Rightarrow> address \<Rightarrow> trail_state \<Rightarrow> f64 \<Rightarrow> u8 option" where
  "compute_vote_signals fd token s price =
     (if fle (local_max s) (Fin 0) then None
      else if fle (oldest_price s) (Fin 0) then None
      else map_option (count_votes s price) (fd_stats fd token))"

section \<open>One position, one block\<close>

record watcher =
  tw_cfg :: trail_config
  tw_exec :: executor
  tw_states :: "address \<rightharpoonup> trail_state"
  tw_feed :: feed

definition set_state :: "address \<Rightarrow> trail_state \<Rightarrow> watcher \<Rightarrow> watcher" where
  "set_state token s w = w\<lparr>tw_states := (tw_states w)(token \<mapsto> s)\<rparr>"

definition trail_kol :: "string \<Rightarrow> string" where
  "trail_kol reason = ''TRAIL_'' @ reason"

definition fire_exit ::
  "platform \<Rightarrow> trail_readings \<Rightarrow> address \<Rightarrow> string \<Rightarrow> u64 \<Rightarrow> watcher \<Rightarrow> exit_outcome \<times> watcher" where
  "fire_exit pf tr token reason block w =
     (case execute_exit pf (tr_exit tr) token (trail_kol reason) block 0 (tw_exec w) of
        (out, ex') \<Rightarrow> (out, w\<lparr>tw_exec := ex', tw_states := (tw_states w)(token := None)\<rparr>))"

definition CACHE_MAX_STALE_BLOCKS :: u64 where
  "CACHE_MAX_STALE_BLOCKS = 5"

definition vote_fires :: "feed \<Rightarrow> address \<Rightarrow> trail_state \<Rightarrow> f64 \<Rightarrow> bool" where
  "vote_fires fd token s price \<longleftrightarrow> ts_armed s \<and> PRICE_HISTORY_LEN \<le> unat (ts_history_count s)
     \<and> (case compute_vote_signals fd token s price of Some votes \<Rightarrow> 3 \<le> votes | None \<Rightarrow> False)"

text \<open>The reason to leave, with the state it leaves; a panic of the tick function ends the task.\<close>

definition tick_position ::
  "platform \<Rightarrow> trail_readings \<Rightarrow> address \<Rightarrow> trail_state \<Rightarrow> u64 \<Rightarrow> watcher
    \<Rightarrow> exit_outcome option \<times> watcher" where
  "tick_position pf tr token s block w =
     (case get_latest_price_cached (tw_feed w) CACHE_MAX_STALE_BLOCKS pf tr token
             (ts_last_observed_block s) block of
        PricePanic \<Rightarrow> (None, w)
      | NoPrice \<Rightarrow>
          if tc_max_hold_blocks (tw_cfg w) \<le> sat_sub block (ts_opened_block s)
          then map_prod Some id (fire_exit pf tr token ''timeout'' block w) else (None, w)
      | Price p \<Rightarrow>
          if vote_fires (tw_feed w) token s p
          then map_prod Some id (fire_exit pf tr token (exit_label SignalVote) block w)
          else case trail_step s (tw_cfg w) p block of
              None \<Rightarrow> (None, w)
            | Some (s', Some reason) \<Rightarrow> map_prod Some id (fire_exit pf tr token (exit_label reason) block w)
            | Some (s', None) \<Rightarrow> (None, set_state token s' w))"

definition process_one_position ::
  "platform \<Rightarrow> trail_readings \<Rightarrow> u64 \<Rightarrow> address \<Rightarrow> nat \<Rightarrow> watcher \<Rightarrow> exit_outcome option \<times> watcher" where
  "process_one_position pf tr block token i w =
     (let e = ex_entries (tw_exec w) ! i in
      if pe_tokens_bought e = 0 \<or> \<not> pe_approved e then (None, w)
      else case tw_states w token of
          Some s \<Rightarrow> tick_position pf tr token s block w
        | None \<Rightarrow>
            (case init_state_from_ledger pf tr token block of
               None \<Rightarrow> (None, w)
             | Some s \<Rightarrow> tick_position pf tr token s block (set_state token s w)))"

text \<open>A block: the positions of the snapshot in the map's iteration order.\<close>

definition on_block ::
  "platform \<Rightarrow> (address \<Rightarrow> trail_readings) \<Rightarrow> u64 \<Rightarrow> (address \<times> nat) list \<Rightarrow> watcher \<Rightarrow> watcher" where
  "on_block pf trs block snapshot w =
     foldl (\<lambda>w (token, i). snd (process_one_position pf (trs token) block token i w)) w snapshot"

section \<open>What a tick can do\<close>

lemma fire_exit_effect:
  assumes "fire_exit pf tr token reason block w = (out, w')"
  shows "execute_exit pf (tr_exit tr) token (trail_kol reason) block 0 (tw_exec w) = (out, tw_exec w')"
    and "tw_states w' = (tw_states w)(token := None)" and "tw_cfg w' = tw_cfg w" and "tw_feed w' = tw_feed w"
  using assms by (auto simp: fire_exit_def split: prod.splits)

lemma map_prod_fired: "map_prod Some id x = (res, w') \<Longrightarrow> \<exists>out. res = Some out \<and> x = (out, w')"
  by (cases x) simp

lemma tick_position_cases:
  assumes "tick_position pf tr token s block w = (res, w')"
  obtains "res = None" "w' = w"
    | p s' where "res = None" "trail_step s (tw_cfg w) p block = Some (s', None)" "w' = set_state token s' w"
    | out reason where "res = Some out" "fire_exit pf tr token reason block w = (out, w')"
proof -
  note fired = map_prod_fired [of "fire_exit pf tr token r block w" res w' for r]
  show thesis
  proof (cases "get_latest_price_cached (tw_feed w) CACHE_MAX_STALE_BLOCKS pf tr token (ts_last_observed_block s) block")
    case PricePanic
    then show thesis using assms that(1) by (simp add: tick_position_def)
  next
    case NoPrice
    then show thesis
      using assms that(1) that(3) fired [of "''timeout''"]
      by (cases "tc_max_hold_blocks (tw_cfg w) \<le> sat_sub block (ts_opened_block s)") (auto simp: tick_position_def)
  next
    case (Price p)
    note tick = assms [unfolded tick_position_def Price price_read.case]
    show thesis
    proof (cases "vote_fires (tw_feed w) token s p")
      case True
      then show thesis using tick that(3) fired [of "exit_label SignalVote"] by auto
    next
      case False
      note tick = tick [unfolded if_not_P [OF False]]
      show thesis
      proof (cases "trail_step s (tw_cfg w) p block")
        case None
        then show thesis using tick that(1) by simp
      next
        case (Some sr)
        obtain s' r where "sr = (s', r)" by (cases sr)
        then show thesis
          using tick that(2) that(3) fired Some by (cases r) force+
      qed
    qed
  qed
qed

lemma set_state_simps [simp]:
  "tw_exec (set_state token s w) = tw_exec w" "tw_cfg (set_state token s w) = tw_cfg w"
  "tw_feed (set_state token s w) = tw_feed w"
  "tw_states (set_state token s w) = (tw_states w)(token \<mapsto> s)"
  by (simp_all add: set_state_def)

lemma process_tick:
  assumes "process_one_position pf tr block token i w = (res, w')"
  obtains "res = None" "w' = w"
    | s where "tick_position pf tr token s block w = (res, w')" "tw_states w token = Some s"
    | s where "tick_position pf tr token s block (set_state token s w) = (res, w')"
        "init_state_from_ledger pf tr token block = Some s" "tw_states w token = None"
  using assms unfolding process_one_position_def Let_def
  by (cases "pe_tokens_bought (ex_entries (tw_exec w) ! i) = 0 \<or> \<not> pe_approved (ex_entries (tw_exec w) ! i)";
      cases "tw_states w token"; cases "init_state_from_ledger pf tr token block") simp_all

lemma process_cases:
  assumes "process_one_position pf tr block token i w = (res, w')"
  obtains "res = None" "tw_exec w' = tw_exec w"
    | out reason where "res = Some out" "tw_states w' = (tw_states w)(token := None)"
      "execute_exit pf (tr_exit tr) token (trail_kol reason) block 0 (tw_exec w) = (out, tw_exec w')"
proof -
  note goal = that
  have tick: thesis if "tick_position pf tr token s block w1 = (res, w')" and w1: "tw_exec w1 = tw_exec w"
    "(tw_states w1)(token := None) = (tw_states w)(token := None)" for s w1
    using that(1)
  proof (cases rule: tick_position_cases)
    case (3 out reason)
    then show thesis using goal(2) fire_exit_effect [OF 3(2)] w1 by simp
  qed (use goal(1) w1 in simp_all)
  from assms show thesis
    by (cases rule: process_tick) (use goal(1) tick in \<open>simp_all add: set_state_def\<close>)
qed

section \<open>Histories of the watcher\<close>

text \<open>
  The watcher shares the executor with the consumer and the background tasks, and the feed
  with the subscription: their steps come in between the blocks.
\<close>

datatype watch_event =
    BlockTick platform "address \<Rightarrow> trail_readings" u64 "(address \<times> nat) list"
  | TradeEvent trade_log bool
  | ExecEvent exec_event

fun watch_step :: "watcher \<Rightarrow> watch_event \<Rightarrow> watcher" where
  "watch_step w (BlockTick pf trs block snapshot) = on_block pf trs block snapshot w"
| "watch_step w (TradeEvent lg is_buy) = w\<lparr>tw_feed := feed_event lg is_buy (tw_feed w)\<rparr>"
| "watch_step w (ExecEvent ev) = w\<lparr>tw_exec := exec_step (tw_exec w) ev\<rparr>"

text \<open>The executor events a watcher event may cause: sells of held tokens, closing fully.\<close>

fun watch_allowed :: "watch_event \<Rightarrow> exec_event set" where
  "watch_allowed (BlockTick pf trs block snapshot) =
     {SellSignal pf (tr_exit (trs token)) token (trail_kol reason) block 0 | token reason. token \<in> fst ` set snapshot}"
| "watch_allowed (TradeEvent lg is_buy) = {}"
| "watch_allowed (ExecEvent ev) = {ev}"

fun watch_cost :: "watch_event \<Rightarrow> nat" where
  "watch_cost (BlockTick pf trs block snapshot) = length snapshot"
| "watch_cost (TradeEvent lg is_buy) = 0"
| "watch_cost (ExecEvent ev) = 1"

lemma watch_allowed_Cons:
  "watch_allowed (BlockTick pf trs block snapshot) \<subseteq> watch_allowed (BlockTick pf trs block (ti # snapshot))"
  unfolding watch_allowed.simps by (rule Collect_mono) (auto simp del: append.simps)

lemma on_block_sim:
  "\<exists>fs. set fs \<subseteq> watch_allowed (BlockTick pf trs block snapshot) \<and> length fs \<le> length snapshot
    \<and> tw_exec (on_block pf trs block snapshot w) = foldl exec_step (tw_exec w) fs"
proof (induction snapshot arbitrary: w)
  case Nil
  then show ?case by (intro exI [of _ "[]"]) (simp add: on_block_def)
next
  case (Cons ti snapshot)
  obtain token i where ti: "ti = (token, i)" by (cases ti)
  obtain res w1 where p: "process_one_position pf (trs token) block token i w = (res, w1)" by fastforce
  obtain gs where gs: "set gs \<subseteq> watch_allowed (BlockTick pf trs block snapshot)" "length gs \<le> length snapshot"
    "tw_exec (on_block pf trs block snapshot w1) = foldl exec_step (tw_exec w1) gs" using Cons.IH by blast
  have step: "on_block pf trs block (ti # snapshot) w = on_block pf trs block snapshot w1"
    by (simp add: on_block_def ti p)
  have sub: "set gs \<subseteq> watch_allowed (BlockTick pf trs block (ti # snapshot))"
    by (rule subset_trans [OF gs(1) watch_allowed_Cons])
  have len: "length gs \<le> length (ti # snapshot)" using gs(2) by simp
  from p show ?case
  proof (cases rule: process_cases)
    case 1
    have "tw_exec (on_block pf trs block (ti # snapshot) w) = foldl exec_step (tw_exec w) gs"
      by (simp only: step gs(3) 1(2))
    with sub len show ?thesis by blast
  next
    case (2 out reason)
    let ?ev = "SellSignal pf (tr_exit (trs token)) token (trail_kol reason) block 0"
    have "tw_exec w1 = exec_step (tw_exec w) ?ev" using 2(3) by simp
    then have "tw_exec (on_block pf trs block (ti # snapshot) w) = foldl exec_step (tw_exec w) (?ev # gs)"
      by (simp only: step gs(3) foldl.simps)
    moreover have "?ev \<in> watch_allowed (BlockTick pf trs block (ti # snapshot))"
      unfolding watch_allowed.simps ti by (intro CollectI exI conjI) (rule refl, simp)
    then have "set (?ev # gs) \<subseteq> watch_allowed (BlockTick pf trs block (ti # snapshot))"
      using sub by (simp only: list.set insert_subset)
    moreover have "length (?ev # gs) \<le> length (ti # snapshot)" using gs(2) by simp
    ultimately show ?thesis by blast
  qed
qed

interpretation watch_exec: simulation watch_step exec_step tw_exec watch_allowed watch_cost
proof
  fix e w
  show "\<exists>fs. set fs \<subseteq> watch_allowed e \<and> length fs \<le> watch_cost e
      \<and> tw_exec (watch_step w e) = foldl exec_step (tw_exec w) fs"
  proof (cases e)
    case (BlockTick pf trs block snapshot)
    then show ?thesis using on_block_sim by auto
  next
    case (ExecEvent ev)
    then show ?thesis by (intro exI [of _ "[ev]"]) simp
  qed (auto intro: exI [of _ "[]"])
qed

text \<open>Every state is that of some price history of its position.\<close>

definition states_ok :: "trail_config \<Rightarrow> (address \<rightharpoonup> trail_state) \<Rightarrow> bool" where
  "states_ok cfg m \<longleftrightarrow> (\<forall>token s. m token = Some s \<longrightarrow> (\<exists>e b ps. holding_state cfg e b ps s))"

lemma states_ok_upd: "states_ok cfg m \<Longrightarrow> holding_state cfg e b ps s \<Longrightarrow> states_ok cfg (m(token \<mapsto> s))"
  by (auto simp: states_ok_def)

lemma states_ok_del: "states_ok cfg m \<Longrightarrow> states_ok cfg (m(token := None))"
  by (simp add: states_ok_def)

definition watch_inv :: "watcher \<Rightarrow> bool" where
  "watch_inv w \<longleftrightarrow> exec_wf (tw_exec w) \<and> states_ok (tw_cfg w) (tw_states w)"

lemma init_state_fresh:
  "init_state_from_ledger pf tr token block = Some s \<Longrightarrow> \<exists>e b. s = fresh_state e b"
  by (auto simp: init_state_from_ledger_def fresh_state_def Let_def bind_eq_Some_conv split: if_splits)

lemma tick_keeps_states:
  assumes "tick_position pf tr token s block w = (res, w')"
    and "holding_state (tw_cfg w) e b ps s" and "states_ok (tw_cfg w) (tw_states w)"
  shows "tw_cfg w' = tw_cfg w \<and> states_ok (tw_cfg w) (tw_states w')"
  using assms(1)
proof (cases rule: tick_position_cases)
  case (2 p s')
  have "trail_wf s" using assms(2) by (simp add: holding_state_def)
  then obtain s1 where "trail_step s (tw_cfg w) p block = Some (s1, decide_exit (tw_cfg w) s1 p block)"
    "tick_effect (tw_cfg w) s p s1" by (rule trail_step_spec)
  then have "holding_state (tw_cfg w) e b (ps @ [p]) s'" using 2(2) assms(2) holding_state_tick by auto
  then show ?thesis using 2 assms(3) by (auto intro: states_ok_upd)
next
  case (3 out reason)
  then show ?thesis using fire_exit_effect [OF 3(2)] assms(3) by (simp add: states_ok_del)
qed (use assms(3) in simp)

lemma process_keeps_states:
  assumes "process_one_position pf tr block token i w = (res, w')"
    and inv: "states_ok (tw_cfg w) (tw_states w)"
  shows "tw_cfg w' = tw_cfg w \<and> states_ok (tw_cfg w) (tw_states w')"
proof -
  from assms(1) show ?thesis
  proof (cases rule: process_tick)
    case (2 s)
    obtain e b ps where "holding_state (tw_cfg w) e b ps s" using inv 2(2) unfolding states_ok_def by blast
    from tick_keeps_states [OF 2(1) this inv] show ?thesis .
  next
    case (3 s)
    then obtain e b where s: "s = fresh_state e b" using init_state_fresh by blast
    have h: "holding_state (tw_cfg (set_state token s w)) e b [] s" by (simp add: s holding_state_fresh)
    have "states_ok (tw_cfg (set_state token s w)) (tw_states (set_state token s w))"
      using states_ok_upd [OF inv] h by simp
    from tick_keeps_states [OF 3(1) h this] show ?thesis by simp
  qed (use inv in simp)
qed

lemma on_block_keeps_states:
  "states_ok (tw_cfg w) (tw_states w) \<Longrightarrow>
   tw_cfg (on_block pf trs block snapshot w) = tw_cfg w
   \<and> states_ok (tw_cfg w) (tw_states (on_block pf trs block snapshot w))"
proof (induction snapshot arbitrary: w)
  case (Cons ti snapshot)
  obtain token i where ti: "ti = (token, i)" by (cases ti)
  obtain res w1 where p: "process_one_position pf (trs token) block token i w = (res, w1)" by fastforce
  have "on_block pf trs block (ti # snapshot) w = on_block pf trs block snapshot w1"
    by (simp add: on_block_def ti p)
  with process_keeps_states [OF p Cons.prems] Cons.IH [of w1] show ?case by simp
qed (simp add: on_block_def)

lemma watch_step_inv: "watch_inv w \<Longrightarrow> watch_inv (watch_step w e)"
proof -
  assume inv: "watch_inv w"
  obtain fs where "tw_exec (watch_step w e) = foldl exec_step (tw_exec w) fs" using watch_exec.step_sim by blast
  then have "exec_wf (tw_exec (watch_step w e))" using exec.run_inv inv by (simp add: watch_inv_def)
  moreover have "tw_cfg (watch_step w e) = tw_cfg w \<and> states_ok (tw_cfg w) (tw_states (watch_step w e))"
  proof (cases e)
    case (BlockTick pf trs block snapshot)
    then show ?thesis using on_block_keeps_states [of w pf trs block snapshot] inv by (simp add: watch_inv_def)
  qed (use inv in \<open>simp_all add: watch_inv_def\<close>)
  ultimately show "watch_inv (watch_step w e)" by (simp add: watch_inv_def)
qed

interpretation watch: stateful watch_step watch_inv
  by unfold_locales (rule watch_step_inv)

section \<open>A trail exit of a ready position\<close>

lemma trail_exit_full:
  assumes "ready_at ex token i" and "execute_exit pf rd token kol block 0 ex = (out, ex')"
  shows "ready_at ex' token i \<and> (case out of
      SellBroadcast tx \<Rightarrow> sale_amount (tx_input tx) = tokens_at ex i \<and> tokens_at ex' i = 0
    | _ \<Rightarrow> tokens_at ex' i = tokens_at ex i)"
proof -
  have "exit_fraction pf rd 0 block = Fin 1" by (simp add: exit_fraction_def kol_sell_fraction_def)
  then show ?thesis
    using ready_exit [OF assms] by (auto simp: exit_size_def full_close_one split: exit_outcome.splits)
qed

lemma process_sold_out:
  "tokens_at (tw_exec w) i = 0 \<Longrightarrow> process_one_position pf tr block token i w = (None, w)"
  by (simp add: process_one_position_def tokens_at_def Let_def)

text \<open>
  C11: The watcher adds nothing of its own to the executor: over any history of blocks, feed
  events and other executor steps, whatever the prices, replies and snapshots, the executor
  ends where some history of executor events leads, and each of these is one of the other
  steps or a sell of a snapshot's token under a TRAIL name with the zero address. Every
  invariant of the executor (nonces, no oversell, spending) so holds with the watcher on.
\<close>

theorem watcher_refines_executor:
  "\<exists>evs. tw_exec (foldl watch_step w es) = foldl exec_step (tw_exec w) evs
     \<and> set evs \<subseteq> (\<Union>e \<in> set es. watch_allowed e)"
  using watch_exec.run_sim [of es w] by blast

text \<open>
  C13: The watcher's tick function never panics and its memory is exact: after any history
  from a well-formed watcher with at most fresh states, each trail state is the fold of some price
  history of its position (peak, ring and flags as in the summary of a run), so every
  further tick of it returns.
\<close>

theorem watcher_never_panics:
  assumes "exec_wf (tw_exec w)" and "\<forall>t s. tw_states w t = Some s \<longrightarrow> (\<exists>e b. s = fresh_state e b)"
    and "tw_states (foldl watch_step w es) token = Some s"
  shows "\<exists>e b ps. holding_state (tw_cfg (foldl watch_step w es)) e b ps s \<and> trail_step s cfg p block \<noteq> None"
proof -
  have "states_ok (tw_cfg w) (tw_states w)"
    using assms(2) holding_state_fresh unfolding states_ok_def by blast
  then have "watch_inv w" using assms(1) by (simp add: watch_inv_def)
  then have "watch_inv (foldl watch_step w es)" by (rule watch.run_inv)
  then obtain e b ps where h: "holding_state (tw_cfg (foldl watch_step w es)) e b ps s"
    using assms(3) unfolding watch_inv_def states_ok_def by blast
  then have "trail_wf s" by (simp add: holding_state_def)
  then have "trail_step s cfg p block \<noteq> None" by (metis trail_step_spec option.distinct(1))
  with h show ?thesis by blast
qed

text \<open>
  C12: A trail exit closes the position for good: when a tick's sell is accepted the sale is
  the whole cached amount, the trail state is gone, and every later tick of the position,
  with whatever prices and replies, does nothing.
\<close>

theorem trail_exit_closes:
  assumes "ready_at (tw_exec w) token i"
    and "process_one_position pf tr block token i w = (Some (SellBroadcast tx), w')"
  shows "sale_amount (tx_input tx) = tokens_at (tw_exec w) i \<and> tw_states w' token = None
    \<and> process_one_position pf2 tr2 block2 token i w' = (None, w')"
  using assms(2)
proof (cases rule: process_cases)
  case (2 out reason)
  then show ?thesis using trail_exit_full [OF assms(1) 2(3)] by (auto intro: process_sold_out)
qed simp

section \<open>A concrete exit\<close>

text \<open>A position 5000 blocks old, with no price to be had.\<close>

definition example_trail :: "executor \<Rightarrow> watcher" where
  "example_trail ex = \<lparr>tw_cfg = trail_config_default, tw_exec = ex, tw_states = [5 \<mapsto> fresh_state (Fin 100) 0],
     tw_feed = feed_new\<rparr>"

definition example_trail_readings :: "readings \<Rightarrow> trail_readings" where
  "example_trail_readings rd = \<lparr>tr_ledger = None, tr_receipt = (\<lambda>_. SendFailed), tr_quote = SendFailed,
     tr_logs = SendFailed, tr_tx = (\<lambda>_. SendFailed), tr_exit = rd\<rparr>"

lemma example_no_price:
  "tr_quote tr = SendFailed \<Longrightarrow> tr_logs tr = SendFailed
    \<Longrightarrow> get_latest_price_cached feed_new m pf tr token b c = NoPrice"
  by (simp add: get_latest_price_cached_def feed_new_def get_latest_price_def v2_quote_price_def
      fourmeme_observed_price_def result_str_def)

lemma example_trail_fires:
  assumes "tr_quote tr = SendFailed" and "tr_logs tr = SendFailed"
  shows "process_one_position pf tr 5000 5 0 (example_trail (example_holder 1000 True))
     = map_prod Some id (fire_exit pf tr 5 ''timeout'' 5000 (example_trail (example_holder 1000 True)))"
  using assms by (simp add: process_one_position_def tick_position_def example_trail_def example_no_price
      example_holder_def example_entry_def trail_config_default_def sat_sub_def Let_def)

lemma example_trail_ready: "ready_at (tw_exec (example_trail (example_holder n True))) 5 0"
  "tokens_at (tw_exec (example_trail (example_holder n True))) 0 = n"
  by (simp_all add: example_trail_def example_ready)

theorem trail_exit_closes_witness:
  "\<exists>tx w'. process_one_position example_platform (example_trail_readings example_readings) 5000 5 0
       (example_trail (example_holder 1000 True)) = (Some (SellBroadcast tx), w')
     \<and> sale_amount (tx_input tx) = 1000 \<and> tw_states w' 5 = None"
proof -
  obtain tx ex' where e: "execute_exit example_platform example_readings 5 (trail_kol ''timeout'') 5000 0
      (example_holder 1000 True) = (SellBroadcast tx, ex')"
    by (rule example_sell [of 5000 0]) simp_all
  obtain w' where p: "process_one_position example_platform (example_trail_readings example_readings) 5000 5 0
      (example_trail (example_holder 1000 True)) = (Some (SellBroadcast tx), w')"
    using example_trail_fires [of "example_trail_readings example_readings" example_platform] e
    by (simp add: fire_exit_def example_trail_def example_trail_readings_def)
  from trail_exit_closes [OF example_trail_ready(1) p] p show ?thesis by (auto simp: example_trail_ready)
qed

theorem watcher_never_panics_witness:
  "\<exists>e b ps. holding_state trail_config_default e b ps (fresh_state (Fin 100) 0)
     \<and> trail_step (fresh_state (Fin 100) 0) trail_config_default (Fin 101) 1 \<noteq> None"
proof -
  let ?w = "example_trail (example_holder 1000 True)"
  let ?es = "[TradeEvent \<lparr>lg_data = [], lg_block_number = None\<rparr> True, ExecEvent (DropPosition 9)]"
  have wf: "exec_wf (tw_exec ?w)"
    by (simp add: exec_wf_def example_trail_def example_holder_def example_executor_def executor_new_def
        example_entry_def)
  have f: "\<forall>t s. tw_states ?w t = Some s \<longrightarrow> (\<exists>e b. s = fresh_state e b)"
    by (auto simp: example_trail_def split: if_splits)
  have s: "tw_states (foldl watch_step ?w ?es) 5 = Some (fresh_state (Fin 100) 0)"
    "tw_cfg (foldl watch_step ?w ?es) = trail_config_default"
    by (simp_all add: example_trail_def)
  from watcher_never_panics [OF wf f s(1)] s(2) show ?thesis by simp
qed

text \<open>The same exit with a signer that refuses.\<close>

lemma example_refused:
  assumes "pf_sign pf = (\<lambda>_. None)"
  shows "fst (execute_exit pf rd 5 kol 5000 0 (example_holder 1000 True)) \<noteq> SellBroadcast tx"
proof
  have s: "fst (send_sell pf rd k token route full ob b ex) = ExitSignFailed" for k token route full ob b ex
    using assms by (simp add: send_sell_def Let_def split: prod.splits)
  assume "fst (execute_exit pf rd 5 kol 5000 0 (example_holder 1000 True)) = SellBroadcast tx"
  then show False
    using s by (auto simp: execute_exit_def approve_and_sell_def Let_def
        split: if_splits holding.splits prod.splits bool.splits option.splits)
qed

end
