(* ===== verification/Dex.thy ===== *)
theory Dex
  imports Rpc
begin

text \<open>
  The quoters of \<open>crates/bsc-dex/src\<close>: the PancakeSwap V2 router (\<open>v2.rs\<close>), the V3 quoter
  (\<open>v3.rs\<close>) and the simulator that asks the one and then the other (\<open>trader/sim.rs\<close> of
  \<open>bsc-runner\<close>). The HTTP exchange is an argument: what posting a request body answers.
\<close>

section \<open>Hexadecimal text\<close>

definition hex_byte :: "u8 \<Rightarrow> string" where
  "hex_byte b = [digit_char (unat b div 16), digit_char (unat b mod 16)]"

definition hex_encode :: "u8 list \<Rightarrow> string" where
  "hex_encode bytes = concat (map hex_byte bytes)"

fun hex_pairs :: "string \<Rightarrow> u8 list option" where
  "hex_pairs (h # l # s) =
     (case digit_val h of None \<Rightarrow> None
      | Some hi \<Rightarrow>
          (case digit_val l of None \<Rightarrow> None
           | Some lo \<Rightarrow> map_option (\<lambda>bs. of_nat (hi * 16 + lo) # bs) (hex_pairs s)))"
| "hex_pairs _ = Some []"

definition hex_decode :: "string \<Rightarrow> u8 list option" where
  "hex_decode s = (if length s mod 2 \<noteq> 0 then None else hex_pairs s)"

definition addr_text :: "address \<Rightarrow> string" where
  "addr_text a = ''0x'' @ hex_encode (be_bytes 20 (unat a))"

definition hash_text :: "b256 \<Rightarrow> string" where
  "hash_text h = ''0x'' @ hex_encode (be_bytes 32 (unat h))"

section \<open>The call\<close>

text \<open>Whether the status of the response is a success, and its body.\<close>

type_synonym http = "json \<Rightarrow> bool \<times> reply"

definition block_tag :: "u64 option \<Rightarrow> string" where
  "block_tag block = (case block of Some n \<Rightarrow> show_hex (unat n) | None \<Rightarrow> ''latest'')"

definition eth_call_body :: "address \<Rightarrow> u8 list \<Rightarrow> u64 option \<Rightarrow> json" where
  "eth_call_body to data block = JObj [(''jsonrpc'', JStr ''2.0''), (''id'', JNum 1), (''method'', JStr ''eth_call''),
     (''params'', JArr [JObj [(''to'', JStr (addr_text to)), (''data'', JStr (''0x'' @ hex_encode data))],
        JStr (block_tag block)])]"

section \<open>PancakeSwap V2\<close>

datatype v2_quote_error = V2Http | V2Rpc | V2ShortResult nat | V2BadPath nat

definition GET_AMOUNTS_OUT :: "u8 list" where
  "GET_AMOUNTS_OUT = [0xd0, 0x6c, 0xa6, 0x1f]"

definition encode_get_amounts_out :: "u256 \<Rightarrow> address list \<Rightarrow> u8 list" where
  "encode_get_amounts_out amount_in path =
     GET_AMOUNTS_OUT @ uint_word (unat amount_in) @ uint_word 64 @ uint_word (length path)
     @ concat (map address_word path)"

definition v2_eth_call :: "http \<Rightarrow> address \<Rightarrow> u8 list \<Rightarrow> u64 option \<Rightarrow> v2_quote_error + u8 list" where
  "v2_eth_call post to data block =
     (let (ok, resp) = post (eth_call_body to data block) in
      case reply_json resp of
        None \<Rightarrow> Inl V2Http
      | Some json \<Rightarrow>
          if \<not> ok then Inl V2Rpc
          else if jget json ''error'' \<noteq> None then Inl V2Rpc
          else (case Option.bind (jget json ''result'') as_str of
                  None \<Rightarrow> Inl V2Rpc
                | Some result \<Rightarrow>
                    let stripped = (case strip_prefix ''0x'' result of Some t \<Rightarrow> t | None \<Rightarrow> result) in
                    (case hex_decode stripped of None \<Rightarrow> Inl V2Rpc | Some bytes \<Rightarrow> Inr bytes)))"

definition decode_amounts_last :: "u8 list \<Rightarrow> nat \<Rightarrow> v2_quote_error + u256" where
  "decode_amounts_last raw expected_len =
     (if length raw < 32 + 32 + expected_len * 32 then Inl (V2ShortResult (length raw))
      else let returned_len = be_val (slice 32 64 raw) in
        if returned_len \<noteq> expected_len then Inl V2Rpc
        else let last_offset = 32 + 32 + (expected_len - 1) * 32
             in Inr (of_nat (be_val (slice last_offset (last_offset + 32) raw))))"

definition quote_path :: "http \<Rightarrow> u256 \<Rightarrow> address list \<Rightarrow> u64 option \<Rightarrow> v2_quote_error + u256" where
  "quote_path post amount_in path block =
     (if length path < 2 then Inl (V2BadPath (length path))
      else case v2_eth_call post PANCAKE_V2_ROUTER (encode_get_amounts_out amount_in path) block of
        Inl e \<Rightarrow> Inl e
      | Inr raw \<Rightarrow> decode_amounts_last raw (length path))"

definition quote_single_hop :: "http \<Rightarrow> u256 \<Rightarrow> address \<Rightarrow> address \<Rightarrow> u64 option \<Rightarrow> v2_quote_error + u256" where
  "quote_single_hop post amount_in src dst block = quote_path post amount_in [src, dst] block"

section \<open>PancakeSwap V3\<close>

datatype v3_quote_error = V3Http | V3Rpc

record v3_quote =
  v3_amount_out :: u256
  v3_fee_tier :: u32

definition QUOTE_EXACT_INPUT_SINGLE :: "u8 list" where
  "QUOTE_EXACT_INPUT_SINGLE = [0xc6, 0xa5, 0x02, 0x6a]"

definition PANCAKE_V3_QUOTER_V2 :: address where
  "PANCAKE_V3_QUOTER_V2 = 0xB048Bbc1Ee6b733FFfCFb9e9CeF7375518e25997"

definition PANCAKE_V3_FEE_TIERS :: "u32 list" where
  "PANCAKE_V3_FEE_TIERS = [10000, 2500, 500, 100]"

definition u32_to_word :: "u32 \<Rightarrow> u8 list" where
  "u32_to_word v = replicate 28 0 @ be_bytes 4 (unat v)"

definition encode_quote_exact_input_single :: "address \<Rightarrow> address \<Rightarrow> u256 \<Rightarrow> u32 \<Rightarrow> u8 list" where
  "encode_quote_exact_input_single token_in token_out amount_in fee =
     QUOTE_EXACT_INPUT_SINGLE @ address_word token_in @ address_word token_out @ uint_word (unat amount_in)
     @ u32_to_word fee @ replicate 32 0"

text \<open>A revert, a missing result and a short one count as zero.\<close>

definition quote_one_tier ::
  "http \<Rightarrow> address \<Rightarrow> address \<Rightarrow> u256 \<Rightarrow> u32 \<Rightarrow> u64 option \<Rightarrow> v3_quote_error + u256" where
  "quote_one_tier post token_in token_out amount_in fee block =
     (let data = encode_quote_exact_input_single token_in token_out amount_in fee;
          (ok, resp) = post (eth_call_body PANCAKE_V3_QUOTER_V2 data block) in
      case reply_json resp of
        None \<Rightarrow> Inl V3Http
      | Some json \<Rightarrow>
          if \<not> ok then Inl V3Rpc
          else if jget json ''error'' \<noteq> None then Inr 0
          else (case Option.bind (jget json ''result'') as_str of
                  None \<Rightarrow> Inr 0
                | Some result \<Rightarrow>
                    let h = (case strip_prefix ''0x'' result of Some t \<Rightarrow> t | None \<Rightarrow> result) in
                    if length h < 64 then Inr 0
                    else (case hex_decode (take 64 h) of
                            None \<Rightarrow> Inl V3Rpc
                          | Some bytes \<Rightarrow> if length bytes \<noteq> 32 then Inr 0 else Inr (of_nat (be_val bytes)))))"

definition better_tier :: "v3_quote option \<Rightarrow> u32 \<Rightarrow> v3_quote_error + u256 \<Rightarrow> v3_quote option" where
  "better_tier best fee r =
     (case r of
        Inr amount_out \<Rightarrow>
          if amount_out \<noteq> 0 \<and> (case best of None \<Rightarrow> True | Some b \<Rightarrow> v3_amount_out b < amount_out)
          then Some \<lparr>v3_amount_out = amount_out, v3_fee_tier = fee\<rparr> else best
      | Inl _ \<Rightarrow> best)"

definition quote_best_tier ::
  "http \<Rightarrow> address \<Rightarrow> address \<Rightarrow> u256 \<Rightarrow> u64 option \<Rightarrow> v3_quote_error + v3_quote option" where
  "quote_best_tier post token_in token_out amount_in block =
     Inr (foldl (\<lambda>best fee. better_tier best fee (quote_one_tier post token_in token_out amount_in fee block))
       None PANCAKE_V3_FEE_TIERS)"

section \<open>The simulator\<close>

datatype quote_venue = PancakeV2 | PancakeV3 | Bonding

fun venue_label :: "quote_venue \<Rightarrow> string" where
  "venue_label PancakeV2 = ''v2''"
| "venue_label PancakeV3 = ''v3''"
| "venue_label Bonding = ''bonding''"

record quote_result =
  qr_amount_out :: u256
  qr_venue :: quote_venue
  qr_fee_tier :: "u32 option"

text \<open>The result of the code is never an error: a failing quoter counts as no quote.\<close>

definition try_quote :: "http \<Rightarrow> address \<Rightarrow> address \<Rightarrow> u256 \<Rightarrow> u64 option \<Rightarrow> quote_result option" where
  "try_quote post src dst amount_in block =
     (let v3 = (case quote_best_tier post src dst amount_in block of
                  Inr (Some r) \<Rightarrow> Some \<lparr>qr_amount_out = v3_amount_out r, qr_venue = PancakeV3,
                                     qr_fee_tier = Some (v3_fee_tier r)\<rparr>
                | Inr None \<Rightarrow> None
                | Inl _ \<Rightarrow> None)
      in case quote_single_hop post amount_in src dst block of
           Inr amount_out \<Rightarrow>
             if amount_out \<noteq> 0 then Some \<lparr>qr_amount_out = amount_out, qr_venue = PancakeV2, qr_fee_tier = None\<rparr>
             else v3
         | Inl _ \<Rightarrow> v3)"

definition simulate_buy :: "http \<Rightarrow> u256 \<Rightarrow> address \<Rightarrow> u64 option \<Rightarrow> quote_result option" where
  "simulate_buy post bnb_in_wei token block = try_quote post WBNB token bnb_in_wei block"

definition simulate_sell :: "http \<Rightarrow> u256 \<Rightarrow> address \<Rightarrow> u64 option \<Rightarrow> quote_result option" where
  "simulate_sell post tokens_in token block = try_quote post token WBNB tokens_in block"

section \<open>Hexadecimal round trips\<close>

lemma length_hex_encode [simp]: "length (hex_encode bs) = 2 * length bs"
  by (induction bs) (simp_all add: hex_encode_def hex_byte_def)

lemma hex_encode_append: "hex_encode (xs @ ys) = hex_encode xs @ hex_encode ys"
  by (simp add: hex_encode_def)

lemma hex_pairs_encode: "hex_pairs (hex_encode bs) = Some bs"
proof (induction bs)
  case (Cons b bs)
  have "unat b < 256" using unsigned_less [of b] by simp
  then have "unat b div 16 < 16" "unat b mod 16 < 16" by simp_all
  moreover have "hex_encode (b # bs) = digit_char (unat b div 16) # digit_char (unat b mod 16) # hex_encode bs"
    by (simp add: hex_encode_def hex_byte_def)
  ultimately show ?case using Cons by (simp add: div_mult_mod_eq)
qed (simp add: hex_encode_def)

lemma hex_decode_encode [simp]: "hex_decode (hex_encode bs) = Some bs"
  by (simp add: hex_decode_def hex_pairs_encode)

lemma take_hex_encode: "take (2 * n) (hex_encode bs) = hex_encode (take n bs)"
proof -
  have "hex_encode bs = hex_encode (take n bs) @ hex_encode (drop n bs)"
    unfolding hex_encode_append [symmetric] by simp
  moreover have "take (2 * n) (hex_encode (take n bs) @ hex_encode (drop n bs)) = hex_encode (take n bs)"
    by (cases "n \<le> length bs") (simp_all add: hex_encode_def [of "[]"])
  ultimately show ?thesis by simp
qed

lemma strip_prefix_0x [simp]: "strip_prefix ''0x'' (CHR ''0'' # CHR ''x'' # s) = Some s"
  by (simp add: strip_prefix_def)

section \<open>A node with the contracts\<close>

text \<open>
  What the quoters are for: a node that executes the router and the quoter. The contracts are
  functions of the block they are asked at; the node reads the request as JSON-RPC and the
  contract reads its calldata as the ABI lays it out, so that a request the quoters compose
  wrongly is answered with an error.
\<close>

definition call_params :: "json \<Rightarrow> (string \<times> u8 list \<times> string) option" where
  "call_params req =
     (if jget req ''method'' \<noteq> Some (JStr ''eth_call'') then None
      else case jget req ''params'' of
        Some (JArr [call, JStr tag]) \<Rightarrow>
          Option.bind (Option.bind (jget call ''to'') as_str) (\<lambda>to.
          Option.bind (Option.bind (jget call ''data'') as_str) (\<lambda>s.
          Option.bind (strip_prefix ''0x'' s) (\<lambda>hex.
            map_option (\<lambda>data. (to, data, tag)) (hex_decode hex))))
      | _ \<Rightarrow> None)"

definition node :: "(string \<Rightarrow> string \<Rightarrow> u8 list \<Rightarrow> u8 list option) \<Rightarrow> http" where
  "node chain req =
     (True, Reply (case Option.bind (call_params req) (\<lambda>(to, data, tag). chain tag to data) of
        None \<Rightarrow> JObj [(''error'', JObj [(''message'', JStr ''execution reverted'')])]
      | Some out \<Rightarrow> JObj [(''result'', JStr (''0x'' @ hex_encode out))]))"

definition word_at :: "nat \<Rightarrow> u8 list \<Rightarrow> nat" where
  "word_at i args = be_val (slice i (i + 32) args)"

definition abi_addresses :: "u8 list \<Rightarrow> nat \<Rightarrow> address list option" where
  "abi_addresses args off =
     (let n = word_at off args in
      if length args < off + 32 \<or> length args < off + 32 + 32 * n then None
      else Some (map (\<lambda>i. of_nat (word_at (off + 32 + 32 * i) args)) [0..<n]))"

text \<open>\<open>getAmountsOut(uint256, address[])\<close>, answered by the ABI encoding of the amounts.\<close>

definition router_contract :: "(u256 \<Rightarrow> address list \<Rightarrow> u256 list option) \<Rightarrow> u8 list \<Rightarrow> u8 list option" where
  "router_contract router calldata =
     (let args = drop 4 calldata in
      if take 4 calldata \<noteq> GET_AMOUNTS_OUT \<or> length args < 64 then None
      else Option.bind (abi_addresses args (word_at 32 args)) (\<lambda>path.
        map_option (\<lambda>xs. uint_word 32 @ uint_word (length xs) @ concat (map (\<lambda>x. uint_word (unat x)) xs))
          (router (of_nat (word_at 0 args)) path)))"

text \<open>
  \<open>quoteExactInputSingle\<close> over its five-word struct; it returns four words, the amount first.
\<close>

definition quoter_contract ::
  "(address \<Rightarrow> address \<Rightarrow> u256 \<Rightarrow> nat \<Rightarrow> nat \<Rightarrow> (u256 \<times> u8 list) option) \<Rightarrow> u8 list \<Rightarrow> u8 list option" where
  "quoter_contract quoter calldata =
     (let args = drop 4 calldata in
      if take 4 calldata \<noteq> QUOTE_EXACT_INPUT_SINGLE \<or> length args < 160 then None
      else map_option (\<lambda>(out, rest). uint_word (unat out) @ rest)
        (quoter (of_nat (word_at 0 args)) (of_nat (word_at 32 args)) (of_nat (word_at 64 args))
           (word_at 96 args) (word_at 128 args)))"

definition pancake ::
  "(string \<Rightarrow> u256 \<Rightarrow> address list \<Rightarrow> u256 list option)
     \<Rightarrow> (string \<Rightarrow> address \<Rightarrow> address \<Rightarrow> u256 \<Rightarrow> nat \<Rightarrow> nat \<Rightarrow> (u256 \<times> u8 list) option)
     \<Rightarrow> string \<Rightarrow> string \<Rightarrow> u8 list \<Rightarrow> u8 list option" where
  "pancake router quoter tag to data =
     (if to = addr_text PANCAKE_V2_ROUTER then router_contract (router tag) data
      else if to = addr_text PANCAKE_V3_QUOTER_V2 then quoter_contract (quoter tag) data else None)"

lemma node_eth_call:
  "node chain (eth_call_body to data block) =
     (True, Reply (case chain (block_tag block) (addr_text to) data of
        None \<Rightarrow> JObj [(''error'', JObj [(''message'', JStr ''execution reverted'')])]
      | Some out \<Rightarrow> JObj [(''result'', JStr (''0x'' @ hex_encode out))]))"
  by (simp add: node_def call_params_def eth_call_body_def)

lemma v2_eth_call_node:
  "v2_eth_call (node chain) to data block =
     (case chain (block_tag block) (addr_text to) data of None \<Rightarrow> Inl V2Rpc | Some out \<Rightarrow> Inr out)"
  by (simp add: v2_eth_call_def node_eth_call split: option.split)

lemma addr_texts_differ: "addr_text PANCAKE_V3_QUOTER_V2 \<noteq> addr_text PANCAKE_V2_ROUTER"
proof
  assume "addr_text PANCAKE_V3_QUOTER_V2 = addr_text PANCAKE_V2_ROUTER"
  then have "hex_encode (be_bytes 20 (unat PANCAKE_V3_QUOTER_V2)) = hex_encode (be_bytes 20 (unat PANCAKE_V2_ROUTER))"
    by (simp add: addr_text_def)
  then have "Some (be_bytes 20 (unat PANCAKE_V3_QUOTER_V2)) = Some (be_bytes 20 (unat PANCAKE_V2_ROUTER))"
    using hex_pairs_encode by metis
  then have "PANCAKE_V3_QUOTER_V2 = PANCAKE_V2_ROUTER"
    using address_bytes_roundtrip by (metis option.inject)
  then show False by (simp add: PANCAKE_V3_QUOTER_V2_def PANCAKE_V2_ROUTER_def)
qed

lemma word_at_0 [simp]: "length w = 32 \<Longrightarrow> word_at 0 (w @ rest) = be_val w"
  by (simp add: word_at_def slice_def)

lemma word_at_skip: "length w = 32 \<Longrightarrow> 32 \<le> i \<Longrightarrow> word_at i (w @ rest) = word_at (i - 32) rest"
  by (simp add: word_at_def slice_def)

lemma be_val_word [simp]: "be_val (uint_word (unat (x :: u256))) = unat x"
  using unsigned_less [of x] by (intro be_val_uint_word) simp

lemma be_val_address_word [simp]: "be_val (address_word a) = unat a"
proof -
  have "unat a < 256 ^ 20" using unsigned_less [of a] by simp
  then show ?thesis by (simp add: address_word_def be_val_append be_val_be_bytes)
qed

lemma word_at_path: "k < length path \<Longrightarrow> word_at (32 * k) (concat (map address_word path)) = unat (path ! k)"
  by (simp add: word_at_def slice_path_word)

lemma abi_addresses_path:
  assumes "length path < 2 ^ 256" and "length w1 = 32" and "length w2 = 32"
  shows "abi_addresses (w1 @ w2 @ uint_word (length path) @ concat (map address_word path)) 64 = Some path"
proof -
  let ?args = "w1 @ w2 @ uint_word (length path) @ concat (map address_word path)"
  have "word_at 64 ?args = length path"
    using assms by (simp add: word_at_skip be_val_uint_word)
  moreover have "word_at (64 + 32 + 32 * i) ?args = unat (path ! i)" if "i < length path" for i
    using assms(2,3) that by (simp add: word_at_skip word_at_path)
  ultimately have "abi_addresses ?args 64 = Some (map (\<lambda>i. path ! i) [0..<length path])"
    using assms(2,3) by (simp add: abi_addresses_def Let_def)
  then show ?thesis by (simp add: map_nth)
qed

lemma router_contract_encode:
  assumes "length path < 2 ^ 256"
  shows "router_contract router (encode_get_amounts_out amount path) =
    map_option (\<lambda>xs. uint_word 32 @ uint_word (length xs) @ concat (map (\<lambda>x. uint_word (unat x)) xs))
      (router amount path)"
proof -
  have "word_at 32 (uint_word (unat amount) @ uint_word 64 @ rest) = 64" for rest
    by (simp add: word_at_skip be_val_uint_word)
  then show ?thesis
    using abi_addresses_path [OF assms, of "uint_word (unat amount)" "uint_word 64"]
    by (simp add: router_contract_def encode_get_amounts_out_def GET_AMOUNTS_OUT_def)
qed

lemma length_amount_words [simp]: "length (concat (map (\<lambda>x. uint_word (f x)) xs)) = 32 * length xs"
  by (induction xs) auto

lemma decode_amounts_last_encoded:
  assumes "xs \<noteq> []" and "length xs < 2 ^ 256"
  shows "decode_amounts_last (uint_word 32 @ uint_word (length xs) @ concat (map (\<lambda>x. uint_word (unat x)) xs)) (length xs)
    = Inr (last xs)"
proof -
  obtain ys x where xs: "xs = ys @ [x]" using assms(1) by (cases xs rule: rev_cases) auto
  let ?raw = "uint_word 32 @ uint_word (length xs) @ concat (map (\<lambda>x. uint_word (unat x)) xs)"
  have "be_val (slice 32 64 ?raw) = length xs"
    using assms(2) by (simp add: slice_def be_val_uint_word)
  moreover have "slice (64 + 32 * length ys) (64 + 32 * length ys + 32) ?raw = uint_word (unat x)"
    by (simp add: slice_def xs)
  ultimately show ?thesis by (simp add: decode_amounts_last_def Let_def xs mult.commute)
qed

lemma quote_path_router:
  assumes "2 \<le> length path" and "length path < 2 ^ 256"
    and "\<And>xs. router (block_tag block) amount path = Some xs \<Longrightarrow> length xs = length path"
  shows "quote_path (node (pancake router quoter)) amount path block =
    (case router (block_tag block) amount path of None \<Rightarrow> Inl V2Rpc | Some xs \<Rightarrow> Inr (last xs))"
proof -
  have "v2_eth_call (node (pancake router quoter)) PANCAKE_V2_ROUTER (encode_get_amounts_out amount path) block =
      (case router (block_tag block) amount path of None \<Rightarrow> Inl V2Rpc
       | Some xs \<Rightarrow> Inr (uint_word 32 @ uint_word (length xs) @ concat (map (\<lambda>x. uint_word (unat x)) xs)))"
    by (simp add: v2_eth_call_node pancake_def router_contract_encode [OF assms(2)] split: option.split)
  moreover have "decode_amounts_last (uint_word 32 @ uint_word (length xs) @ concat (map (\<lambda>x. uint_word (unat x)) xs))
      (length path) = Inr (last xs)" if "router (block_tag block) amount path = Some xs" for xs
  proof -
    have "length xs = length path" by (rule assms(3) [OF that])
    then show ?thesis using decode_amounts_last_encoded [of xs] assms(1,2) by force
  qed
  ultimately show ?thesis
    using assms(1) by (simp add: quote_path_def split: option.split)
qed

lemma be_val_u32_word [simp]: "be_val (u32_to_word v) = unat v"
proof -
  have "unat v < 256 ^ 4" using unsigned_less [of v] by simp
  then show ?thesis by (simp add: u32_to_word_def be_val_append be_val_be_bytes)
qed

lemma length_u32_word [simp]: "length (u32_to_word v) = 32"
  by (simp add: u32_to_word_def)

lemma word_at_end: "length w = 32 \<Longrightarrow> word_at 0 w = be_val w"
  by (simp add: word_at_def slice_def)

lemma quoter_contract_encode:
  "quoter_contract quoter (encode_quote_exact_input_single tin tout amount fee) =
    map_option (\<lambda>(out, rest). uint_word (unat out) @ rest) (quoter tin tout amount (unat fee) 0)"
  by (simp add: quoter_contract_def encode_quote_exact_input_single_def QUOTE_EXACT_INPUT_SINGLE_def Let_def
      word_at_skip word_at_end)

definition quoted ::
  "(address \<Rightarrow> address \<Rightarrow> u256 \<Rightarrow> nat \<Rightarrow> nat \<Rightarrow> (u256 \<times> u8 list) option) \<Rightarrow> address \<Rightarrow> address \<Rightarrow> u256 \<Rightarrow> u32 \<Rightarrow> u256" where
  "quoted quoter src dst amount fee =
     (case quoter src dst amount (unat fee) 0 of None \<Rightarrow> 0 | Some (out, _) \<Rightarrow> out)"

lemma quote_one_tier_quoter:
  "quote_one_tier (node (pancake router quoter)) src dst amount fee block
    = Inr (quoted (quoter (block_tag block)) src dst amount fee)"
proof (cases "quoter (block_tag block) src dst amount (unat fee) 0")
  case None
  then show ?thesis
    by (simp add: quote_one_tier_def node_eth_call pancake_def addr_texts_differ quoter_contract_encode quoted_def Let_def)
next
  case (Some r)
  obtain out rest where r: "r = (out, rest)" by (cases r)
  have "take 64 (hex_encode (uint_word (unat out) @ rest)) = hex_encode (uint_word (unat out))"
    using take_hex_encode [of 32 "uint_word (unat out) @ rest"] by simp
  then show ?thesis
    by (simp add: quote_one_tier_def node_eth_call pancake_def addr_texts_differ quoter_contract_encode quoted_def
        Let_def Some r)
qed

text \<open>The best quote: the largest amount over the tiers, zero being none, at its first tier.\<close>

definition best_quote :: "(u32 \<Rightarrow> u256) \<Rightarrow> u32 list \<Rightarrow> v3_quote option" where
  "best_quote f fees =
     (let m = Max (insert 0 (f ` set fees)) in
      if m = 0 then None
      else map_option (\<lambda>fee. \<lparr>v3_amount_out = m, v3_fee_tier = fee\<rparr>) (find (\<lambda>fee. f fee = m) fees))"

lemma find_snoc: "find P (xs @ [x]) = (case find P xs of Some y \<Rightarrow> Some y | None \<Rightarrow> if P x then Some x else None)"
  by (induction xs) auto

lemma best_quote_snoc: "best_quote f (fees @ [fee]) = better_tier (best_quote f fees) fee (Inr (f fee))"
proof -
  define m where "m = Max (insert 0 (f ` set fees))"
  have m': "Max (insert 0 (f ` set (fees @ [fee]))) = max m (f fee)"
    by (simp add: m_def Max_insert [symmetric] max.commute insert_commute del: Max_insert)
  have le: "f x \<le> m" if "x \<in> set fees" for x
    unfolding m_def using that by (intro Max_ge) auto
  have found: "find (\<lambda>x. f x = m) fees \<noteq> None" if "m \<noteq> 0"
  proof -
    have "m \<in> insert 0 (f ` set fees)" unfolding m_def by (intro Max_in) auto
    with that show ?thesis by (auto simp: find_None_iff)
  qed
  have unf: "best_quote f fees = (if m = 0 then None
      else map_option (\<lambda>x. \<lparr>v3_amount_out = m, v3_fee_tier = x\<rparr>) (find (\<lambda>x. f x = m) fees))"
    "best_quote f (fees @ [fee]) = (if max m (f fee) = 0 then None
      else map_option (\<lambda>x. \<lparr>v3_amount_out = max m (f fee), v3_fee_tier = x\<rparr>)
        (find (\<lambda>x. f x = max m (f fee)) (fees @ [fee])))"
    by (simp_all only: best_quote_def Let_def m' m_def)
  show ?thesis
  proof (cases "m < f fee")
    case True
    then have none: "find (\<lambda>x. f x = f fee) fees = None" using le by (force simp: find_None_iff)
    have mx: "max m (f fee) = f fee" "f fee \<noteq> 0" using True by auto
    have "(case best_quote f fees of None \<Rightarrow> True | Some b \<Rightarrow> v3_amount_out b < f fee)"
      using True by (simp add: unf(1) split: option.split)
    then show ?thesis using mx none by (simp add: unf(2) find_snoc better_tier_def)
  next
    case False
    then have mx: "max m (f fee) = m" by (simp add: max_def)
    show ?thesis
    proof (cases "m = 0")
      case True
      then have "f fee = 0" using False by (simp add: word_gt_0)
      then show ?thesis using True by (simp add: unf better_tier_def)
    next
      case nz: False
      then obtain x where "find (\<lambda>x. f x = m) fees = Some x" using found by auto
      then show ?thesis using nz False mx by (simp add: unf find_snoc better_tier_def)
    qed
  qed
qed

lemma best_tier_fold: "foldl (\<lambda>best fee. better_tier best fee (Inr (f fee))) None fees = best_quote f fees"
  by (induction fees rule: rev_induct) (simp_all add: best_quote_snoc, simp add: best_quote_def)

text \<open>What the simulator should answer: the router's output when there is one, or the best tier.\<close>

definition venue_quote ::
  "(u256 \<Rightarrow> address list \<Rightarrow> u256 list option)
     \<Rightarrow> (address \<Rightarrow> address \<Rightarrow> u256 \<Rightarrow> nat \<Rightarrow> nat \<Rightarrow> (u256 \<times> u8 list) option)
     \<Rightarrow> address \<Rightarrow> address \<Rightarrow> u256 \<Rightarrow> quote_result option" where
  "venue_quote router quoter src dst amount =
     (let v2 = (case router amount [src, dst] of Some xs \<Rightarrow> last xs | None \<Rightarrow> 0) in
      if v2 \<noteq> 0 then Some \<lparr>qr_amount_out = v2, qr_venue = PancakeV2, qr_fee_tier = None\<rparr>
      else map_option (\<lambda>r. \<lparr>qr_amount_out = v3_amount_out r, qr_venue = PancakeV3, qr_fee_tier = Some (v3_fee_tier r)\<rparr>)
        (best_quote (quoted quoter src dst amount) PANCAKE_V3_FEE_TIERS))"

lemma try_quote_pancake:
  assumes "\<And>xs. router (block_tag block) amount [src, dst] = Some xs \<Longrightarrow> length xs = 2"
  shows "try_quote (node (pancake router quoter)) src dst amount block
    = venue_quote (router (block_tag block)) (quoter (block_tag block)) src dst amount"
proof -
  have "quote_single_hop (node (pancake router quoter)) amount src dst block =
      (case router (block_tag block) amount [src, dst] of None \<Rightarrow> Inl V2Rpc | Some xs \<Rightarrow> Inr (last xs))"
    unfolding quote_single_hop_def using assms by (intro quote_path_router) auto
  then show ?thesis
    by (auto simp: try_quote_def venue_quote_def quote_best_tier_def quote_one_tier_quoter best_tier_fold Let_def
        split: option.split)
qed

text \<open>
  C28: Against a node that executes the PancakeSwap contracts the simulator answers, at the
  block asked for, exactly what the contracts would: the output of the V2 pair when it is
  positive, otherwise the largest V3 output over the four fee tiers (the widest tier on a
  tie), otherwise nothing. The calldata it sends is what the ABI of the two contracts
  requires, and their answers are read back without loss, for every router and quoter, as
  long as the router returns one amount per token of the path.
\<close>

theorem simulator_quotes_pancake:
  assumes "\<And>tag a path xs. router tag a path = Some xs \<Longrightarrow> length xs = length path"
  shows "simulate_buy (node (pancake router quoter)) amount token block
      = venue_quote (router (block_tag block)) (quoter (block_tag block)) WBNB token amount
    \<and> simulate_sell (node (pancake router quoter)) amount token block
      = venue_quote (router (block_tag block)) (quoter (block_tag block)) token WBNB amount"
proof -
  have two: "router tag a [src, dst] = Some xs \<Longrightarrow> length xs = 2" for tag a src dst xs
    using assms [of tag a "[src, dst]" xs] by simp
  show ?thesis
    by (simp add: simulate_buy_def simulate_sell_def try_quote_pancake [OF two])
qed

text \<open>A token without a V2 pair and with two V3 pools.\<close>

definition example_router :: "string \<Rightarrow> u256 \<Rightarrow> address list \<Rightarrow> u256 list option" where
  "example_router tag a path = (if 7 \<in> set path then None else Some (map (\<lambda>_. a div 2) path))"

definition example_quoter ::
  "string \<Rightarrow> address \<Rightarrow> address \<Rightarrow> u256 \<Rightarrow> nat \<Rightarrow> nat \<Rightarrow> (u256 \<times> u8 list) option" where
  "example_quoter tag src dst a fee limit =
     (if fee = 2500 then Some (3 * a, replicate 96 0) else if fee = 500 then Some (2 * a, replicate 96 0) else None)"

theorem simulator_quotes_pancake_witness:
  "simulate_buy (node (pancake example_router example_quoter)) 100 7 (Some 5)
     = Some \<lparr>qr_amount_out = 300, qr_venue = PancakeV3, qr_fee_tier = Some 2500\<rparr>
   \<and> simulate_buy (node (pancake example_router example_quoter)) 100 8 None
     = Some \<lparr>qr_amount_out = 50, qr_venue = PancakeV2, qr_fee_tier = None\<rparr>"
proof -
  have len: "example_router tag a path = Some xs \<Longrightarrow> length xs = length path" for tag a path xs
    by (cases path) (auto simp: example_router_def split: if_splits)
  note q = simulator_quotes_pancake [where router = example_router and quoter = example_quoter, OF len]
  have "best_quote (quoted (example_quoter tag) WBNB 7 100) PANCAKE_V3_FEE_TIERS
      = Some \<lparr>v3_amount_out = 300, v3_fee_tier = 2500\<rparr>" for tag
    unfolding best_tier_fold [symmetric]
    by (simp add: PANCAKE_V3_FEE_TIERS_def better_tier_def quoted_def example_quoter_def)
  then show ?thesis
    using q [where amount = 100 and token = 7 and block = "Some 5"] q [where amount = 100 and token = 8 and block = None]
    by (simp add: venue_quote_def example_router_def WBNB_def)
qed

end
