(* ===== verification/DevSniper.thy ===== *)
theory DevSniper
  imports TrailWatcher Dex
begin

text \<open>
  The launchpad sniper of \<open>crates/bsc-runner/src/dev_sniper.rs\<close>: what a creation log does, what a
  block does to a position, and the whole sniper over the shared live executor. The creation
  transaction, the oracle, the prices and the clock (seconds) come with the events; the
  parsers of files are arguments.
\<close>

section \<open>Configuration\<close>

record dev_sniper_config =
  nc_enabled :: bool
  nc_mode :: string
  nc_trade_size_usd :: f64
  nc_trade_size_bnb_wei :: string
  nc_dev_whitelist_file :: string
  nc_ws_url :: string
  nc_rpc_url :: string
  nc_profit_take_pct :: f64
  nc_stop_loss_pct :: f64
  nc_timeout_secs :: nat
  nc_eval_interval_secs :: nat

text \<open>The values of the fields an existing section leaves out.\<close>

definition dev_sniper_section :: dev_sniper_config where
  "dev_sniper_section = \<lparr>nc_enabled = False, nc_mode = ''paper'', nc_trade_size_usd = Fin 10,
     nc_trade_size_bnb_wei = [], nc_dev_whitelist_file = [], nc_ws_url = [], nc_rpc_url = [],
     nc_profit_take_pct = Fin 50, nc_stop_loss_pct = Fin 30, nc_timeout_secs = 1800, nc_eval_interval_secs = 30\<rparr>"

definition FOURMEME_LAUNCHPAD :: address where
  "FOURMEME_LAUNCHPAD = 0x5c952063c7fc8610FFDB798152D69F0B9550762b"

text \<open>The file as read, its list of addresses as TOML gives it; entries that do not parse are left out.\<close>

definition load_devs :: "(string \<Rightarrow> string list option) \<Rightarrow> (string \<Rightarrow> address option) \<Rightarrow> string option \<Rightarrow> address set option" where
  "load_devs toml_devs parse_addr file =
     map_option (\<lambda>hs. set (List.map_filter parse_addr hs)) (Option.bind file toml_devs)"

definition parse_bnb_wei :: "string \<Rightarrow> u128 option" where
  "parse_bnb_wei s =
     (let trimmed = trim s in
      if trimmed = [] \<or> trimmed = ''0'' then None
      else case parse_u128 10 trimmed of Some v \<Rightarrow> if 0 < v then Some v else None | None \<Rightarrow> None)"

section \<open>State\<close>

record snipe_position =
  sp_token :: address
  sp_dev :: address
  sp_bnb_in_wei :: u128
  sp_opened_at :: nat
  sp_opened_block :: u64
  sp_trail :: "trail_state option"

record sniper =
  sn_cfg :: dev_sniper_config
  sn_trail_cfg :: trail_config
  sn_devs :: "address set"
  sn_positions :: "address \<rightharpoonup> snipe_position"
  sn_exec :: "executor option"

text \<open>Nothing is started when the sniper is disabled or its list of developers does not load.\<close>

definition sniper_start :: "dev_sniper_config \<Rightarrow> trail_config \<Rightarrow> address set option \<Rightarrow> executor option \<Rightarrow> sniper option" where
  "sniper_start cfg trail_cfg devs ex =
     (if \<not> nc_enabled cfg then None
      else map_option (\<lambda>ds. \<lparr>sn_cfg = cfg, sn_trail_cfg = trail_cfg, sn_devs = ds, sn_positions = Map.empty, sn_exec = ex\<rparr>) devs)"

section \<open>A creation log\<close>

record creation_log =
  cg_tx_hash :: "b256 option"
  cg_data :: "u8 list"
  cg_block :: "u64 option"

text \<open>The first word of the data that looks like an address other than the creator and the launchpad.\<close>

definition created_token :: "address \<Rightarrow> u8 list \<Rightarrow> address option" where
  "created_token creator data =
     find (\<lambda>a. a \<noteq> creator \<and> a \<noteq> FOURMEME_LAUNCHPAD)
       (map (\<lambda>w. address_of_bytes (slice 12 32 w)) (filter addr_like (words32 data)))"

definition snipe_size :: "dev_sniper_config \<Rightarrow> f64 option \<Rightarrow> u128 option" where
  "snipe_size cfg price =
     (case parse_bnb_wei (nc_trade_size_bnb_wei cfg) of
        Some pinned \<Rightarrow> Some pinned
      | None \<Rightarrow>
          let bnb_usd = (case price of Some p \<Rightarrow> p | None \<Rightarrow> Fin 0) in
          if fle bnb_usd (Fin 0) then None
          else Some (f64_to_word (fmul (fdiv (nc_trade_size_usd cfg) bnb_usd) (flit (10 ^ 18)))))"

definition snipe_kol :: "address \<Rightarrow> string" where
  "snipe_kol creator = ''SNIPE_'' @ take 10 (addr_text creator)"

definition snipe_decision :: "address \<Rightarrow> address \<Rightarrow> u128 \<Rightarrow> u64 option \<Rightarrow> b256 \<Rightarrow> decision" where
  "snipe_decision creator token bnb_in_wei block tx_hash =
     Enter (snipe_kol creator) token (ucast bnb_in_wei) 0 (case block of Some b \<Rightarrow> b | None \<Rightarrow> 0) tx_hash"

datatype log_error = NoTxHash | FetchFailed | NoTransaction | ShortData | NoToken
datatype log_result = NotTrusted | NoOracle | AlreadySniped | NoExecutor | Sniped

record snipe_reads =
  sr_platform :: platform
  sr_exec :: readings
  sr_bnb_usd :: "f64 option"
  sr_now :: nat

text \<open>The signer of the creation transaction: the request may fail or find nothing.\<close>

type_synonym fetched_tx = "address option option"

definition open_snipe :: "address \<Rightarrow> address \<Rightarrow> u128 \<Rightarrow> nat \<Rightarrow> u64 option \<Rightarrow> sniper \<Rightarrow> sniper" where
  "open_snipe token creator bnb_in_wei now block sn =
     sn\<lparr>sn_positions := (sn_positions sn)(token \<mapsto> \<lparr>sp_token = token, sp_dev = creator,
        sp_bnb_in_wei = bnb_in_wei, sp_opened_at = now,
        sp_opened_block = (case block of Some b \<Rightarrow> b | None \<Rightarrow> 0), sp_trail = None\<rparr>)\<rparr>"

text \<open>\<open>execute\<close> returns \<open>Ok\<close> on every path, skipped and failed ones too: the snipe is recorded.\<close>

definition fire_snipe :: "snipe_reads \<Rightarrow> address \<Rightarrow> address \<Rightarrow> u128 \<Rightarrow> u64 option \<Rightarrow> b256 \<Rightarrow> sniper \<Rightarrow> log_result \<times> sniper" where
  "fire_snipe sr token creator bnb_in_wei block tx_hash sn =
     (if nc_mode (sn_cfg sn) = ''live''
      then (case sn_exec sn of
              None \<Rightarrow> (NoExecutor, sn)
            | Some ex \<Rightarrow>
                let ex' = snd (execute (sr_platform sr) (sr_exec sr) (snipe_decision creator token bnb_in_wei block tx_hash)
                                 ''public'' (executor_open_positions ex) ex)
                in (Sniped, open_snipe token creator bnb_in_wei (sr_now sr) block (sn\<lparr>sn_exec := Some ex'\<rparr>)))
      else (Sniped, open_snipe token creator bnb_in_wei (sr_now sr) block sn))"

definition handle_log :: "snipe_reads \<Rightarrow> fetched_tx \<Rightarrow> creation_log \<Rightarrow> sniper \<Rightarrow> (log_error + log_result) \<times> sniper" where
  "handle_log sr fetched lg sn =
     (case cg_tx_hash lg of
        None \<Rightarrow> (Inl NoTxHash, sn)
      | Some tx_hash \<Rightarrow>
          (case fetched of
             None \<Rightarrow> (Inl FetchFailed, sn)
           | Some None \<Rightarrow> (Inl NoTransaction, sn)
           | Some (Some creator) \<Rightarrow>
               if length (cg_data lg) < 32 then (Inl ShortData, sn)
               else case created_token creator (cg_data lg) of
                 None \<Rightarrow> (Inl NoToken, sn)
               | Some token \<Rightarrow>
                   if creator \<notin> sn_devs sn then (Inr NotTrusted, sn)
                   else case snipe_size (sn_cfg sn) (sr_bnb_usd sr) of
                     None \<Rightarrow> (Inr NoOracle, sn)
                   | Some bnb_in_wei \<Rightarrow>
                       if sn_positions sn token \<noteq> None then (Inr AlreadySniped, sn)
                       else map_prod Inr id (fire_snipe sr token creator bnb_in_wei (cg_block lg) tx_hash sn)))"

section \<open>A block\<close>

text \<open>The first price a position sees becomes its entry price.\<close>

definition captured_state :: "u64 \<Rightarrow> u64 \<Rightarrow> f64 \<Rightarrow> trail_state" where
  "captured_state opened_block block p =
     trail_state_default\<lparr>ts_entry_price := p, ts_peak_price := p, ts_last_price := p, ts_armed := False,
       ts_opened_block := max opened_block (sat_sub block 1), ts_last_observed_block := block\<rparr>"

text \<open>How far back the price is looked for.\<close>

definition scan_from :: "trail_config \<Rightarrow> snipe_position \<Rightarrow> u64 \<Rightarrow> u64" where
  "scan_from cfg pos block =
     (if sp_trail pos \<noteq> None then sat_sub block 4
      else max (sp_opened_block pos) (sat_sub block (tc_max_hold_blocks cfg)))"

text \<open>The position after the tick (\<open>None\<close>: removed) and the exit with its price. A panic of the
  price reading ends the task and leaves the position.\<close>

definition snipe_tick ::
  "trail_config \<Rightarrow> price_read \<Rightarrow> u64 \<Rightarrow> snipe_position \<Rightarrow> snipe_position option \<times> (exit_reason \<times> f64) option" where
  "snipe_tick cfg read block pos =
     (case read of
        PricePanic \<Rightarrow> (Some pos, None)
      | _ \<Rightarrow>
        (let price = (case read of Price p \<Rightarrow> Some p | _ \<Rightarrow> None) in
         case sp_trail pos of
           None \<Rightarrow>
             (case price of
                None \<Rightarrow> if tc_max_hold_blocks cfg \<le> sat_sub block (sp_opened_block pos) then (None, None) else (Some pos, None)
              | Some p \<Rightarrow> (Some (pos\<lparr>sp_trail := Some (captured_state (sp_opened_block pos) block p)\<rparr>), None))
         | Some s \<Rightarrow>
             let current = (case price of Some p \<Rightarrow> p | None \<Rightarrow> ts_last_price s) in
             (case trail_step s cfg current block of
                None \<Rightarrow> (Some pos, None)
              | Some (s', Some reason) \<Rightarrow> (None, Some (reason, current))
              | Some (s', None) \<Rightarrow> (Some (pos\<lparr>sp_trail := Some s'\<rparr>), None))))"

definition process_sniper_position ::
  "platform \<Rightarrow> feed \<Rightarrow> (address \<Rightarrow> trail_readings) \<Rightarrow> u64 \<Rightarrow> address \<Rightarrow> sniper \<Rightarrow> sniper" where
  "process_sniper_position pf fd trs block token sn =
     (case sn_positions sn token of
        None \<Rightarrow> sn
      | Some pos \<Rightarrow>
          let read = get_latest_price_cached fd CACHE_MAX_STALE_BLOCKS pf (trs token) token
                (scan_from (sn_trail_cfg sn) pos block) block
          in sn\<lparr>sn_positions := (sn_positions sn)(token := fst (snipe_tick (sn_trail_cfg sn) read block pos))\<rparr>)"

text \<open>The profit the exit line reports.\<close>

definition snipe_pnl_bnb :: "snipe_position \<Rightarrow> f64 \<Rightarrow> f64 \<Rightarrow> f64" where
  "snipe_pnl_bnb pos entry exit_price =
     fmul (fdiv (f64_of_word (sp_bnb_in_wei pos)) (flit (10 ^ 18))) (fdiv (fsub exit_price entry) entry)"

text \<open>Without the trail only overdue positions are logged.\<close>

definition overdue_positions :: "nat \<Rightarrow> sniper \<Rightarrow> address set" where
  "overdue_positions now sn =
     {token. \<exists>p. sn_positions sn token = Some p \<and> nc_timeout_secs (sn_cfg sn) \<le> now - sp_opened_at p}"

section \<open>The sniper over the shared executor\<close>

text \<open>A creation log, a block with the snapshot of the positions, a step of the rest of the trader.\<close>

datatype sniper_event =
    CreationSeen snipe_reads fetched_tx creation_log
  | SniperBlock platform feed "address \<Rightarrow> trail_readings" u64 "address list"
  | TraderRuns exec_event

fun sniper_step :: "sniper \<Rightarrow> sniper_event \<Rightarrow> sniper" where
  "sniper_step sn (CreationSeen sr fetched lg) = snd (handle_log sr fetched lg sn)"
| "sniper_step sn (SniperBlock pf fd trs block snapshot) =
     (if tc_enabled (sn_trail_cfg sn)
      then foldl (\<lambda>sn token. process_sniper_position pf fd trs block token sn) sn snapshot else sn)"
| "sniper_step sn (TraderRuns e) = sn\<lparr>sn_exec := map_option (\<lambda>ex. exec_step ex e) (sn_exec sn)\<rparr>"

section \<open>What a position always is\<close>

definition snipe_ok :: "address set \<Rightarrow> address \<Rightarrow> snipe_position \<Rightarrow> bool" where
  "snipe_ok devs token pos \<longleftrightarrow> sp_token pos = token \<and> sp_dev pos \<in> devs \<and> token \<noteq> sp_dev pos
     \<and> token \<noteq> FOURMEME_LAUNCHPAD \<and> (\<forall>s. sp_trail pos = Some s \<longrightarrow> trail_wf s)"

definition sniper_inv :: "sniper \<Rightarrow> bool" where
  "sniper_inv sn \<longleftrightarrow> (\<forall>token pos. sn_positions sn token = Some pos \<longrightarrow> snipe_ok (sn_devs sn) token pos)"

lemma created_token_other: "created_token creator data = Some t \<Longrightarrow> t \<noteq> creator \<and> t \<noteq> FOURMEME_LAUNCHPAD"
  by (auto simp: created_token_def find_Some_iff)

lemma captured_state_wf [simp]: "trail_wf (captured_state ob b p)"
  by (simp add: captured_state_def trail_wf_def trail_state_default_def PRICE_HISTORY_LEN_def)

lemma captured_opened [simp]: "ts_opened_block (captured_state ob b p) = max ob (sat_sub b 1)"
  by (simp add: captured_state_def)

text \<open>A tick either removes the position or changes its trail state only, into a well-formed one.\<close>

lemma snipe_tick_cases:
  assumes "\<And>s. sp_trail pos = Some s \<Longrightarrow> trail_wf s"
  shows "fst (snipe_tick cfg read b pos) = None
    \<or> (\<exists>st. fst (snipe_tick cfg read b pos) = Some (pos\<lparr>sp_trail := st\<rparr>)
        \<and> (st = None \<and> sp_trail pos = None
           \<or> (\<exists>s'. st = Some s' \<and> trail_wf s'
               \<and> (case sp_trail pos of None \<Rightarrow> ts_opened_block s' = max (sp_opened_block pos) (sat_sub b 1)
                  | Some s \<Rightarrow> ts_opened_block s' = ts_opened_block s))))"
proof (cases "sp_trail pos")
  case None
  then have same: "pos\<lparr>sp_trail := None\<rparr> = pos" by simp
  show ?thesis
    using None same by (cases read) (auto simp: snipe_tick_def intro: exI [of _ None])
next
  case (Some s)
  then have same: "pos\<lparr>sp_trail := Some s\<rparr> = pos" by simp
  have wf: "trail_wf s" using assms Some by simp
  show ?thesis
  proof (cases read)
    case PricePanic
    then show ?thesis using Some same wf by (auto simp: snipe_tick_def intro: exI [of _ "Some s"])
  next
    case NoPrice
    obtain s' where "trail_step s cfg (ts_last_price s) b = Some (s', decide_exit cfg s' (ts_last_price s) b)"
        "tick_effect cfg s (ts_last_price s) s'" by (rule trail_step_spec [OF wf])
    then show ?thesis
      using Some NoPrice by (cases "decide_exit cfg s' (ts_last_price s) b") (auto simp: snipe_tick_def tick_effect_def)
  next
    case (Price p)
    obtain s' where "trail_step s cfg p b = Some (s', decide_exit cfg s' p b)" "tick_effect cfg s p s'"
      by (rule trail_step_spec [OF wf])
    then show ?thesis
      using Some Price by (cases "decide_exit cfg s' p b") (auto simp: snipe_tick_def tick_effect_def)
  qed
qed

lemma snipe_tick_ok:
  assumes "snipe_ok devs token pos" and "fst (snipe_tick cfg read b pos) = Some pos'"
  shows "snipe_ok devs token pos'"
  using snipe_tick_cases [of pos cfg read b] assms by (auto simp: snipe_ok_def)

lemma process_sniper_frame [simp]:
  "sn_devs (process_sniper_position pf fd trs b token sn) = sn_devs sn"
  "sn_exec (process_sniper_position pf fd trs b token sn) = sn_exec sn"
  "sn_cfg (process_sniper_position pf fd trs b token sn) = sn_cfg sn"
  "sn_trail_cfg (process_sniper_position pf fd trs b token sn) = sn_trail_cfg sn"
  by (simp_all add: process_sniper_position_def Let_def split: option.split)

lemma process_sniper_other:
  "token' \<noteq> token \<Longrightarrow> sn_positions (process_sniper_position pf fd trs b token sn) token' = sn_positions sn token'"
  by (simp add: process_sniper_position_def Let_def split: option.split)

lemma process_sniper_gone:
  "sn_positions sn token = None \<Longrightarrow> sn_positions (process_sniper_position pf fd trs b t sn) token = None"
  by (cases "t = token") (simp_all add: process_sniper_other, simp add: process_sniper_position_def)

lemma process_sniper_inv: "sniper_inv sn \<Longrightarrow> sniper_inv (process_sniper_position pf fd trs b token sn)"
  by (auto simp: process_sniper_position_def sniper_inv_def Let_def intro: snipe_tick_ok split: option.splits if_splits)

lemma sniper_block_induct:
  assumes "P sn" and "\<And>sn token. P sn \<Longrightarrow> P (process_sniper_position pf fd trs b token sn)"
  shows "P (foldl (\<lambda>sn token. process_sniper_position pf fd trs b token sn) sn snapshot)"
  using assms(1) by (induction snapshot arbitrary: sn) (auto intro: assms(2))

text \<open>The cases of a log: nothing changes, or a position is opened, live with an order to the executor.\<close>

lemma handle_log_cases:
  obtains "snd (handle_log sr fetched lg sn) = sn"
  | creator token amount tx_hash ex where "fetched = Some (Some creator)" "cg_tx_hash lg = Some tx_hash"
      "created_token creator (cg_data lg) = Some token" "creator \<in> sn_devs sn" "sn_positions sn token = None"
      "snd (handle_log sr fetched lg sn) = open_snipe token creator amount (sr_now sr) (cg_block lg) (sn\<lparr>sn_exec := ex\<rparr>)"
      "nc_mode (sn_cfg sn) = ''live'' \<longrightarrow> sn_exec sn \<noteq> None"
      "ex = sn_exec sn \<or> (\<exists>x. sn_exec sn = Some x \<and> ex = Some (exec_step x (BuyDecision (sr_platform sr) (sr_exec sr)
         (snipe_decision creator token amount (cg_block lg) tx_hash) ''public'')))"
proof (cases "snd (handle_log sr fetched lg sn) = sn")
  case False
  then obtain creator token amount tx_hash where at: "fetched = Some (Some creator)" "cg_tx_hash lg = Some tx_hash"
      "created_token creator (cg_data lg) = Some token" "creator \<in> sn_devs sn" "sn_positions sn token = None"
    and res: "snd (handle_log sr fetched lg sn) = snd (fire_snipe sr token creator amount (cg_block lg) tx_hash sn)"
    by (auto simp: handle_log_def split: option.splits if_splits)
  have fired: "snd (fire_snipe sr token creator amount (cg_block lg) tx_hash sn) \<noteq> sn" using False res by simp
  show thesis
  proof (cases "nc_mode (sn_cfg sn) = ''live''")
    case True
    with fired obtain x where "sn_exec sn = Some x" by (auto simp: fire_snipe_def split: option.splits)
    with that(2) [OF at, of amount] True res show thesis by (simp add: fire_snipe_def Let_def)
  next
    case paper: False
    have "sn\<lparr>sn_exec := sn_exec sn\<rparr> = sn" by simp
    with that(2) [OF at, of amount "sn_exec sn"] paper res show thesis by (simp add: fire_snipe_def)
  qed
qed (rule that(1))

lemma open_snipe_simps [simp]:
  "sn_exec (open_snipe token c a n b sn) = sn_exec sn" "sn_devs (open_snipe token c a n b sn) = sn_devs sn"
  "sn_cfg (open_snipe token c a n b sn) = sn_cfg sn" "sn_trail_cfg (open_snipe token c a n b sn) = sn_trail_cfg sn"
  by (simp_all add: open_snipe_def)

lemma handle_log_inv:
  assumes "sniper_inv sn"
  shows "sniper_inv (snd (handle_log sr fetched lg sn))"
proof (cases rule: handle_log_cases [of sr fetched lg sn])
  case (2 creator token amount tx_hash ex)
  show ?thesis
    unfolding 2(6) using assms 2(4) created_token_other [OF 2(3)]
    by (auto simp: sniper_inv_def open_snipe_def snipe_ok_def)
qed (simp add: assms)

interpretation sniper: stateful sniper_step sniper_inv
proof
  fix sn e
  assume "sniper_inv sn"
  then show "sniper_inv (sniper_step sn e)"
  proof (cases e)
    case (SniperBlock pf fd trs b snapshot)
    with \<open>sniper_inv sn\<close> show ?thesis by (auto intro: sniper_block_induct process_sniper_inv)
  qed (auto simp: handle_log_inv, simp add: sniper_inv_def)
qed

section \<open>What the sniper does to the executor\<close>

fun sniper_allowed :: "sniper_event \<Rightarrow> exec_event set" where
  "sniper_allowed (CreationSeen sr fetched lg) =
     {BuyDecision (sr_platform sr) (sr_exec sr) (snipe_decision creator token amount (cg_block lg) tx_hash) ''public''
        | creator token amount tx_hash. fetched = Some (Some creator) \<and> cg_tx_hash lg = Some tx_hash
            \<and> created_token creator (cg_data lg) = Some token}"
| "sniper_allowed (SniperBlock pf fd trs b snapshot) = {}"
| "sniper_allowed (TraderRuns e) = {e}"

fun sniper_cost :: "sniper_event \<Rightarrow> nat" where
  "sniper_cost (SniperBlock pf fd trs b snapshot) = 0"
| "sniper_cost _ = 1"

definition exec_option_step :: "executor option \<Rightarrow> exec_event \<Rightarrow> executor option" where
  "exec_option_step o' e = map_option (\<lambda>ex. exec_step ex e) o'"

lemma exec_option_run: "foldl exec_option_step (Some ex) es = Some (foldl exec_step ex es)"
  by (induction es arbitrary: ex) (simp_all add: exec_option_step_def)

lemma block_keeps_exec:
  "sn_exec (foldl (\<lambda>sn token. process_sniper_position pf fd trs b token sn) sn snapshot) = sn_exec sn"
  by (rule sniper_block_induct [where P = "\<lambda>s. sn_exec s = sn_exec sn"]) simp_all

interpretation sniper_exec: simulation sniper_step exec_option_step sn_exec sniper_allowed sniper_cost
proof
  fix sn e
  show "\<exists>fs. set fs \<subseteq> sniper_allowed e \<and> length fs \<le> sniper_cost e
      \<and> sn_exec (sniper_step sn e) = foldl exec_option_step (sn_exec sn) fs"
  proof (cases e)
    case (CreationSeen sr fetched lg)
    show ?thesis
    proof (cases rule: handle_log_cases [of sr fetched lg sn])
      case 1
      with CreationSeen show ?thesis by (intro exI [of _ "[]"]) simp
    next
      case (2 creator token amount tx_hash ex)
      let ?ev = "BuyDecision (sr_platform sr) (sr_exec sr) (snipe_decision creator token amount (cg_block lg) tx_hash) ''public''"
      have "sn_exec (sniper_step sn e) = ex" by (simp add: CreationSeen 2(6))
      moreover have "?ev \<in> sniper_allowed e" using 2(1-3) by (auto simp: CreationSeen)
      ultimately show ?thesis
        using 2(8) by (elim disjE exE conjE)
          (intro exI [of _ "[]"], simp, intro exI [of _ "[?ev]"], simp add: CreationSeen exec_option_step_def)
    qed
  next
    case (SniperBlock pf fd trs b snapshot)
    then show ?thesis by (intro exI [of _ "[]"]) (simp add: block_keeps_exec)
  next
    case (TraderRuns x)
    then show ?thesis by (intro exI [of _ "[x]"]) (simp add: exec_option_step_def)
  qed
qed


section \<open>Every snipe ends\<close>

definition quote_reads :: "platform \<Rightarrow> (address \<Rightarrow> trail_readings) \<Rightarrow> address \<Rightarrow> bool" where
  "quote_reads pf trs token \<longleftrightarrow> v2_quote_price (pf_hex_decode pf) (tr_quote (trs token)) \<noteq> PricePanic"

fun names_token :: "address \<Rightarrow> sniper_event \<Rightarrow> bool" where
  "names_token token (CreationSeen sr fetched lg) =
     (case fetched of Some (Some creator) \<Rightarrow> created_token creator (cg_data lg) = Some token | _ \<Rightarrow> False)"
| "names_token token _ = False"

text \<open>The token has no position, or one whose trail runs since the block at the latest.\<close>

definition gone_or_running :: "u64 \<Rightarrow> address \<Rightarrow> sniper \<Rightarrow> bool" where
  "gone_or_running b token sn \<longleftrightarrow> (\<forall>pos. sn_positions sn token = Some pos \<longrightarrow>
     (\<exists>s. sp_trail pos = Some s \<and> trail_wf s \<and> ts_opened_block s \<le> b))"

definition running_by :: "u64 \<Rightarrow> snipe_position \<Rightarrow> bool" where
  "running_by b pos \<longleftrightarrow> (\<forall>s. sp_trail pos = Some s \<longrightarrow> ts_opened_block s \<le> b)"

lemma quote_reads_price:
  "quote_reads pf trs token \<Longrightarrow> get_latest_price_cached fd n pf (trs token) token from b \<noteq> PricePanic"
  by (auto simp: quote_reads_def get_latest_price_cached_def get_latest_price_def split: option.splits price_read.splits)

lemma gone_or_running_tick:
  assumes "gone_or_running b0 token sn"
  shows "gone_or_running b0 token (process_sniper_position pf fd trs b token' sn)"
proof (cases "token' = token \<and> sn_positions sn token \<noteq> None")
  case True
  then obtain pos where pos: "sn_positions sn token = Some pos" "token' = token" by auto
  with assms obtain s where s: "sp_trail pos = Some s" "trail_wf s" "ts_opened_block s \<le> b0"
    by (auto simp: gone_or_running_def)
  show ?thesis
    using snipe_tick_cases [of pos "sn_trail_cfg sn"
        "get_latest_price_cached fd CACHE_MAX_STALE_BLOCKS pf (trs token) token (scan_from (sn_trail_cfg sn) pos b) b" b] pos s
    by (auto simp: gone_or_running_def process_sniper_position_def Let_def)
next
  case False
  then have "sn_positions (process_sniper_position pf fd trs b token' sn) token = sn_positions sn token"
    by (cases "token' = token") (simp_all add: process_sniper_other, simp add: process_sniper_position_def)
  with assms show ?thesis by (simp add: gone_or_running_def)
qed

lemma gone_or_running_step:
  assumes "gone_or_running b0 token sn" and "\<not> names_token token e"
  shows "gone_or_running b0 token (sniper_step sn e)"
proof (cases e)
  case (CreationSeen sr fetched lg)
  show ?thesis
  proof (cases rule: handle_log_cases [of sr fetched lg sn])
    case (2 creator token' amount tx_hash ex)
    then have "token' \<noteq> token" using assms(2) by (auto simp: CreationSeen)
    with assms(1) show ?thesis by (simp add: CreationSeen 2(6) gone_or_running_def open_snipe_def)
  qed (simp add: CreationSeen assms(1))
next
  case (SniperBlock pf fd trs b snapshot)
  with assms(1) show ?thesis by (auto intro: sniper_block_induct gone_or_running_tick)
next
  case (TraderRuns x)
  with assms(1) show ?thesis by (simp add: gone_or_running_def)
qed

lemma gone_or_running_run:
  "gone_or_running b0 token sn \<Longrightarrow> \<forall>e \<in> set es. \<not> names_token token e \<Longrightarrow> gone_or_running b0 token (foldl sniper_step sn es)"
  by (induction es arbitrary: sn) (simp_all add: gone_or_running_step)

text \<open>The first block at which the position is old enough: it is gone, or its trail runs.\<close>

lemma old_position_runs:
  assumes "sniper_inv sn" and "quote_reads pf trs token"
    and "\<And>pos. sn_positions sn token = Some pos \<Longrightarrow> running_by b pos
          \<and> unat (sp_opened_block pos) + unat (tc_max_hold_blocks (sn_trail_cfg sn)) \<le> unat b"
  shows "gone_or_running b token (process_sniper_position pf fd trs b token sn)"
proof (cases "sn_positions sn token")
  case None
  then show ?thesis by (simp add: process_sniper_position_def gone_or_running_def)
next
  case (Some pos)
  let ?read = "get_latest_price_cached fd CACHE_MAX_STALE_BLOCKS pf (trs token) token (scan_from (sn_trail_cfg sn) pos b) b"
  have ok: "snipe_ok (sn_devs sn) token pos" using assms(1) Some by (simp add: sniper_inv_def)
  have old: "running_by b pos" "sp_opened_block pos \<le> b"
      "tc_max_hold_blocks (sn_trail_cfg sn) \<le> sat_sub b (sp_opened_block pos)"
    using assms(3) [OF Some] by (auto simp: word_le_nat_alt unat_sat_sub)
  have read: "?read \<noteq> PricePanic" using assms(2) by (rule quote_reads_price)
  have "\<exists>s. sp_trail pos' = Some s \<and> trail_wf s \<and> ts_opened_block s \<le> b"
    if "fst (snipe_tick (sn_trail_cfg sn) ?read b pos) = Some pos'" for pos'
  proof (cases "sp_trail pos")
    case None
    with that read old(3) obtain p where "pos' = pos\<lparr>sp_trail := Some (captured_state (sp_opened_block pos) b p)\<rparr>"
      by (cases ?read) (auto simp: snipe_tick_def)
    with old(2) show ?thesis by simp
  next
    case (Some s)
    then show ?thesis
      using snipe_tick_cases [of pos "sn_trail_cfg sn" ?read b] that ok old(1) by (auto simp: snipe_ok_def running_by_def)
  qed
  with Some show ?thesis by (auto simp: gone_or_running_def process_sniper_position_def Let_def)
qed

text \<open>A block a holding time later: the timeout, if nothing else, removes it.\<close>

lemma running_position_ends:
  assumes "gone_or_running b0 token sn" and "quote_reads pf trs token"
    and "unat b0 + unat (tc_max_hold_blocks (sn_trail_cfg sn)) \<le> unat b"
  shows "sn_positions (process_sniper_position pf fd trs b token sn) token = None"
proof (cases "sn_positions sn token")
  case (Some pos)
  let ?cfg = "sn_trail_cfg sn"
  let ?read = "get_latest_price_cached fd CACHE_MAX_STALE_BLOCKS pf (trs token) token (scan_from ?cfg pos b) b"
  obtain s where s: "sp_trail pos = Some s" "trail_wf s" "ts_opened_block s \<le> b0"
    using assms(1) Some by (auto simp: gone_or_running_def)
  have timeout: "decide_exit ?cfg s' p b \<noteq> None" if "ts_opened_block s' = ts_opened_block s" for s' p
    using that assms(3) s(3)
    by (auto simp: decide_exit_def check_timeout_def word_le_nat_alt unat_sat_sub split: option.split)
  have ends: "\<exists>s' r. trail_step s ?cfg p b = Some (s', Some r)" for p
    using trail_step_spec [OF s(2), of ?cfg p b] timeout by (metis option.exhaust tick_effect_def)
  have "?read \<noteq> PricePanic" using assms(2) by (rule quote_reads_price)
  then have "fst (snipe_tick ?cfg ?read b pos) = None"
  proof (cases ?read)
    case NoPrice
    with ends [of "ts_last_price s"] s(1) show ?thesis by (auto simp: snipe_tick_def)
  next
    case (Price p)
    with ends [of p] s(1) show ?thesis by (auto simp: snipe_tick_def)
  qed simp
  with Some show ?thesis by (simp add: process_sniper_position_def Let_def)
qed (simp add: process_sniper_position_def)

lemma block_at_token:
  assumes "token \<in> set snapshot"
  obtains before after where "snapshot = before @ token # after" "token \<notin> set before"
  using assms by (meson split_list_first)

lemma block_other:
  "token \<notin> set snapshot \<Longrightarrow>
     sn_positions (foldl (\<lambda>sn t. process_sniper_position pf fd trs b t sn) sn snapshot) token = sn_positions sn token"
  by (induction snapshot arbitrary: sn) (simp_all add: process_sniper_other)

lemma block_frame [simp]:
  "sn_trail_cfg (foldl (\<lambda>sn t. process_sniper_position pf fd trs b t sn) sn snapshot) = sn_trail_cfg sn"
  by (rule sniper_block_induct [where P = "\<lambda>s. sn_trail_cfg s = sn_trail_cfg sn"]) simp_all

lemma sniper_step_trail_cfg [simp]: "sn_trail_cfg (sniper_step sn e) = sn_trail_cfg sn"
proof (cases e)
  case (CreationSeen sr fetched lg)
  show ?thesis by (cases rule: handle_log_cases [of sr fetched lg sn]) (simp_all add: CreationSeen)
qed simp_all

lemma sniper_run_trail_cfg [simp]: "sn_trail_cfg (foldl sniper_step sn es) = sn_trail_cfg sn"
  by (induction es arbitrary: sn) simp_all


section \<open>Concrete snipes\<close>

definition example_snipe_position :: snipe_position where
  "example_snipe_position = \<lparr>sp_token = 9, sp_dev = 3, sp_bnb_in_wei = 1, sp_opened_at = 0, sp_opened_block = 100, sp_trail = None\<rparr>"

definition example_snipe :: "executor option \<Rightarrow> sniper" where
  "example_snipe ex = \<lparr>sn_cfg = dev_sniper_section, sn_trail_cfg = trail_config_default\<lparr>tc_enabled := True\<rparr>, sn_devs = {3},
     sn_positions = Map.empty(9 \<mapsto> example_snipe_position), sn_exec = ex\<rparr>"



end
