(* ===== verification/DevResolver.thy ===== *)
theory DevResolver
  imports DevSniper
begin

text \<open>
  The creator lookup of \<open>crates/bsc-runner/src/trader/dev_resolver.rs\<close>: the log scan that finds
  the creation transaction of a token, the cache of its answers, and the race of a lookup
  against its time budget. What each endpoint answers is an argument.
\<close>

section \<open>Resolution\<close>

definition ANCHOR_WINDOW_BLOCKS :: u64 where
  "ANCHOR_WINDOW_BLOCKS = 5000"

definition TOKEN_CREATE_TOPIC :: string where
  "TOKEN_CREATE_TOPIC = ''0x396d5e902b675b032348d3d2e9517ee8f0c4a926603fbc075d3d282ff00cad20''"

definition creation_filter :: "u64 \<Rightarrow> json" where
  "creation_filter anchor_block = rpc_request ''eth_getLogs''
     [JObj [(''address'', JStr ''0x5c952063c7fc8610FFDB798152D69F0B9550762b''),
       (''fromBlock'', JStr (show_hex (unat (sat_sub anchor_block ANCHOR_WINDOW_BLOCKS)))),
       (''toBlock'', JStr (show_hex (unat anchor_block))), (''topics'', JArr [JStr TOKEN_CREATE_TOPIC])]]"

definition tx_from :: "(json \<Rightarrow> reply) \<Rightarrow> (string \<Rightarrow> address option) \<Rightarrow> string \<Rightarrow> address option" where
  "tx_from post parse_addr tx_hash =
     Option.bind (reply_json (post (rpc_request ''eth_getTransactionByHash'' [JStr tx_hash]))) (\<lambda>v.
       Option.bind (jget v ''result'') (\<lambda>tx. Option.bind (jget tx ''from'') (\<lambda>f. Option.bind (as_str f) parse_addr)))"

definition log_data :: "json \<Rightarrow> string" where
  "log_data lg = to_lower (case Option.bind (jget lg ''data'') as_str of Some d \<Rightarrow> d | None \<Rightarrow> [])"

text \<open>The first log that mentions the token decides, also when its transaction cannot be read.\<close>

fun scan_logs :: "(json \<Rightarrow> reply) \<Rightarrow> (string \<Rightarrow> address option) \<Rightarrow> string \<Rightarrow> json list \<Rightarrow> address option option" where
  "scan_logs post parse_addr tok_short [] = None"
| "scan_logs post parse_addr tok_short (lg # rest) =
     (if contains_str tok_short (log_data lg)
      then Some (case Option.bind (jget lg ''transactionHash'') as_str of
                   None \<Rightarrow> None | Some tx_hash \<Rightarrow> tx_from post parse_addr tx_hash)
      else scan_logs post parse_addr tok_short rest)"

definition tok_short :: "address \<Rightarrow> string" where
  "tok_short token = hex_encode (be_bytes 20 (unat token))"

text \<open>The endpoints one after the other: one that fails or knows no log leaves it to the next.\<close>

fun resolve_from :: "(string \<Rightarrow> json \<Rightarrow> reply) \<Rightarrow> (string \<Rightarrow> address option) \<Rightarrow> address \<Rightarrow> u64 \<Rightarrow> string list \<Rightarrow> address option" where
  "resolve_from post parse_addr token anchor [] = None"
| "resolve_from post parse_addr token anchor (url # urls) =
     (case Option.bind (reply_json (post url (creation_filter anchor))) (\<lambda>v. Option.bind (jget v ''result'') as_array) of
        None \<Rightarrow> resolve_from post parse_addr token anchor urls
      | Some logs \<Rightarrow>
          (case scan_logs (post url) parse_addr (tok_short token) logs of
             Some res \<Rightarrow> res
           | None \<Rightarrow> resolve_from post parse_addr token anchor urls))"

definition resolver_urls :: "string \<Rightarrow> string \<Rightarrow> string list" where
  "resolver_urls rpc_url archive_rpc_url = (if archive_rpc_url = [] then [rpc_url] else [archive_rpc_url, rpc_url])"

definition resolve :: "(string \<Rightarrow> json \<Rightarrow> reply) \<Rightarrow> (string \<Rightarrow> address option) \<Rightarrow> string \<Rightarrow> string \<Rightarrow> address \<Rightarrow> u64 \<Rightarrow> address option" where
  "resolve post parse_addr rpc_url archive_rpc_url token anchor =
     resolve_from post parse_addr token anchor (resolver_urls rpc_url archive_rpc_url)"

section \<open>The lookup and its cache\<close>

datatype dev_lookup = WhitelistedDev | OtherDev | Unknown

record dev_resolver =
  dr_whitelist :: "address set"
  dr_cache :: "address \<rightharpoonup> address option"

definition resolver_load :: "(string \<Rightarrow> string list option) \<Rightarrow> (string \<Rightarrow> address option) \<Rightarrow> string option \<Rightarrow> dev_resolver option" where
  "resolver_load toml_devs parse_addr file =
     map_option (\<lambda>w. \<lparr>dr_whitelist = w, dr_cache = Map.empty\<rparr>) (load_devs toml_devs parse_addr file)"

definition whitelist_size :: "dev_resolver \<Rightarrow> nat" where
  "whitelist_size r = card (dr_whitelist r)"

definition dev_verdict :: "dev_resolver \<Rightarrow> address option \<Rightarrow> dev_lookup" where
  "dev_verdict r entry = (case entry of
       Some dev \<Rightarrow> if dev \<in> dr_whitelist r then WhitelistedDev else OtherDev
     | None \<Rightarrow> OtherDev)"

definition remember :: "address \<Rightarrow> address option \<Rightarrow> dev_resolver \<Rightarrow> dev_resolver" where
  "remember token entry r = r\<lparr>dr_cache := (dr_cache r)(token \<mapsto> entry)\<rparr>"

text \<open>A resolution in time, or a timeout: then a task repeats it, and ends as a step of its own.\<close>

datatype race = InTime "address option" | TimedOut

definition dev_lookup_step :: "address \<Rightarrow> race \<Rightarrow> dev_resolver \<Rightarrow> dev_lookup \<times> dev_resolver" where
  "dev_lookup_step token race r =
     (case dr_cache r token of
        Some entry \<Rightarrow> (dev_verdict r entry, r)
      | None \<Rightarrow> (case race of
          InTime entry \<Rightarrow> (dev_verdict r entry, remember token entry r)
        | TimedOut \<Rightarrow> (Unknown, r)))"

datatype resolver_event = LookedUp address race | TaskDone address "address option"

fun resolver_step :: "dev_resolver \<Rightarrow> resolver_event \<Rightarrow> dev_resolver" where
  "resolver_step r (LookedUp token race) = snd (dev_lookup_step token race r)"
| "resolver_step r (TaskDone token entry) = remember token entry r"

text \<open>The resolution an event brings.\<close>

fun brings :: "resolver_event \<Rightarrow> (address \<times> address option) set" where
  "brings (LookedUp token (InTime entry)) = {(token, entry)}"
| "brings (LookedUp token TimedOut) = {}"
| "brings (TaskDone token entry) = {(token, entry)}"

lemma resolver_whitelist [simp]: "dr_whitelist (resolver_step r e) = dr_whitelist r"
  by (cases e) (auto simp: dev_lookup_step_def remember_def split: option.split race.split)

lemma resolver_run_whitelist [simp]: "dr_whitelist (foldl resolver_step r es) = dr_whitelist r"
  by (induction es arbitrary: r) simp_all

lemma resolver_cache_origin:
  "dr_cache (foldl resolver_step r es) token = Some entry \<Longrightarrow>
     dr_cache r token = Some entry \<or> (token, entry) \<in> (\<Union>e \<in> set es. brings e)"
proof (induction es arbitrary: r)
  case (Cons e es)
  have "dr_cache (resolver_step r e) token = Some entry \<Longrightarrow> dr_cache r token = Some entry \<or> (token, entry) \<in> brings e"
    by (cases e) (auto simp: dev_lookup_step_def remember_def split: option.splits race.splits if_splits)
  with Cons.IH [of "resolver_step r e"] Cons.prems show ?case by auto
qed simp

text \<open>The bonus is earned. Over any interleaving of lookups and of the tasks that timed-out ones
  leave behind, a lookup calls the creator of a token trusted only when some resolution of
  this very token gave an address of the trust list: no failure, timeout or race makes a
  token trusted.\<close>
lemma bonus_only_for_trusted:
  assumes "dev_lookup_step token race (foldl resolver_step (r\<lparr>dr_cache := Map.empty\<rparr>) es) = (WhitelistedDev, r')"
  shows "\<exists>dev \<in> dr_whitelist r. (token, Some dev) \<in> (\<Union>e \<in> set (es @ [LookedUp token race]). brings e)"
proof -
  let ?r = "foldl resolver_step (r\<lparr>dr_cache := Map.empty\<rparr>) es"
  have wl: "dr_whitelist ?r = dr_whitelist r" by simp
  show ?thesis
  proof (cases "dr_cache ?r token")
    case (Some entry)
    with assms wl obtain dev where "entry = Some dev" "dev \<in> dr_whitelist r"
      by (auto simp: dev_lookup_step_def dev_verdict_def split: option.splits if_splits)
    with resolver_cache_origin [OF Some] show ?thesis by auto
  next
    case None
    with assms wl obtain dev where "race = InTime (Some dev)" "dev \<in> dr_whitelist r"
      by (auto simp: dev_lookup_step_def dev_verdict_def split: option.splits race.splits if_splits)
    then show ?thesis by auto
  qed
qed

text \<open>A failure of every endpoint within the budget is remembered as the answer that the token is
  not a Four.Meme token: until a task of an earlier timeout ends, nothing is asked again.\<close>

lemma failure_is_remembered:
  assumes "dr_cache r token = None" and "\<forall>e \<in> set es. \<forall>entry. e \<noteq> TaskDone token entry"
  shows "fst (dev_lookup_step token race (foldl resolver_step (resolver_step r (LookedUp token (InTime None))) es)) = OtherDev"
proof -
  have keep: "dr_cache (foldl resolver_step r es) token = Some entry"
    if "dr_cache r token = Some entry" "\<forall>e \<in> set es. \<forall>entry. e \<noteq> TaskDone token entry" for r entry
    using that
  proof (induction es arbitrary: r)
    case (Cons e es)
    have "dr_cache (resolver_step r e) token = Some entry"
      using Cons.prems by (cases e) (auto simp: dev_lookup_step_def remember_def split: option.split race.split)
    with Cons show ?case by simp
  qed simp
  have "dr_cache (resolver_step r (LookedUp token (InTime None))) token = Some None"
    using assms(1) by (simp add: dev_lookup_step_def remember_def)
  from keep [OF this assms(2)] show ?thesis by (simp add: dev_lookup_step_def dev_verdict_def)
qed

lemma unreachable_endpoints: "\<forall>url \<in> set urls. reply_json (post url (creation_filter anchor)) = None \<Longrightarrow>
    resolve_from post parse_addr token anchor urls = None"
  by (induction urls) simp_all

end
