(* ===== verification/ExecutorNonce.thy ===== *)
theory ExecutorNonce
  imports ExecutorSafety
begin

text \<open>
  The nonces of everything the executor sends: buys, sells, foreground and background
  approvals all take theirs from the one manager, so over any history the transactions
  sent carry strictly increasing nonces.
\<close>

definition level :: "executor \<Rightarrow> nat" where
  "level ex = unat (nm_current (ex_nonce ex))"

definition nonce_of :: "tx_request \<Rightarrow> nat" where
  "nonce_of tx = unat (tx_nonce tx)"

text \<open>
  A step that adds transactions with increasing nonces from the current level on and ends
  above them, raising the level (taken from \<open>2 ^ 63\<close> on, the room left to chain answers) by
  at most \<open>k\<close>.
\<close>

definition advances :: "nat \<Rightarrow> executor \<Rightarrow> executor \<Rightarrow> bool" where
  "advances k ex ex' \<longleftrightarrow>
     (\<exists>txs. ex_sent ex' = ex_sent ex @ txs \<and> sorted_wrt (<) (map nonce_of txs)
        \<and> (\<forall>t \<in> set txs. level ex \<le> nonce_of t \<and> nonce_of t < level ex'))
     \<and> level ex \<le> level ex' \<and> max (level ex') (2 ^ 63) \<le> max (level ex) (2 ^ 63) + k"

lemma advances_trans:
  assumes "advances j ex ex1" and "advances k ex1 ex2"
  shows "advances (j + k) ex ex2"
proof -
  obtain xs where x: "ex_sent ex1 = ex_sent ex @ xs" "sorted_wrt (<) (map nonce_of xs)"
    "\<forall>t \<in> set xs. level ex \<le> nonce_of t \<and> nonce_of t < level ex1"
    using assms(1) unfolding advances_def by blast
  obtain ys where y: "ex_sent ex2 = ex_sent ex1 @ ys" "sorted_wrt (<) (map nonce_of ys)"
    "\<forall>t \<in> set ys. level ex1 \<le> nonce_of t \<and> nonce_of t < level ex2"
    using assms(2) unfolding advances_def by blast
  have l: "level ex \<le> level ex1" "level ex1 \<le> level ex2" using assms by (simp_all add: advances_def)
  have "nonce_of s < nonce_of t" if "s \<in> set xs" "t \<in> set ys" for s t
    using that x(3) y(3) by (meson less_le_trans)
  then have "sorted_wrt (<) (map nonce_of (xs @ ys))"
    using x(2) y(2) by (auto simp: sorted_wrt_append)
  moreover have "level ex \<le> nonce_of t \<and> nonce_of t < level ex2" if "t \<in> set (xs @ ys)" for t
    using that x(3) y(3) l by (auto intro: less_le_trans order_trans)
  ultimately have "\<exists>txs. ex_sent ex2 = ex_sent ex @ txs \<and> sorted_wrt (<) (map nonce_of txs)
        \<and> (\<forall>t \<in> set txs. level ex \<le> nonce_of t \<and> nonce_of t < level ex2)"
    using x(1) y(1) by (intro exI [of _ "xs @ ys"]) simp
  then show ?thesis
    using assms l unfolding advances_def by auto
qed

lemma advances_weaken: "advances j ex ex' \<Longrightarrow> j \<le> k \<Longrightarrow> advances k ex ex'"
  by (auto simp: advances_def)

lemma advances_same: "ex_sent ex' = ex_sent ex \<Longrightarrow> ex_nonce ex' = ex_nonce ex \<Longrightarrow> advances 0 ex ex'"
  by (auto simp: advances_def level_def)

lemma advances_after: "advances k ex ex1 \<Longrightarrow> ex_sent ex2 = ex_sent ex1 \<Longrightarrow> ex_nonce ex2 = ex_nonce ex1
    \<Longrightarrow> advances k ex ex2"
  using advances_trans [of k ex ex1 0 ex2] advances_same [of ex2 ex1] by simp

lemma advances_before: "ex_sent ex1 = ex_sent ex \<Longrightarrow> ex_nonce ex1 = ex_nonce ex \<Longrightarrow> advances k ex1 ex2
    \<Longrightarrow> advances k ex ex2"
  using advances_trans [of 0 ex ex1 k ex2] advances_same [of ex1 ex] by simp

lemma advances_send:
  assumes "level ex + 1 < 2 ^ 64" and "nm_current (ex_nonce ex') = nm_current (ex_nonce ex) + 1"
    and "ex_sent ex' = ex_sent ex \<or> ex_sent ex' = ex_sent ex @ [tx]"
    and "tx_nonce tx = nm_current (ex_nonce ex)"
  shows "advances 1 ex ex'"
proof -
  have l: "level ex' = level ex + 1"
    using assms(1,2) unat_u64_Suc [of "nm_current (ex_nonce ex)"] by (simp add: level_def)
  have n: "nonce_of tx = level ex" using assms(4) by (simp add: nonce_of_def level_def)
  show ?thesis
    using assms(3) l n unfolding advances_def
    by (elim disjE) (rule conjI, rule exI [of _ "[]"], simp, simp, rule conjI, rule exI [of _ "[tx]"], simp, simp)
qed

definition tame :: "readings \<Rightarrow> bool" where
  "tame rd \<longleftrightarrow> tame_reply (rd_chain_nonce rd)"

lemma advances_resync: "tame rd \<Longrightarrow> advances 0 ex (resync_nonce rd ex)"
  by (auto simp: tame_def tame_reply_def advances_def level_def resync_nonce_def resync_def Let_def
      max_def word_le_nat_alt split: sum.splits)

lemma advances_then_resync: "tame rd \<Longrightarrow> advances k ex ex1 \<Longrightarrow> advances k ex (resync_nonce rd ex1)"
  using advances_trans [of k ex ex1 0] advances_resync by simp

section \<open>The stages\<close>

lemma send_buy_advances:
  assumes "send_buy pf rd kol vis token bnb route g wb ex = (out, ex')" and "tame rd"
    and "level ex + 1 < 2 ^ 64"
  shows "advances 1 ex ex'"
proof -
  obtain target gl cd where b: "build_buy pf rd route token bnb ex = (target, gl, cd)"
    by (cases "build_buy pf rd route token bnb ex") auto
  obtain n ex1 where r: "reserve_nonce ex = (n, ex1)" by fastforce
  note f = reserve_nonce_frame [OF r]
  let ?tx = "make_tx ex1 target bnb cd gl g (nm_current (ex_nonce ex))"
  have tx: "tx_nonce ?tx = nm_current (ex_nonce ex)" using f by (simp add: make_tx_def)
  have a: "advances (Suc 0) ex ex2" if "ex_nonce ex2 = ex_nonce ex1"
      "ex_sent ex2 = ex_sent ex \<or> ex_sent ex2 = ex_sent ex @ [?tx]" for ex2
    using that f tx unfolding One_nat_def [symmetric]
    by (intro advances_send [OF assms(3), of _ ?tx]) simp_all
  show ?thesis
    using assms(1) f
    by (auto simp: send_buy_def b r broadcast_def finish_buy_def insert_position_def Let_def
        split: option.splits if_splits sum.splits intro!: a advances_then_resync [OF assms(2)])
qed

lemma execute_advances:
  assumes "tame rd" and "level ex + 1 < 2 ^ 64"
  shows "advances 1 ex (snd (execute pf rd dec vis op ex))"
proof -
  obtain out ex' where e: "execute pf rd dec vis op ex = (out, ex')" by fastforce
  show ?thesis
  proof (cases "tx_outcome out")
    case False
    then have "advances 0 ex ex'" using skip_effects [OF e] by (intro advances_same) simp_all
    then show ?thesis using e by (auto intro: advances_weaken)
  next
    case True
    from e True show ?thesis
    proof (rule execute_tx_cases)
      fix kol token sized ex0 ex2 route
      assume s: "send_buy pf rd kol vis token (snd (clamp_to_cap (trade_cap (ex_limits ex)) sized)) route
          (buy_gas_wei (fst (gas_wei (rd_instant rd) (rd_gas rd 0) ex0))) (wallet_balance_bnb_cached ex0) ex2
          = (out, ex')" and eq: "ex_sent ex2 = ex_sent ex" "ex_nonce ex2 = ex_nonce ex"
      have "advances 1 ex2 ex'"
        using send_buy_advances [OF s assms(1)] assms(2) eq by (simp add: level_def)
      then show ?thesis using eq e by (auto intro: advances_before)
    qed
  qed
qed

lemma submit_approve_advances:
  assumes "submit_approve pf rd token sp ex = (ok, ex')" and "level ex + 1 < 2 ^ 64"
  shows "advances 1 ex ex'"
proof -
  obtain n ex1 where r: "reserve_nonce ex = (n, ex1)" by fastforce
  obtain g ex2 where gw: "gas_wei (rd_instant rd) (rd_gas rd 1) ex1 = (g, ex2)" by fastforce
  note f = reserve_nonce_frame [OF r] gas_wei_frame [OF gw]
  let ?tx = "make_tx ex2 token 0 (Approve sp (- 1)) 60000 (sell_gas_wei g) (nm_current (ex_nonce ex))"
  have tx: "tx_nonce ?tx = nm_current (ex_nonce ex)" using f by (simp add: make_tx_def)
  have a: "advances (Suc 0) ex ex3" if "ex_nonce ex3 = ex_nonce ex1"
      "ex_sent ex3 = ex_sent ex \<or> ex_sent ex3 = ex_sent ex @ [?tx]" for ex3
    using that f tx unfolding One_nat_def [symmetric]
    by (intro advances_send [OF assms(2), of _ ?tx]) simp_all
  show ?thesis
    using assms(1) f
    by (auto simp: submit_approve_def r gw broadcast_def Let_def simp del: One_nat_def
        split: option.splits if_splits sum.splits intro!: a [unfolded One_nat_def [symmetric]])
qed

lemma send_sell_advances:
  assumes "send_sell pf rd kol token route full ours bal ex = (out, ex')" and "tame rd"
    and "level ex + 1 < 2 ^ 64"
  shows "advances 1 ex ex'"
proof -
  obtain target gl cd where b: "build_sell pf rd route token bal ex = (target, gl, cd)"
    by (cases "build_sell pf rd route token bal ex") auto
  obtain n ex1 where r: "reserve_nonce ex = (n, ex1)" by fastforce
  obtain g ex2 where gw: "gas_wei (rd_instant rd) (rd_gas rd 0) ex1 = (g, ex2)" by fastforce
  note f = reserve_nonce_frame [OF r] gas_wei_frame [OF gw]
  let ?tx = "make_tx ex2 target 0 cd gl (sell_gas_wei g) (nm_current (ex_nonce ex))"
  have tx: "tx_nonce ?tx = nm_current (ex_nonce ex)" using f by (simp add: make_tx_def)
  have a: "advances (Suc 0) ex ex3" if "ex_nonce ex3 = ex_nonce ex1"
      "ex_sent ex3 = ex_sent ex \<or> ex_sent ex3 = ex_sent ex @ [?tx]" for ex3
    using that f tx unfolding One_nat_def [symmetric]
    by (intro advances_send [OF assms(3), of _ ?tx]) simp_all
  have mark: "ex_nonce (mark_sold t fl o' b' x) = ex_nonce x" "ex_sent (mark_sold t fl o' b' x) = ex_sent x"
    for t fl o' b' x by (simp_all add: mark_sold_def set_tokens_def split: option.splits)
  show ?thesis
    using assms(1) f
    by (auto simp: send_sell_def b r gw broadcast_def finish_exit_def Let_def mark
        split: option.splits if_splits sum.splits intro!: a advances_then_resync [OF assms(2)])
qed

lemma advances_level: "advances k ex ex' \<Longrightarrow> max (level ex) (2 ^ 63) + k + 1 < 2 ^ 64 \<Longrightarrow> level ex' + 1 < 2 ^ 64"
  by (simp add: advances_def)

lemma approve_and_sell_advances:
  assumes "approve_and_sell pf rd kol token route fast full ours bal ex = (out, ex')" and "tame rd"
    and "max (level ex) (2 ^ 63) + 2 < 2 ^ 64"
  shows "advances 2 ex ex'"
proof -
  obtain ok ex1 where e: "ensure_allowance pf rd token route bal fast ex = (ok, ex1)" by fastforce
  have "advances 1 ex ex1"
    using e submit_approve_advances [of pf rd token "spender_of route" ex ok ex1] assms(3)
      advances_same [of ex ex] advances_weaken [of 0 ex ex 1]
    by (auto simp: ensure_allowance_def split: if_splits)
  show ?thesis
  proof (cases ok)
    case False
    then show ?thesis
      using assms(1) advances_then_resync [OF assms(2) \<open>advances 1 ex ex1\<close>]
      by (auto simp: approve_and_sell_def e intro: advances_weaken)
  next
    case True
    obtain fresh ex2 where p: "pick_route pf rd 1 token ActSell ex1 = (fresh, ex2)" by fastforce
    note f = pick_route_frame [OF p]
    have a2: "advances 1 ex ex2" by (rule advances_after [OF \<open>advances 1 ex ex1\<close>]) (simp_all add: f)
    have s: "send_sell pf rd kol token (case fresh of Some r \<Rightarrow> r | None \<Rightarrow> route) full ours bal ex2 = (out, ex')"
      using assms(1) True by (simp add: approve_and_sell_def e p del: One_nat_def)
    have "level ex2 + 1 < 2 ^ 64" using advances_level [OF a2] assms(3) by simp
    from advances_trans [OF a2 send_sell_advances [OF s assms(2) this]] show ?thesis
      by (simp only: one_add_one)
  qed
qed

lemma execute_exit_advances:
  assumes "tame rd" and "max (level ex) (2 ^ 63) + 2 < 2 ^ 64"
  shows "advances 2 ex (snd (execute_exit pf rd token kol blk addr ex))"
proof -
  obtain h ex1 where h: "exit_holding pf rd token ex = (h, ex1)" by fastforce
  note f = exit_holding_frame [OF h]
  have base: "advances 2 ex ex" "advances 2 ex ex1"
    using advances_weaken [OF advances_same, of ex ex 2] advances_weaken [OF advances_same, of ex1 ex 2] f
    by simp_all
  have "advances 2 ex (snd (approve_and_sell pf rd kol token route fast full ours bal ex1))"
    for route fast full ours bal
    using approve_and_sell_advances [of pf rd kol token route fast full ours bal ex1] assms f
      advances_before [of ex1 ex 2] by (metis level_def prod.collapse)
  then show ?thesis
    using base by (auto simp: execute_exit_def h Let_def split: holding.splits)
qed

lemma finalize_position_advances:
  assumes "level ex + 1 < 2 ^ 64"
  shows "advances 1 ex (finalize_position pf br task ex)"
proof -
  let ?ex1 = "learn_balance pf br task ex"
  have l: "ex_sent ?ex1 = ex_sent ex" "ex_nonce ?ex1 = ex_nonce ex"
    by (simp_all add: learn_balance_def set_tokens_def Let_def)
  obtain n ex2 where r: "reserve_nonce ?ex1 = (n, ex2)" by fastforce
  note f = reserve_nonce_frame [OF r]
  obtain ok ex3 where a: "submit_approve_bg pf br (bg_token task) ?ex1 = (ok, ex3)" by fastforce
  let ?tx = "make_tx ex2 (bg_token task) 0 (Approve FOURMEME (- 1)) 60000
     (max (case bg_gas_price_of (br_gas br) of Some w \<Rightarrow> w | None \<Rightarrow> 3000000000) 3000000000) (nm_current (ex_nonce ex))"
  have tx: "tx_nonce ?tx = nm_current (ex_nonce ex)" using f l by (simp add: make_tx_def)
  have "advances 1 ex ex3"
    using a f l tx
    by (intro advances_send [OF assms, of _ ?tx])
      (auto simp: submit_approve_bg_def r Let_def split: option.splits reply.splits)
  moreover have "ex_sent (set_approved i ex3) = ex_sent ex3" "ex_nonce (set_approved i ex3) = ex_nonce ex3" for i
    by (simp_all add: set_approved_def)
  ultimately have "advances 1 ex (set_approved i ex3)" for i
    by (blast intro: advances_after)
  then show ?thesis
    using \<open>advances 1 ex ex3\<close> advances_weaken [OF advances_same, of ex ex 1]
      advances_weaken [OF advances_same, of ?ex1 ex 1] l
    by (auto simp: finalize_position_def Let_def a split: bool.splits)
qed

section \<open>Histories\<close>

fun tame_event :: "exec_event \<Rightarrow> bool" where
  "tame_event (BuyDecision pf rd dec vis) = tame rd"
| "tame_event (SellSignal pf rd token kol blk addr) = tame rd"
| "tame_event _ = True"

lemma exec_step_advances:
  assumes "tame_event ev" and "max (level ex) (2 ^ 63) + 2 < 2 ^ 64"
  shows "advances 2 ex (exec_step ex ev)"
proof -
  have l: "level ex + 1 < 2 ^ 64" using assms(2) by simp
  show ?thesis
  proof (cases ev)
    case (BuyDecision pf rd dec vis)
    then show ?thesis
      using execute_advances [of rd ex pf dec vis "executor_open_positions ex"] assms(1) l
      by (auto intro: advances_weaken)
  next
    case (SellSignal pf rd token kol blk addr)
    then show ?thesis using execute_exit_advances [OF _ assms(2)] assms(1) by simp
  next
    case (BackgroundRun pf br k)
    then show ?thesis
      using finalize_position_advances [OF l, of pf br "ex_spawned ex ! k"]
        advances_weaken [OF advances_same, of ex ex 2] by (auto intro: advances_weaken)
  next
    case (DropPosition token)
    then show ?thesis
      using advances_weaken [OF advances_same, of "drop_position token ex" ex 2] by simp
  next
    case (WalletRefresh now r)
    then show ?thesis
      using advances_weaken [OF advances_same, of "refresh_wallet_balance now r ex" ex 2]
      by (simp add: refresh_wallet_balance_def split: option.splits)
  next
    case (LossReport loss)
    then show ?thesis
      by (intro advances_weaken [OF advances_same]) simp_all
  qed
qed

lemma history_advances:
  assumes "\<forall>ev \<in> set evs. tame_event ev" and "max (level ex) (2 ^ 63) + 2 * length evs < 2 ^ 64"
  shows "advances (2 * length evs) ex (foldl exec_step ex evs)"
  using assms
proof (induction evs arbitrary: ex)
  case Nil
  then show ?case by (simp add: advances_same)
next
  case (Cons ev evs)
  have a: "advances 2 ex (exec_step ex ev)"
    using Cons.prems by (intro exec_step_advances) simp_all
  then have "max (level (exec_step ex ev)) (2 ^ 63) \<le> max (level ex) (2 ^ 63) + 2"
    by (simp only: advances_def)
  moreover have "max (level ex) (2 ^ 63) + 2 + 2 * length evs < 2 ^ 64"
    using Cons.prems(2) by simp
  ultimately have "max (level (exec_step ex ev)) (2 ^ 63) + 2 * length evs < 2 ^ 64"
    by linarith
  from advances_trans [OF a Cons.IH [OF _ this]] Cons.prems(1) show ?case by simp
qed



end
