(* ===== verification/ExecutorSpend.thy ===== *)
theory ExecutorSpend
  imports ExecutorNonce
begin

text \<open>
  What the executor may put on the wire, over any history: transactions of its own wallet on
  chain 56 that call one of the two routers or approve one of them, pay out to the wallet
  itself, and carry no more than the per-trade cap; and none of them a buy while the daily
  halt is on.
\<close>

section \<open>Admissible transactions\<close>

text \<open>The call and its target: proceeds go to the wallet, allowances to the two routers only.\<close>

fun call_ok :: "address \<Rightarrow> tx_request \<Rightarrow> call_data \<Rightarrow> bool" where
  "call_ok w tx (SwapExactETHForTokens mn path recipient deadline) \<longleftrightarrow> tx_to tx = PANCAKE_V2_ROUTER \<and> recipient = w"
| "call_ok w tx (BuyTokenAMAP token funds mn) \<longleftrightarrow> tx_to tx = FOURMEME \<and> funds = tx_value tx"
| "call_ok w tx (SwapExactTokensForETH amount mn path recipient deadline) \<longleftrightarrow>
     tx_to tx = PANCAKE_V2_ROUTER \<and> recipient = w \<and> tx_value tx = 0"
| "call_ok w tx (SellToken token amount) \<longleftrightarrow> tx_to tx = FOURMEME \<and> tx_value tx = 0"
| "call_ok w tx (Approve spender amount) \<longleftrightarrow> spender \<in> {PANCAKE_V2_ROUTER, FOURMEME} \<and> tx_value tx = 0"

fun is_buy_call :: "call_data \<Rightarrow> bool" where
  "is_buy_call (SwapExactETHForTokens mn path recipient deadline) = True"
| "is_buy_call (BuyTokenAMAP token funds mn) = True"
| "is_buy_call _ = False"

definition tx_ok :: "address \<Rightarrow> rat \<Rightarrow> tx_request \<Rightarrow> bool" where
  "tx_ok w c tx \<longleftrightarrow> tx_from tx = w \<and> tx_chain_id tx = BSC_CHAIN_ID
     \<and> of_int (uint (tx_value tx)) \<le> max 0 c * 10 ^ 18 * (1 + 1 / 2 ^ 51)
     \<and> call_ok w tx (tx_input tx)"

definition free_tx :: "address \<Rightarrow> tx_request \<Rightarrow> bool" where
  "free_tx w tx \<longleftrightarrow> tx_from tx = w \<and> tx_chain_id tx = BSC_CHAIN_ID \<and> tx_value tx = 0
     \<and> call_ok w tx (tx_input tx) \<and> \<not> is_buy_call (tx_input tx)"

lemma free_tx_ok: "free_tx w tx \<Longrightarrow> tx_ok w c tx"
  by (simp add: free_tx_def tx_ok_def)

text \<open>A run of the executor that keeps wallet and configuration and sends only such transactions.\<close>

definition sends :: "(tx_request \<Rightarrow> bool) \<Rightarrow> executor \<Rightarrow> executor \<Rightarrow> bool" where
  "sends Q ex ex' \<longleftrightarrow> ex_wallet ex' = ex_wallet ex \<and> lr_cfg (ex_limits ex') = lr_cfg (ex_limits ex)
     \<and> (\<exists>txs. ex_sent ex' = ex_sent ex @ txs \<and> (\<forall>tx \<in> set txs. Q tx))"

lemma sends_same:
  "ex_wallet ex' = ex_wallet ex \<Longrightarrow> lr_cfg (ex_limits ex') = lr_cfg (ex_limits ex) \<Longrightarrow> ex_sent ex' = ex_sent ex
    \<Longrightarrow> sends Q ex ex'"
  by (simp add: sends_def)

lemma sends_refl [simp]: "sends Q ex ex"
  by (simp add: sends_def)

lemma sends_one:
  "ex_wallet ex' = ex_wallet ex \<Longrightarrow> lr_cfg (ex_limits ex') = lr_cfg (ex_limits ex)
    \<Longrightarrow> ex_sent ex' = ex_sent ex \<or> ex_sent ex' = ex_sent ex @ [tx] \<Longrightarrow> Q tx \<Longrightarrow> sends Q ex ex'"
  by (auto simp: sends_def)

lemma sends_trans: "sends Q ex ex1 \<Longrightarrow> sends Q ex1 ex2 \<Longrightarrow> sends Q ex ex2"
  unfolding sends_def by (elim conjE exE) (rule conjI, simp, rule conjI, simp, rule exI, auto)

lemma sends_weaken: "sends Q ex ex' \<Longrightarrow> (\<And>tx. Q tx \<Longrightarrow> R tx) \<Longrightarrow> sends R ex ex'"
  by (auto simp: sends_def)

lemma wallet_stays [simp]:
  "ex_wallet (resync_nonce rd ex) = ex_wallet ex" "ex_wallet (log_entry pf rd e ex) = ex_wallet ex"
  by (simp_all add: resync_nonce_def log_entry_def)

lemma sends_pick: "pick_route pf rd k token a ex = (r, ex') \<Longrightarrow> sends Q ex ex'"
  by (rule sends_same) (simp_all add: pick_route_frame)

lemma sends_log [intro]: "sends Q ex ex' \<Longrightarrow> sends Q ex (log_entry pf rd e ex')"
  by (erule sends_trans) (simp add: sends_same)

lemma sends_resync [intro]: "sends Q ex ex' \<Longrightarrow> sends Q ex (resync_nonce rd ex')"
  by (erule sends_trans) (simp add: sends_same)

lemma cfg_stays [simp]:
  "lr_cfg (record_trade_fired r) = lr_cfg r" "lr_cfg (sync_realized_loss r loss) = lr_cfg r"
  by (simp_all add: record_trade_fired_def sync_realized_loss_def Let_def)

section \<open>Buys\<close>

lemma send_buy_sends:
  assumes "send_buy pf rd kol vis token (snd (clamp_to_cap (Fin c) amount)) route g wb ex = (out, ex')"
  shows "sends (tx_ok (ex_wallet ex) c) ex ex'"
proof -
  let ?bnb = "snd (clamp_to_cap (Fin c) amount)"
  obtain target gl cd where b: "build_buy pf rd route token ?bnb ex = (target, gl, cd)"
    by (cases "build_buy pf rd route token ?bnb ex") auto
  obtain n ex1 where r: "reserve_nonce ex = (n, ex1)" by fastforce
  note f = reserve_nonce_frame [OF r]
  let ?tx = "make_tx ex1 target ?bnb cd gl g n"
  have "call_ok (ex_wallet ex) ?tx cd"
    using b by (cases route) (auto simp: build_buy_def make_tx_def Let_def)
  then have tx: "tx_ok (ex_wallet ex) c ?tx"
    using clamp_bound [of c amount] f by (simp add: tx_ok_def make_tx_def)
  have s: "sends (tx_ok (ex_wallet ex) c) ex ex2"
    if "ex_wallet ex2 = ex_wallet ex1" "lr_cfg (ex_limits ex2) = lr_cfg (ex_limits ex1)"
      "ex_sent ex2 = ex_sent ex \<or> ex_sent ex2 = ex_sent ex @ [?tx]" for ex2
    using that f tx by (intro sends_one) auto
  show ?thesis
    using assms f
    by (auto simp: send_buy_def b r broadcast_def finish_buy_def insert_position_def Let_def
        split: option.splits if_splits sum.splits intro!: s)
qed

lemma limits_and_send_sends:
  assumes "trade_cap (ex_limits ex) = Fin c"
  shows "sends (tx_ok (ex_wallet ex) c) ex (snd (limits_and_send pf rd kol vis token amount op ex))"
proof -
  obtain f bnb where b: "clamp_to_cap (Fin c) amount = (f, bnb)" by fastforce
  obtain g ex1 where gw: "gas_wei (rd_instant rd) (rd_gas rd 0) ex = (g, ex1)" by fastforce
  obtain lim v where l: "limits_check (ex_limits ex1) (buy_check rd kol vis f op ex) (rd_unix_ms rd) = (lim, v)"
    by fastforce
  let ?ex2 = "ex1\<lparr>ex_limits := lim\<rparr>"
  have "lr_cfg lim = lr_cfg (ex_limits ex1)" using limits_check_cfg [of "ex_limits ex1"] l by (metis fst_conv)
  then have 2: "sends (tx_ok (ex_wallet ex) c) ex ?ex2" "ex_wallet ?ex2 = ex_wallet ex"
    using gas_wei_frame [OF gw] by (simp_all add: sends_same)
  have ras: "sends (tx_ok (ex_wallet ex) c) ex (snd (route_and_send pf rd kol vis token bnb g' wb ?ex2))" for g' wb
  proof -
    obtain r ex3 where p: "pick_route pf rd 0 token ActBuy ?ex2 = (r, ex3)" by fastforce
    have 3: "sends (tx_ok (ex_wallet ex) c) ex ex3" using sends_trans [OF 2(1) sends_pick [OF p]] .
    have w3: "ex_wallet ex3 = ex_wallet ex" using pick_route_frame [OF p] 2(2) by simp
    have "sends (tx_ok (ex_wallet ex) c) ex (snd (send_buy pf rd kol vis token bnb route g' wb ex3))" for route
      using sends_trans [OF 3, of "snd (send_buy pf rd kol vis token bnb route g' wb ex3)"]
        send_buy_sends [of pf rd kol vis token c amount route g' wb ex3] w3 b
      by (metis prod.collapse snd_conv)
    with 3 show ?thesis by (auto simp: route_and_send_def p split: option.splits)
  qed
  show ?thesis
    using 2 ras l by (cases v) (auto simp: limits_and_send_def buy_check_def assms b gw Let_def)
qed

lemma execute_sends:
  assumes "trade_cap (ex_limits ex) = Fin c"
  shows "sends (tx_ok (ex_wallet ex) c) ex (snd (execute pf rd dec vis op ex))"
proof (cases dec)
  case (Enter kol token amount kb blk h)
  show ?thesis
  proof (cases "dup_guard token ex")
    case (Some ex1)
    have f: "ex_wallet ex1 = ex_wallet ex" "ex_limits ex1 = ex_limits ex" "ex_sent ex1 = ex_sent ex"
      using dup_guard_cases [OF Some] by auto
    then have 1: "sends Q ex ex1" for Q by (intro sends_same) simp_all
    have "sends (tx_ok (ex_wallet ex) c) ex (snd (limits_and_send pf rd kol vis token sized op ex1))" for sized
      using sends_trans [OF 1 limits_and_send_sends [of ex1 c]] assms f by simp
    then show ?thesis
      using 1 by (auto simp: execute_def Enter Some split: option.splits)
  qed (simp add: execute_def Enter)
qed (simp_all add: execute_def)

section \<open>Sells and approvals\<close>

lemma sends_free:
  assumes "ex_wallet ex' = ex_wallet ex" and "ex_limits ex' = ex_limits ex"
    and "ex_sent ex' = ex_sent ex \<or> ex_sent ex' = ex_sent ex @ [make_tx ex2 target 0 cd gl g n]"
    and "ex_wallet ex2 = ex_wallet ex" and "call_ok (ex_wallet ex) (make_tx ex2 target 0 cd gl g n) cd"
    and "\<not> is_buy_call cd"
  shows "sends (free_tx (ex_wallet ex)) ex ex'"
  using assms by (intro sends_one [OF assms(1) _ assms(3)]) (simp_all add: free_tx_def make_tx_def)

lemma mark_sold_same [simp]:
  "ex_wallet (mark_sold t f ours bal ex) = ex_wallet ex" "ex_limits (mark_sold t f ours bal ex) = ex_limits ex"
  "ex_sent (mark_sold t f ours bal ex) = ex_sent ex"
  by (simp_all add: mark_sold_def set_tokens_def split: option.splits)

lemma submit_approve_sends:
  assumes "submit_approve pf rd token sp ex = (ok, ex')" and "sp \<in> {PANCAKE_V2_ROUTER, FOURMEME}"
  shows "sends (free_tx (ex_wallet ex)) ex ex'"
proof -
  obtain n ex1 where r: "reserve_nonce ex = (n, ex1)" by fastforce
  obtain g ex2 where gw: "gas_wei (rd_instant rd) (rd_gas rd 1) ex1 = (g, ex2)" by fastforce
  note f = reserve_nonce_frame [OF r] gas_wei_frame [OF gw]
  show ?thesis
    using assms f
    by (intro sends_free [of _ _ ex2 token "Approve sp (- 1)" 60000 "sell_gas_wei g" n])
      (auto simp: submit_approve_def r gw broadcast_def make_tx_def Let_def simp del: One_nat_def
        split: option.splits if_splits sum.splits)
qed

lemma send_sell_sends:
  assumes "send_sell pf rd kol token route full ours bal ex = (out, ex')"
  shows "sends (free_tx (ex_wallet ex)) ex ex'"
proof -
  obtain target gl cd where b: "build_sell pf rd route token bal ex = (target, gl, cd)"
    by (cases "build_sell pf rd route token bal ex") auto
  obtain n ex1 where r: "reserve_nonce ex = (n, ex1)" by fastforce
  obtain g ex2 where gw: "gas_wei (rd_instant rd) (rd_gas rd 0) ex1 = (g, ex2)" by fastforce
  note f = reserve_nonce_frame [OF r] gas_wei_frame [OF gw]
  have cd: "call_ok (ex_wallet ex) (make_tx ex2 target 0 cd gl (sell_gas_wei g) n) cd" "\<not> is_buy_call cd"
    using b by (cases route; auto simp: build_sell_def make_tx_def Let_def)+
  show ?thesis
    using assms f cd
    by (intro sends_free [of _ _ ex2 target cd gl "sell_gas_wei g" n])
      (auto simp: send_sell_def b r gw broadcast_def finish_exit_def Let_def
        split: option.splits if_splits sum.splits)
qed

lemma execute_exit_sends:
  "sends (free_tx (ex_wallet ex)) ex (snd (execute_exit pf rd token kol blk addr ex))"
proof -
  obtain h ex1 where h: "exit_holding pf rd token ex = (h, ex1)" by fastforce
  note f = exit_holding_frame [OF h]
  let ?Q = "free_tx (ex_wallet ex)"
  have 1: "sends ?Q ex ex1" using f by (intro sends_same) simp_all
  have "sends ?Q ex (snd (approve_and_sell pf rd kol token route fast full ours bal ex1))"
    for route fast full ours bal
  proof -
    obtain ok ex2 where e: "ensure_allowance pf rd token route bal fast ex1 = (ok, ex2)" by fastforce
    have sp: "spender_of route \<in> {PANCAKE_V2_ROUTER, FOURMEME}" by (cases route) (simp_all add: spender_of_def)
    have "sends ?Q ex1 ex2"
      using e submit_approve_sends [OF _ sp, of pf rd token ex1 ok ex2] f
      by (auto simp: ensure_allowance_def split: if_splits)
    then have 2: "sends ?Q ex ex2" by (rule sends_trans [OF 1])
    obtain fresh ex3 where p: "pick_route pf rd 1 token ActSell ex2 = (fresh, ex3)" by fastforce
    have 3: "sends ?Q ex ex3" by (rule sends_trans [OF 2 sends_pick [OF p]])
    then have "ex_wallet ex3 = ex_wallet ex" by (simp add: sends_def)
    then have "sends ?Q ex (snd (send_sell pf rd kol token r full ours bal ex3))" for r
      using sends_trans [OF 3 send_sell_sends [of pf rd kol token r full ours bal ex3, unfolded \<open>ex_wallet ex3 = _\<close>]]
      by (metis prod.collapse)
    with 2 show ?thesis by (cases ok) (auto simp: approve_and_sell_def e p simp del: One_nat_def)
  qed
  then show ?thesis using 1 by (auto simp: execute_exit_def h Let_def split: holding.splits)
qed

lemma finalize_position_sends:
  "sends (free_tx (ex_wallet ex)) ex (finalize_position pf br task ex)"
proof -
  let ?Q = "free_tx (ex_wallet ex)" and ?ex1 = "learn_balance pf br task ex"
  have f1: "ex_wallet ?ex1 = ex_wallet ex" "ex_limits ?ex1 = ex_limits ex" "ex_sent ?ex1 = ex_sent ex"
    by (simp_all add: learn_balance_def set_tokens_def Let_def)
  then have 1: "sends ?Q ex ?ex1" by (intro sends_same) simp_all
  obtain n ex2 where r: "reserve_nonce ?ex1 = (n, ex2)" by fastforce
  note f = reserve_nonce_frame [OF r]
  let ?gas = "max (case bg_gas_price_of (br_gas br) of Some w \<Rightarrow> w | None \<Rightarrow> 3000000000) 3000000000"
  obtain ok ex3 where a: "submit_approve_bg pf br (bg_token task) ?ex1 = (ok, ex3)" by fastforce
  have "sends (free_tx (ex_wallet ?ex1)) ?ex1 ex3"
    using a f
    by (intro sends_free [of _ _ ex2 "bg_token task" "Approve FOURMEME (- 1)" 60000 ?gas n])
      (auto simp: submit_approve_bg_def r make_tx_def Let_def split: option.splits reply.splits)
  then have 3: "sends ?Q ex ex3" using sends_trans [OF 1] f1 by simp
  have "sends ?Q ex (set_approved i ex3)" for i
    by (rule sends_trans [OF 3]) (simp add: sends_same set_approved_def)
  with 1 3 show ?thesis
    by (auto simp: finalize_position_def Let_def a split: bool.splits)
qed

section \<open>Histories\<close>

lemma exec_step_sends:
  assumes "trade_cap (ex_limits ex) = Fin c"
  shows "sends (tx_ok (ex_wallet ex) c) ex (exec_step ex ev)"
proof (cases ev)
  case (BuyDecision pf rd dec vis)
  then show ?thesis using execute_sends [OF assms] by simp
next
  case (SellSignal pf rd token kol blk addr)
  then show ?thesis using sends_weaken [OF execute_exit_sends free_tx_ok] by simp
next
  case (BackgroundRun pf br k)
  then show ?thesis using sends_weaken [OF finalize_position_sends free_tx_ok] by simp
qed (auto simp: drop_position_def refresh_wallet_balance_def intro!: sends_same split: option.splits)

definition guarded :: "address \<Rightarrow> rat \<Rightarrow> executor \<Rightarrow> bool" where
  "guarded w c ex \<longleftrightarrow> ex_wallet ex = w \<and> trade_cap (ex_limits ex) = Fin c
     \<and> (\<forall>tx \<in> set (ex_sent ex). tx_ok w c tx)"

interpretation guard: stateful exec_step "guarded w c" for w c
proof unfold_locales
  fix ex ev
  assume g: "guarded w c ex"
  then have "sends (tx_ok w c) ex (exec_step ex ev)"
    using exec_step_sends [of ex c ev] by (simp add: guarded_def)
  then show "guarded w c (exec_step ex ev)"
    using g by (auto simp: guarded_def sends_def trade_cap_def)
qed

section \<open>The daily halt\<close>

definition halted_on :: "u64 \<Rightarrow> executor \<Rightarrow> bool" where
  "halted_on d ex \<longleftrightarrow> ds_halted (lr_state (ex_limits ex)) \<and> ds_day (lr_state (ex_limits ex)) = d"

fun event_on :: "u64 \<Rightarrow> exec_event \<Rightarrow> bool" where
  "event_on d (BuyDecision pf rd dec vis) \<longleftrightarrow> day_of_ms (rd_unix_ms rd) = d"
| "event_on d _ \<longleftrightarrow> True"

lemma halted_check:
  assumes "halted_on d ex" and "day_of_ms now = d"
  shows "\<exists>why. limits_check (ex_limits ex) t now = (ex_limits ex, Inl why)"
  using assms by (simp add: halted_on_def limits_check_def maybe_reset_day_def run_gates_def Let_def)

lemma limits_and_send_halted:
  assumes "halted_on d ex" and "day_of_ms (rd_unix_ms rd) = d"
  shows "ex_limits (snd (limits_and_send pf rd kol vis token amount op ex)) = ex_limits ex
    \<and> sends Q ex (snd (limits_and_send pf rd kol vis token amount op ex))"
proof -
  obtain f bnb where b: "clamp_to_cap (trade_cap (ex_limits ex)) amount = (f, bnb)" by fastforce
  obtain g ex1 where gw: "gas_wei (rd_instant rd) (rd_gas rd 0) ex = (g, ex1)" by fastforce
  note fr = gas_wei_frame [OF gw]
  obtain why where l: "limits_check (ex_limits ex1) (buy_check rd kol vis f op ex) (rd_unix_ms rd) = (ex_limits ex, Inl why)"
    using halted_check [OF assms] fr by metis
  have "sends Q ex (ex1\<lparr>ex_limits := ex_limits ex\<rparr>)" using fr by (intro sends_same) simp_all
  then show ?thesis
    using l by (auto simp: limits_and_send_def buy_check_def b gw Let_def)
qed

lemma execute_halted:
  assumes "halted_on d ex" and "day_of_ms (rd_unix_ms rd) = d"
  shows "ex_limits (snd (execute pf rd dec vis op ex)) = ex_limits ex
    \<and> sends Q ex (snd (execute pf rd dec vis op ex))"
proof (cases dec)
  case (Enter kol token amount kb blk h)
  show ?thesis
  proof (cases "dup_guard token ex")
    case (Some ex1)
    have f: "ex_wallet ex1 = ex_wallet ex" "ex_limits ex1 = ex_limits ex" "ex_sent ex1 = ex_sent ex"
      using dup_guard_cases [OF Some] by auto
    then have 1: "sends Q ex ex1" by (intro sends_same) simp_all
    have h1: "halted_on d ex1" using assms(1) f by (simp add: halted_on_def)
    have "ex_limits (snd (limits_and_send pf rd kol vis token sized op ex1)) = ex_limits ex
        \<and> sends Q ex (snd (limits_and_send pf rd kol vis token sized op ex1))" for sized
      using limits_and_send_halted [OF h1 assms(2)] sends_trans [OF 1] f by metis
    then show ?thesis
      using 1 f by (auto simp: execute_def Enter Some split: option.splits)
  qed (simp add: execute_def Enter)
qed (simp_all add: execute_def)

lemma execute_exit_limits: "ex_limits (snd (execute_exit pf rd token kol blk addr ex)) = ex_limits ex"
proof -
  obtain h ex1 where h: "exit_holding pf rd token ex = (h, ex1)" by fastforce
  have "ex_limits (snd (approve_and_sell pf rd kol token route fast full ours bal ex1)) = ex_limits ex1"
    for route fast full ours bal
    using approve_and_sell_cases [of pf rd kol token route fast full ours bal ex1] by (metis prod.collapse)
  then show ?thesis
    using exit_holding_frame [OF h] by (auto simp: execute_exit_def h Let_def split: holding.splits)
qed

lemma learn_balance_same [simp]:
  "ex_limits (learn_balance pf br task ex) = ex_limits ex" "ex_sent (learn_balance pf br task ex) = ex_sent ex"
  by (simp_all add: learn_balance_def set_tokens_def Let_def)

lemma finalize_position_limits: "ex_limits (finalize_position pf br task ex) = ex_limits ex"
proof -
  obtain ok ex3 where a: "submit_approve_bg pf br (bg_token task) (learn_balance pf br task ex) = (ok, ex3)"
    by fastforce
  show ?thesis
    using submit_approve_bg_frame [OF a]
    by (auto simp: finalize_position_def Let_def a set_approved_def split: bool.splits)
qed

lemma sync_halted:
  "ds_halted (lr_state r) \<Longrightarrow> ds_halted (lr_state (sync_realized_loss r loss))
     \<and> ds_day (lr_state (sync_realized_loss r loss)) = ds_day (lr_state r)"
  by (simp add: sync_realized_loss_def Let_def)

lemma halted_exec_step:
  assumes "halted_on d ex" and "event_on d ev"
  shows "halted_on d (exec_step ex ev) \<and> sends (free_tx (ex_wallet ex)) ex (exec_step ex ev)"
proof (cases ev)
  case (BuyDecision pf rd dec vis)
  then have "day_of_ms (rd_unix_ms rd) = d" using assms(2) by simp
  from execute_halted [OF assms(1) this] show ?thesis
    using assms(1) unfolding halted_on_def by (simp add: BuyDecision)
next
  case (SellSignal pf rd token kol blk addr)
  then show ?thesis using assms(1) execute_exit_sends by (simp add: halted_on_def execute_exit_limits)
next
  case (BackgroundRun pf br k)
  then show ?thesis
    using assms(1) finalize_position_sends by (simp add: halted_on_def finalize_position_limits)
next
  case (LossReport loss)
  then show ?thesis using assms(1) by (auto simp: halted_on_def sync_halted intro: sends_same)
qed (use assms(1) in \<open>auto simp: halted_on_def drop_position_def refresh_wallet_balance_def
    intro!: sends_same split: option.splits\<close>)

lemma halted_run:
  assumes "halted_on d ex" and "\<forall>ev \<in> set evs. event_on d ev"
  shows "halted_on d (foldl exec_step ex evs) \<and> sends (free_tx (ex_wallet ex)) ex (foldl exec_step ex evs)"
  using assms
proof (induction evs arbitrary: ex)
  case (Cons ev evs)
  have 1: "halted_on d (exec_step ex ev)" "sends (free_tx (ex_wallet ex)) ex (exec_step ex ev)"
    using halted_exec_step [OF Cons.prems(1)] Cons.prems(2) by simp_all
  then have "ex_wallet (exec_step ex ev) = ex_wallet ex" by (simp add: sends_def)
  then show ?case
    using Cons.IH [OF 1(1)] Cons.prems(2) sends_trans [OF 1(2)] by simp
qed simp

section \<open>Shadow mode\<close>

lemma live_mode_cong: "lr_cfg (ex_limits ex') = lr_cfg (ex_limits ex) \<Longrightarrow> live_mode ex' = live_mode ex"
  by (simp add: live_mode_def)

lemma execute_shadow:
  assumes "\<not> live_mode ex"
  shows "ex_sent (snd (execute pf rd dec vis op ex)) = ex_sent ex"
proof -
  obtain out ex' where e: "execute pf rd dec vis op ex = (out, ex')" by fastforce
  show ?thesis
  proof (cases "tx_outcome out")
    case True
    from e True show ?thesis
    proof (rule execute_tx_cases)
      fix kol token sized ex0 ex2 route
      assume s: "send_buy pf rd kol vis token (snd (clamp_to_cap (trade_cap (ex_limits ex)) sized)) route
          (buy_gas_wei (fst (gas_wei (rd_instant rd) (rd_gas rd 0) ex0))) (wallet_balance_bnb_cached ex0) ex2
          = (out, ex')" and eq: "ex_sent ex2 = ex_sent ex" "lr_cfg (ex_limits ex2) = lr_cfg (ex_limits ex)"
      show ?thesis
        using send_buy_cases [OF s] eq assms e by (auto simp: live_mode_def split: buy_outcome.splits)
    qed
  qed (use skip_effects [OF e] e in simp)
qed

lemma execute_exit_shadow:
  assumes "\<not> live_mode ex"
  shows "ex_sent (snd (execute_exit pf rd token kol blk addr ex)) = ex_sent ex"
proof -
  obtain h ex1 where h: "exit_holding pf rd token ex = (h, ex1)" by fastforce
  note f = exit_holding_frame [OF h]
  have "\<not> live_mode ex1" using assms f by (simp add: live_mode_def)
  then have "ex_sent (snd (approve_and_sell pf rd kol token route fast full ours bal ex1)) = ex_sent ex1"
    for route fast full ours bal
    using approve_and_sell_cases [of pf rd kol token route fast full ours bal ex1] by (metis prod.collapse)
  then show ?thesis
    using f by (auto simp: execute_exit_def h Let_def split: holding.splits)
qed

lemma shadow_step:
  assumes "\<not> live_mode ex"
  shows "ex_sent (exec_step ex ev) = ex_sent ex"
proof (cases ev)
  case (BackgroundRun pf br k)
  have "\<not> live_mode (learn_balance pf br (ex_spawned ex ! k) ex)" using assms by (simp add: live_mode_def)
  then show ?thesis by (simp add: BackgroundRun finalize_position_def Let_def)
qed (simp_all add: assms execute_shadow execute_exit_shadow refresh_wallet_balance_def split: option.splits)

interpretation shadow: stateful exec_step "\<lambda>ex. guarded w c ex \<and> \<not> live_mode ex \<and> ex_sent ex = []" for w c
proof unfold_locales
  fix ex ev
  assume a: "guarded w c ex \<and> \<not> live_mode ex \<and> ex_sent ex = []"
  then have "lr_cfg (ex_limits (exec_step ex ev)) = lr_cfg (ex_limits ex)"
    using exec_step_sends [of ex c ev] by (simp add: guarded_def sends_def)
  then have "live_mode (exec_step ex ev) = live_mode ex" by (rule live_mode_cong)
  then show "guarded w c (exec_step ex ev) \<and> \<not> live_mode (exec_step ex ev) \<and> ex_sent (exec_step ex ev) = []"
    using a guard.step_inv shadow_step by simp
qed

end
