(* ===== verification/KolBudget.thy ===== *)
theory KolBudget
  imports Types
begin

text \<open>
  \<open>crates/bsc-runner/src/trader/kol_budget.rs\<close>: the closed-loop budget of each KOL, in
  wei. The wall clock is an argument; what \<open>load_or_new\<close> reads from disk is the argument
  \<open>saved\<close> (\<open>None\<close> for a missing or unparsable file).
\<close>

record kol_budget =
  kb_initial_wei :: u128
  kb_cash_wei :: u128
  kb_committed_wei :: u128
  kb_realized_pnl_wei :: i128
  kb_trades_taken :: u32
  kb_trades_skipped_budget :: u32
  kb_last_updated_ns :: u64

definition kol_budget_new :: "u128 \<Rightarrow> kol_budget" where
  "kol_budget_new initial_wei = \<lparr>kb_initial_wei = initial_wei, kb_cash_wei = initial_wei,
     kb_committed_wei = 0, kb_realized_pnl_wei = 0, kb_trades_taken = 0,
     kb_trades_skipped_budget = 0, kb_last_updated_ns = 0\<rparr>"

definition equity_wei :: "kol_budget \<Rightarrow> u128" where
  "equity_wei b = sat_add (kb_cash_wei b) (kb_committed_wei b)"

record kol_budget_book =
  kbb_inner :: "string \<rightharpoonup> kol_budget"
  kbb_initial_wei :: u128
  kbb_position_pct_bps :: u32
  kbb_dust_floor_wei :: u128

definition load_or_new ::
  "(string \<rightharpoonup> kol_budget) option \<Rightarrow> u128 \<Rightarrow> u32 \<Rightarrow> u128 \<Rightarrow> kol_budget_book" where
  "load_or_new saved initial_wei pct dust =
     \<lparr>kbb_inner = (case saved of Some m \<Rightarrow> m | None \<Rightarrow> Map.empty), kbb_initial_wei = initial_wei,
      kbb_position_pct_bps = pct, kbb_dust_floor_wei = dust\<rparr>"

text \<open>\<open>i128\<close> saturates at both ends; \<open>i128::try_from\<close> of a \<open>u128\<close> fails above \<open>i128::MAX\<close>.\<close>

definition i128_sat :: "int \<Rightarrow> i128" where
  "i128_sat k = word_of_int (max (- (2 ^ 127)) (min (2 ^ 127 - 1) k))"

definition i128_of_u128 :: "u128 \<Rightarrow> i128" where
  "i128_of_u128 w = (if uint w < 2 ^ 127 then w else word_of_int (2 ^ 127 - 1))"

definition u128_of_u256 :: "u256 \<Rightarrow> u128" where
  "u128_of_u256 w = (if unat w < 2 ^ 128 then ucast w else - 1)"

definition entry_or_new :: "kol_budget_book \<Rightarrow> string \<Rightarrow> kol_budget" where
  "entry_or_new bk kol = (case kbb_inner bk kol of Some e \<Rightarrow> e | None \<Rightarrow> kol_budget_new (kbb_initial_wei bk))"

definition position_want :: "u32 \<Rightarrow> u128 \<Rightarrow> u128" where
  "position_want pct cash = sat_mul (ucast pct) cash div 10000"

definition try_reserve :: "u64 \<Rightarrow> kol_budget_book \<Rightarrow> string \<Rightarrow> u256 option \<times> kol_budget_book" where
  "try_reserve now_ns bk kol =
     (let e = entry_or_new bk kol;
          want = position_want (kbb_position_pct_bps bk) (kb_cash_wei e)
      in if want < kbb_dust_floor_wei bk
         then (None, bk\<lparr>kbb_inner := (kbb_inner bk)(kol \<mapsto>
                e\<lparr>kb_trades_skipped_budget := kb_trades_skipped_budget e + 1,
                  kb_last_updated_ns := now_ns\<rparr>)\<rparr>)
         else (Some (ucast want), bk\<lparr>kbb_inner := (kbb_inner bk)(kol \<mapsto>
                e\<lparr>kb_cash_wei := sat_sub (kb_cash_wei e) want,
                  kb_committed_wei := sat_add (kb_committed_wei e) want,
                  kb_trades_taken := kb_trades_taken e + 1,
                  kb_last_updated_ns := now_ns\<rparr>)\<rparr>))"

definition credit_entry :: "u64 \<Rightarrow> u256 \<Rightarrow> u256 \<Rightarrow> kol_budget \<Rightarrow> kol_budget" where
  "credit_entry now_ns bnb_in bnb_out e =
     (let inp = u128_of_u256 bnb_in; outp = u128_of_u256 bnb_out;
          delta = i128_sat (sint (i128_of_u128 outp) - sint (i128_of_u128 inp))
      in e\<lparr>kb_committed_wei := sat_sub (kb_committed_wei e) inp,
           kb_cash_wei := sat_add (kb_cash_wei e) outp,
           kb_realized_pnl_wei := i128_sat (sint (kb_realized_pnl_wei e) + sint delta),
           kb_last_updated_ns := now_ns\<rparr>)"

definition credit_close :: "u64 \<Rightarrow> kol_budget_book \<Rightarrow> string \<Rightarrow> u256 \<Rightarrow> u256 \<Rightarrow> kol_budget_book" where
  "credit_close now_ns bk kol bnb_in bnb_out =
     (case kbb_inner bk kol of
        None \<Rightarrow> bk
      | Some e \<Rightarrow> bk\<lparr>kbb_inner := (kbb_inner bk)(kol \<mapsto> credit_entry now_ns bnb_in bnb_out e)\<rparr>)"

section \<open>Reserving\<close>

lemma unat_u32_u128: "unat (ucast (w :: u32) :: u128) = unat w"
  by (simp add: unat_ucast_up)

lemma position_want_le:
  assumes "pct \<le> 10000"
  shows "position_want pct cash \<le> cash"
proof -
  have "unat pct \<le> 10000" using assms by (simp add: word_le_nat_alt)
  then have "unat (ucast pct :: u128) * unat cash \<le> 10000 * unat cash"
    by (simp add: unat_u32_u128)
  then have "unat (sat_mul (ucast pct) cash) \<le> 10000 * unat cash"
    by (simp only: unat_sat_mul min.coboundedI1)
  then have "unat (sat_mul (ucast pct) cash) div 10000 \<le> unat cash"
    by simp
  then show ?thesis by (simp add: position_want_def word_le_nat_alt unat_div)
qed

section \<open>Accounting\<close>

text \<open>
  The books balance when what is in the pot and in open positions is the starting capital
  plus the realised profit.
\<close>

definition balanced :: "kol_budget \<Rightarrow> bool" where
  "balanced e \<longleftrightarrow> uint (kb_cash_wei e) + uint (kb_committed_wei e)
     = uint (kb_initial_wei e) + sint (kb_realized_pnl_wei e)"

text \<open>
  One KOL's account, event by event. A close gives back a committed amount, within the
  range of the integers (amounts below \<open>2^126\<close> wei, about \<open>10^19\<close> BNB).
\<close>

inductive account :: "u32 \<Rightarrow> u128 \<Rightarrow> kol_budget \<Rightarrow> kol_budget \<Rightarrow> bool"
  for pct :: u32 and dust :: u128 and e0 :: kol_budget where
  opened: "account pct dust e0 e0"
| reserved: "account pct dust e0 e \<Longrightarrow> kbb_inner bk kol = Some e \<Longrightarrow>
    kbb_position_pct_bps bk = pct \<Longrightarrow> kbb_dust_floor_wei bk = dust \<Longrightarrow>
    try_reserve now_ns bk kol = (r, bk') \<Longrightarrow> kbb_inner bk' kol = Some e' \<Longrightarrow>
    account pct dust e0 e'"
| closed: "account pct dust e0 e \<Longrightarrow> kbb_inner bk kol = Some e \<Longrightarrow>
    uint bnb_in \<le> uint (kb_committed_wei e) \<Longrightarrow>
    uint (kb_cash_wei e) + uint (kb_committed_wei e) + uint bnb_out < 2 ^ 126 \<Longrightarrow>
    kbb_inner (credit_close now_ns bk kol bnb_in bnb_out) kol = Some e' \<Longrightarrow>
    account pct dust e0 e'"

lemma uint_sat_sub: "b \<le> a \<Longrightarrow> uint (sat_sub a b) = uint a - uint (b :: u128)"
  by (simp add: sat_sub_def uint_sub_lem [THEN iffD1] word_le_def)

lemma uint_sat_add:
  fixes a b :: u128
  assumes "uint a + uint b < 2 ^ 128"
  shows "uint (sat_add a b) = uint a + uint b"
proof -
  have "int (unat a + unat b) < int (2 ^ 128)" using assms by simp
  then have "unat a + unat b < 2 ^ 128" by (simp only: of_nat_less_iff)
  then have "unat (sat_add a b) = unat a + unat b" by (simp add: unat_sat_add)
  then have "int (unat (sat_add a b)) = int (unat a + unat b)" by (simp only:)
  then show ?thesis by simp
qed

lemma sint_i128_sat: "- (2 ^ 127) \<le> k \<Longrightarrow> k \<le> 2 ^ 127 - 1 \<Longrightarrow> sint (i128_sat k) = k"
  by (simp add: i128_sat_def sint_sbintrunc' signed_take_bit_int_eq_self)

lemma uint_u128_of_u256: "uint w < 2 ^ 128 \<Longrightarrow> uint (u128_of_u256 w) = uint w"
proof -
  assume a: "uint w < 2 ^ 128"
  then have "int (unat w) < int (2 ^ 128)" by simp
  then have "unat w < 2 ^ 128" by (simp only: of_nat_less_iff)
  then show ?thesis using a by (simp add: u128_of_u256_def unsigned_ucast_eq take_bit_int_eq_self)
qed

lemma sint_i128_of_u128:
  assumes "uint w < 2 ^ 127"
  shows "sint (i128_of_u128 w) = uint w"
proof -
  have "- (2 ^ 127) \<le> uint w" by (rule order_trans [of _ 0]) simp_all
  then have "sint (word_of_int (uint w) :: i128) = uint w"
    using assms by (subst sint_sbintrunc') (simp add: signed_take_bit_int_eq_self)
  with assms show ?thesis by (simp add: i128_of_u128_def)
qed

definition in_range :: "kol_budget \<Rightarrow> bool" where
  "in_range e \<longleftrightarrow> uint (kb_initial_wei e) < 2 ^ 126
     \<and> uint (kb_cash_wei e) + uint (kb_committed_wei e) < 2 ^ 126"

lemma reserve_balanced:
  assumes "balanced e" "in_range e" "pct \<le> 10000" "want = position_want pct (kb_cash_wei e)"
  shows "uint (sat_sub (kb_cash_wei e) want) + uint (sat_add (kb_committed_wei e) want)
    = uint (kb_cash_wei e) + uint (kb_committed_wei e)"
proof -
  have w: "want \<le> kb_cash_wei e" using assms by (simp add: position_want_le)
  then have "uint want \<le> uint (kb_cash_wei e)" by (simp add: word_le_def)
  then have "uint (kb_committed_wei e) + uint want < 2 ^ 128"
    using assms(2) by (simp add: in_range_def)
  then show ?thesis using w by (simp add: uint_sat_sub uint_sat_add)
qed

lemma credit_balanced:
  assumes bal: "balanced e" and rng: "in_range e"
    and i: "uint bnb_in \<le> uint (kb_committed_wei e)"
    and o: "uint (kb_cash_wei e) + uint (kb_committed_wei e) + uint bnb_out < 2 ^ 126"
  shows "balanced (credit_entry n bnb_in bnb_out e) \<and> in_range (credit_entry n bnb_in bnb_out e)"
proof -
  have nonneg: "0 \<le> uint (kb_cash_wei e)" "0 \<le> uint (kb_committed_wei e)" "0 \<le> uint bnb_out"
    "0 \<le> uint bnb_in" "0 \<le> uint (kb_initial_wei e)" by simp_all
  have big: "x < 2 ^ 126 \<Longrightarrow> x < 2 ^ 128" for x :: int by simp
  have "uint bnb_in < 2 ^ 126" using i o nonneg by linarith
  then have inp: "uint (u128_of_u256 bnb_in) = uint bnb_in"
    by (intro uint_u128_of_u256 big)
  have "uint bnb_out < 2 ^ 126" using o nonneg by linarith
  then have outp: "uint (u128_of_u256 bnb_out) = uint bnb_out"
    by (intro uint_u128_of_u256 big)
  have si: "sint (i128_of_u128 (u128_of_u256 bnb_in)) = uint bnb_in"
    using \<open>uint bnb_in < 2 ^ 126\<close> inp by (subst sint_i128_of_u128) simp_all
  have so: "sint (i128_of_u128 (u128_of_u256 bnb_out)) = uint bnb_out"
    using \<open>uint bnb_out < 2 ^ 126\<close> outp by (subst sint_i128_of_u128) simp_all
  have pow: "(2 :: int) ^ 127 = 2 * 2 ^ 126" "(0 :: int) < 2 ^ 126" by simp_all
  have sd: "sint (i128_sat (uint bnb_out - uint bnb_in)) = uint bnb_out - uint bnb_in"
    using i o nonneg pow by (intro sint_i128_sat) linarith+
  have pnl: "sint (kb_realized_pnl_wei e)
      = uint (kb_cash_wei e) + uint (kb_committed_wei e) - uint (kb_initial_wei e)"
    using bal by (simp add: balanced_def)
  have sp: "sint (i128_sat (sint (kb_realized_pnl_wei e) + (uint bnb_out - uint bnb_in)))
      = sint (kb_realized_pnl_wei e) + (uint bnb_out - uint bnb_in)"
    using i o nonneg rng pow unfolding pnl in_range_def by (intro sint_i128_sat) linarith+
  have c: "uint (sat_sub (kb_committed_wei e) (u128_of_u256 bnb_in))
      = uint (kb_committed_wei e) - uint bnb_in"
    using i inp by (subst uint_sat_sub) (simp_all add: word_le_def)
  have k: "uint (sat_add (kb_cash_wei e) (u128_of_u256 bnb_out))
      = uint (kb_cash_wei e) + uint bnb_out"
  proof -
    have "uint (kb_cash_wei e) + uint bnb_out < 2 ^ 126" using o nonneg by linarith
    then have "uint (kb_cash_wei e) + uint bnb_out < 2 ^ 128" by (rule big)
    then show ?thesis by (simp add: uint_sat_add outp)
  qed
  have "uint (kb_cash_wei e) + uint bnb_out + (uint (kb_committed_wei e) - uint bnb_in) < 2 ^ 126"
    using o nonneg by linarith
  then show ?thesis
    using i o rng nonneg by (simp add: credit_entry_def Let_def balanced_def in_range_def si so sd sp [unfolded pnl] c k pnl)
qed

section \<open>Properties\<close>

text \<open>
  What a reservation does, for a position share of at most 100 per cent: it either
  skips (the share is below the dust floor; only the counter moves) or takes at least the
  dust floor and at most the cash, and moves exactly that amount from cash to committed.
\<close>

lemma try_reserve_outcome:
  assumes "kbb_position_pct_bps bk \<le> 10000"
    and "try_reserve now_ns bk kol = (r, bk')"
  shows "\<exists>e'. kbb_inner bk' kol = Some e' \<and>
     (case r of
        None \<Rightarrow> kb_cash_wei e' = kb_cash_wei (entry_or_new bk kol)
          \<and> kb_committed_wei e' = kb_committed_wei (entry_or_new bk kol)
          \<and> position_want (kbb_position_pct_bps bk) (kb_cash_wei (entry_or_new bk kol)) < kbb_dust_floor_wei bk
      | Some w \<Rightarrow> \<exists>want. w = ucast want \<and> kbb_dust_floor_wei bk \<le> want
          \<and> want \<le> kb_cash_wei (entry_or_new bk kol)
          \<and> kb_cash_wei e' = kb_cash_wei (entry_or_new bk kol) - want
          \<and> kb_committed_wei e' = sat_add (kb_committed_wei (entry_or_new bk kol)) want)"
  using assms(2) position_want_le [OF assms(1), of "kb_cash_wei (entry_or_new bk kol)"]
  by (auto simp: try_reserve_def Let_def sat_sub_def split: if_splits)



end
