(* ===== verification/PaperPricing.thy ===== *)
theory PaperPricing
  imports Dex ExecutorExit "HOL-Library.List_Lexorder" "HOL-Library.Char_ord"
begin

text \<open>
  How the paper trader prices its fills (\<open>crates/bsc-runner/src/trader/paper.rs\<close>, second half,
  and \<open>mcap.rs\<close>): the price in a KOL's receipt, the re-quote at the block after the KOL's, the
  median price of the swaps after it, the meter on the archive node, market caps. Every reply
  of a node is an argument: one record per helper holds what its calls are answered, by
  attempt where it retries. \<open>10f64.powi\<close> is exact up to \<open>10 ^ 22\<close> and taken as correctly
  rounded beyond, where Rust leaves the precision open.
\<close>

section \<open>The archive meter\<close>

record archive_meter =
  am_calls :: u64
  am_last_ns :: u64

definition ARCHIVE_DAILY_CAP :: u64 where
  "ARCHIVE_DAILY_CAP = 800"

definition ARCHIVE_MIN_GAP_NS :: u64 where
  "ARCHIVE_MIN_GAP_NS = 400000000"

text \<open>Whether a call at this time is within the cap and the gap; if so it is counted.\<close>

definition archive_admit :: "u64 \<Rightarrow> archive_meter \<Rightarrow> bool \<times> archive_meter" where
  "archive_admit now m =
     (if ARCHIVE_DAILY_CAP \<le> am_calls m then (False, m)
      else if sat_sub now (am_last_ns m) < ARCHIVE_MIN_GAP_NS then (False, m)
      else (True, \<lparr>am_calls = am_calls m + 1, am_last_ns = now\<rparr>))"

section \<open>Reading replies\<close>

definition rpc_result :: "reply \<Rightarrow> json option" where
  "rpc_result r = Option.bind (reply_json r) (\<lambda>v. jget v ''result'')"

definition not_null :: "json option \<Rightarrow> json option" where
  "not_null v = (if v = Some JNull then None else v)"

definition str_field :: "json \<Rightarrow> string \<Rightarrow> string option" where
  "str_field v k = Option.bind (jget v k) as_str"

definition u_hex :: "string \<Rightarrow> f64" where
  "u_hex h = (case parse_u128 16 (trim_start_matches ''0x'' h) of Some v \<Rightarrow> f64_of_word v | None \<Rightarrow> Fin 0)"

fun json_array :: "json \<Rightarrow> json list option" where
  "json_array (JArr xs) = Some xs"
| "json_array _ = None"

definition pow10 :: "u8 \<Rightarrow> f64" where
  "pow10 decimals = flit (10 ^ unat decimals)"

definition f64_to_u256 :: "f64 \<Rightarrow> u256" where
  "f64_to_u256 raw = ucast (f64_to_word (fmax raw (Fin 0)) :: u128)"

definition paper_head_of :: "reply \<Rightarrow> u64 option" where
  "paper_head_of r = Option.bind (result_str r) (\<lambda>hex.
     parse_u64 16 (case strip_prefix ''0x'' hex of Some s \<Rightarrow> s | None \<Rightarrow> hex))"

text \<open>The KOL's sell fraction: balances around the block, local node first, then the archive.\<close>

definition paper_eth_call_u256 :: "(string \<Rightarrow> u256 option) \<Rightarrow> reply \<Rightarrow> u256 option" where
  "paper_eth_call_u256 parse_u256 r = Option.bind (result_str r) (\<lambda>s.
     Option.bind (strip_prefix ''0x'' s) (\<lambda>hex. if hex = [] then Some 0 else parse_u256 hex))"

definition paper_balance_of_at ::
  "(string \<Rightarrow> u256 option) \<Rightarrow> bool \<Rightarrow> (u64 \<Rightarrow> reply) \<Rightarrow> (u64 \<Rightarrow> reply) \<Rightarrow> u64 \<Rightarrow> u256 option" where
  "paper_balance_of_at parse_u256 has_archive local archive block =
     (case paper_eth_call_u256 parse_u256 (local block) of
        Some r \<Rightarrow> Some r
      | None \<Rightarrow> if has_archive then paper_eth_call_u256 parse_u256 (archive block) else None)"

definition paper_sell_fraction ::
  "(string \<Rightarrow> u256 option) \<Rightarrow> bool \<Rightarrow> (u64 \<Rightarrow> reply) \<Rightarrow> (u64 \<Rightarrow> reply) \<Rightarrow> address \<Rightarrow> u64 \<Rightarrow> f64 option" where
  "paper_sell_fraction parse_u256 has_archive local archive kol_addr kol_block =
     (if kol_addr = 0 \<or> kol_block = 0 then None
      else Option.bind (paper_balance_of_at parse_u256 has_archive local archive (sat_sub kol_block 1)) (\<lambda>pre.
           Option.bind (paper_balance_of_at parse_u256 has_archive local archive kol_block) (\<lambda>post.
             sold_fraction pre post)))"

section \<open>The price in a receipt\<close>

definition TRANSFER_TOPIC_LC :: string where
  "TRANSFER_TOPIC_LC = ''0xddf252ad1be2c89b69c2b068fc378daa952ba7f163c4a11628f55a4df523b3ef''"

definition WBNB_LC :: string where
  "WBNB_LC = ''0xbb4cdb9cbd36b01bd1cbaebf2de08d9173bc095c''"

record exec_reads =
  xr_receipt :: "nat \<Rightarrow> reply"
  xr_tx :: reply
  xr_balance :: "u128 \<Rightarrow> reply"
  xr_archive :: "u128 \<Rightarrow> reply"
  xr_clock :: "u128 \<Rightarrow> u64"

fun first_receipt :: "(nat \<Rightarrow> reply) \<Rightarrow> nat list \<Rightarrow> json option" where
  "first_receipt rd [] = None"
| "first_receipt rd (i # is) =
     (case not_null (rpc_result (rd i)) of Some r \<Rightarrow> Some r | None \<Rightarrow> first_receipt rd is)"

text \<open>The largest transfer of the token and of WBNB among the logs.\<close>

definition transfer_legs :: "string \<Rightarrow> f64 \<times> f64 \<Rightarrow> json \<Rightarrow> f64 \<times> f64" where
  "transfer_legs tok_lc legs lg =
     (let t0 = (case Option.bind (Option.bind (jget lg ''topics'') json_array)
                       (\<lambda>t. case t of [] \<Rightarrow> None | x # _ \<Rightarrow> as_str x) of Some s \<Rightarrow> s | None \<Rightarrow> [])
      in if to_lower t0 \<noteq> to_lower TRANSFER_TOPIC_LC then legs
         else let amt = u_hex (case str_field lg ''data'' of Some d \<Rightarrow> d | None \<Rightarrow> ''0x0'');
                  addr = to_lower (case str_field lg ''address'' of Some a \<Rightarrow> a | None \<Rightarrow> [])
              in if addr = tok_lc then (fmax (fst legs) amt, snd legs)
                 else if addr = WBNB_LC then (fst legs, fmax (snd legs) amt) else legs)"

definition archive_balance ::
  "bool \<Rightarrow> (u128 \<Rightarrow> reply) \<Rightarrow> u64 \<Rightarrow> u128 \<Rightarrow> archive_meter \<Rightarrow> f64 option \<times> archive_meter" where
  "archive_balance has_archive archive now block m =
     (if \<not> has_archive then (None, m)
      else case archive_admit now m of
        (False, m') \<Rightarrow> (None, m')
      | (True, m') \<Rightarrow> (map_option u_hex (Option.bind (rpc_result (archive block)) as_str), m'))"

definition balance_at :: "bool \<Rightarrow> exec_reads \<Rightarrow> u128 \<Rightarrow> archive_meter \<Rightarrow> f64 option \<times> archive_meter" where
  "balance_at has_archive xr block m =
     (case Option.bind (rpc_result (xr_balance xr block)) as_str of
        Some s \<Rightarrow> (Some (u_hex s), m)
      | None \<Rightarrow> archive_balance has_archive (xr_archive xr) (xr_clock xr block) block m)"

text \<open>The BNB the KOL got for a native sell: his balance change plus the gas he paid.\<close>

definition native_proceeds :: "bool \<Rightarrow> exec_reads \<Rightarrow> json \<Rightarrow> archive_meter \<Rightarrow> f64 option \<times> archive_meter" where
  "native_proceeds has_archive xr rc m =
     (case Option.bind (str_field rc ''blockNumber'') (\<lambda>s. parse_u128 16 (trim_start_matches ''0x'' s)) of
        None \<Rightarrow> (None, m)
      | Some blk \<Rightarrow>
          let gas_used = u_hex (case str_field rc ''gasUsed'' of Some s \<Rightarrow> s | None \<Rightarrow> ''0x0'');
              gas_price = u_hex (case str_field rc ''effectiveGasPrice'' of Some s \<Rightarrow> s | None \<Rightarrow> ''0x0'')
          in (case Option.bind (rpc_result (xr_tx xr)) (\<lambda>t. str_field t ''from'') of
                None \<Rightarrow> (None, m)
              | Some _ \<Rightarrow>
                  (case balance_at has_archive xr blk m of
                     (None, m1) \<Rightarrow> (None, m1)
                   | (Some after, m1) \<Rightarrow>
                       if blk = 0 then (None, m1)
                       else (case balance_at has_archive xr (blk - 1) m1 of
                          (None, m2) \<Rightarrow> (None, m2)
                        | (Some before, m2) \<Rightarrow>
                            let proceeds = fadd (fsub after before) (fmul gas_used gas_price)
                            in (if fle proceeds (Fin 0) then None else Some (fdiv proceeds (flit (10 ^ 18))), m2)))))"

definition kol_exec_price ::
  "bool \<Rightarrow> exec_reads \<Rightarrow> address \<Rightarrow> u8 \<Rightarrow> bool \<Rightarrow> archive_meter \<Rightarrow> f64 option \<times> archive_meter" where
  "kol_exec_price has_archive xr token decimals is_buy m =
     (case first_receipt (xr_receipt xr) [0..<8] of
        None \<Rightarrow> (None, m)
      | Some rc \<Rightarrow>
          (case Option.bind (jget rc ''logs'') json_array of
             None \<Rightarrow> (None, m)
           | Some logs \<Rightarrow>
               let (tok_amt, wbnb_amt) = foldl (transfer_legs (addr_text token)) (Fin 0, Fin 0) logs in
               if fle tok_amt (Fin 0) then (None, m)
               else let tok_whole = fdiv tok_amt (pow10 decimals);
                        (bnb, m') =
                          (if is_buy then
                             let v = (case Option.bind (rpc_result (xr_tx xr)) (\<lambda>t. str_field t ''value'') of
                                        Some s \<Rightarrow> u_hex s | None \<Rightarrow> Fin 0)
                             in (Some (if flt (Fin 0) v then fdiv v (flit (10 ^ 18)) else fdiv wbnb_amt (flit (10 ^ 18))), m)
                           else if flt (Fin 0) wbnb_amt then (Some (fdiv wbnb_amt (flit (10 ^ 18))), m)
                           else native_proceeds has_archive xr rc m)
                    in (case bnb of
                          None \<Rightarrow> (None, m')
                        | Some b \<Rightarrow>
                            (if fle b (Fin 0) \<or> fle tok_whole (Fin 0) then None else Some (fdiv b tok_whole), m'))))"

section \<open>The block after the KOL's\<close>

text \<open>The block of the KOL's transaction: ten attempts, none for a reverted one.\<close>

fun kol_block_of :: "(nat \<Rightarrow> reply) \<Rightarrow> nat list \<Rightarrow> u64 option" where
  "kol_block_of rd [] = None"
| "kol_block_of rd (i # is) =
     (case not_null (rpc_result (rd i)) of
        None \<Rightarrow> kol_block_of rd is
      | Some r \<Rightarrow>
          if str_field r ''status'' \<noteq> Some ''0x1'' then None
          else case Option.bind (str_field r ''blockNumber'') (\<lambda>s. parse_u64 16 (trim_start_matches ''0x'' s)) of
                 Some b \<Rightarrow> Some b
               | None \<Rightarrow> kol_block_of rd is)"

record fill_reads =
  fr_receipt :: "nat \<Rightarrow> reply"
  fr_local :: http
  fr_archive :: http
  fr_clock :: u64

definition side_quote :: "bool \<Rightarrow> http \<Rightarrow> u256 \<Rightarrow> address \<Rightarrow> u64 \<Rightarrow> quote_result option" where
  "side_quote is_buy post amount_in token target =
     (case (if is_buy then simulate_buy post amount_in token (Some target)
            else simulate_sell post amount_in token (Some target)) of
        Some q \<Rightarrow> if qr_amount_out q \<noteq> 0 then Some q else None
      | None \<Rightarrow> None)"

definition measured_v2v3_fill ::
  "bool \<Rightarrow> fill_reads \<Rightarrow> bool \<Rightarrow> u256 \<Rightarrow> address \<Rightarrow> archive_meter \<Rightarrow> quote_result option \<times> archive_meter" where
  "measured_v2v3_fill has_archive fr is_buy amount_in token m =
     (case kol_block_of (fr_receipt fr) [0..<10] of
        None \<Rightarrow> (None, m)
      | Some kol_block \<Rightarrow>
          let target = kol_block + 1 in
          (case side_quote is_buy (fr_local fr) amount_in token target of
             Some q \<Rightarrow> (Some q, m)
           | None \<Rightarrow>
               if \<not> has_archive then (None, m)
               else case archive_admit (fr_clock fr) m of
                 (False, m') \<Rightarrow> (None, m')
               | (True, m') \<Rightarrow> (side_quote is_buy (fr_archive fr) amount_in token target, m')))"

section \<open>The swaps after the KOL's\<close>

record chain_reads =
  hr_receipt :: "nat \<Rightarrow> reply"
  hr_clock :: u64
  hr_logs :: reply
  hr_swap :: "string \<Rightarrow> exec_reads"

text \<open>The hashes of the logs' transactions, sorted, without repetitions, twelve at most.\<close>

definition swap_hashes :: "json list \<Rightarrow> string list" where
  "swap_hashes logs = take 12 (remdups_adj (sort (List.map_filter (\<lambda>l. str_field l ''transactionHash'') logs)))"

fun swap_prices ::
  "(string \<Rightarrow> b256 option) \<Rightarrow> bool \<Rightarrow> (string \<Rightarrow> exec_reads) \<Rightarrow> address \<Rightarrow> u8 \<Rightarrow> bool
     \<Rightarrow> string list \<Rightarrow> archive_meter \<Rightarrow> f64 list \<times> archive_meter" where
  "swap_prices parse_hash has_archive swap token decimals is_buy [] m = ([], m)"
| "swap_prices parse_hash has_archive swap token decimals is_buy (h # hs) m =
     (case parse_hash h of
        None \<Rightarrow> swap_prices parse_hash has_archive swap token decimals is_buy hs m
      | Some _ \<Rightarrow>
          let (p, m1) = kol_exec_price has_archive (swap h) token decimals is_buy m;
              (ps, m2) = swap_prices parse_hash has_archive swap token decimals is_buy hs m1
          in (case p of Some x \<Rightarrow> (if flt (Fin 0) x then x # ps else ps) | None \<Rightarrow> ps, m2))"

fun insert_price :: "f64 \<Rightarrow> f64 list \<Rightarrow> f64 list" where
  "insert_price x [] = [x]"
| "insert_price x (y # ys) = (if fle x y then x # y # ys else y # insert_price x ys)"

definition median_price :: "f64 list \<Rightarrow> f64 option" where
  "median_price prices =
     (if prices = [] then None else Some (foldr insert_price prices [] ! (length prices div 2)))"

definition measured_chain_swap_price ::
  "(string \<Rightarrow> b256 option) \<Rightarrow> bool \<Rightarrow> chain_reads \<Rightarrow> bool \<Rightarrow> address \<Rightarrow> u8 \<Rightarrow> archive_meter
     \<Rightarrow> f64 option \<times> archive_meter" where
  "measured_chain_swap_price parse_hash has_archive cr is_buy token decimals m =
     (if \<not> has_archive then (None, m)
      else case kol_block_of (hr_receipt cr) [0..<10] of
        None \<Rightarrow> (None, m)
      | Some _ \<Rightarrow>
          (case archive_admit (hr_clock cr) m of
             (False, m') \<Rightarrow> (None, m')
           | (True, m') \<Rightarrow>
               (case Option.bind (rpc_result (hr_logs cr)) json_array of
                  None \<Rightarrow> (None, m')
                | Some logs \<Rightarrow>
                    let (prices, m2) = swap_prices parse_hash has_archive (hr_swap cr) token decimals is_buy
                                         (swap_hashes logs) m'
                    in (median_price prices, m2))))"

section \<open>Market caps\<close>

definition addr_arg :: "address \<Rightarrow> string" where
  "addr_arg a = replicate 24 CHR ''0'' @ hex_encode (be_bytes 20 (unat a))"

definition mcap_eth_call :: "(json \<Rightarrow> reply) \<Rightarrow> string \<Rightarrow> string \<Rightarrow> string option" where
  "mcap_eth_call post to data = result_str (post (JObj [(''jsonrpc'', JStr ''2.0''), (''method'', JStr ''eth_call''),
     (''params'', JArr [JObj [(''to'', JStr to), (''data'', JStr data)], JStr ''latest'']), (''id'', JNum 1)]))"

fun hex_bytes_of :: "string \<Rightarrow> u8 list option" where
  "hex_bytes_of (a # b # s) =
     (case from_str_radix 16 256 [a, b] of None \<Rightarrow> None
      | Some n \<Rightarrow> map_option (\<lambda>bs. of_nat n # bs) (hex_bytes_of s))"
| "hex_bytes_of _ = Some []"

definition addr_from_tail :: "string \<Rightarrow> address option" where
  "addr_from_tail h =
     (if length h < 40 then None else map_option address_of_bytes (hex_bytes_of (drop (length h - 40) h)))"

definition pool_spot_and_supply :: "(json \<Rightarrow> reply) \<Rightarrow> address \<Rightarrow> u8 \<Rightarrow> (f64 \<times> f64) option" where
  "pool_spot_and_supply post token decimals =
     Option.bind (mcap_eth_call post (addr_text PANCAKE_V2_FACTORY)
         (''0xe6a43905'' @ addr_arg WBNB @ addr_arg token)) (\<lambda>pair_hex.
     if length pair_hex < 66 then None else
     Option.bind (addr_from_tail pair_hex) (\<lambda>pair.
     if pair = 0 then None else
     Option.bind (mcap_eth_call post (addr_text pair) ''0x0dfe1681'') (\<lambda>t0_hex.
     if length t0_hex < 66 then None else
     Option.bind (addr_from_tail t0_hex) (\<lambda>t0.
     Option.bind (mcap_eth_call post (addr_text pair) ''0x0902f1ac'') (\<lambda>res.
     if length res < 2 + 64 * 2 then None else
     let r0 = u_hex (slice 2 66 res);
         r1 = u_hex (slice 66 130 res);
         (wbnb_raw, tok_raw) = (if t0 = WBNB then (r0, r1) else (r1, r0))
     in if feq wbnb_raw (Fin 0) \<or> feq tok_raw (Fin 0) then None else
     Option.bind (mcap_eth_call post (addr_text token) ''0x18160ddd'') (\<lambda>sup_hex.
     let supply_raw = u_hex (trim sup_hex) in
     if feq supply_raw (Fin 0) then None
     else Some (fdiv (fdiv wbnb_raw (flit (10 ^ 18))) (fdiv tok_raw (pow10 decimals)),
                fdiv supply_raw (pow10 decimals))))))))"

definition total_supply_whole :: "(json \<Rightarrow> reply) \<Rightarrow> address \<Rightarrow> u8 \<Rightarrow> f64 option" where
  "total_supply_whole post token decimals =
     Option.bind (mcap_eth_call post (addr_text token) ''0x18160ddd'') (\<lambda>h.
       let raw = u_hex (trim h) in if feq raw (Fin 0) then None else Some (fdiv raw (pow10 decimals)))"

section \<open>Haircuts\<close>

definition bps_haircut_u256 :: "u256 \<Rightarrow> u32 \<Rightarrow> u256" where
  "bps_haircut_u256 x bps = (let b = min bps 10000 in sat_mul x (10000 - ucast b) div 10000)"

end
