(* ===== verification/PositionBook.thy ===== *)
theory PositionBook
  imports Types
begin

text \<open>
  \<open>crates/bsc-runner/src/trader/position.rs\<close>: the open positions by
  (portfolio, KOL, token), with average-in on a second buy. The hash map is a partial
  map; what iterates over it returns a set, since the iteration order of a
  \<open>HashMap\<close> is unspecified. The wall clock is an argument (\<open>now_ns\<close>).
\<close>

type_synonym position_book = "position_key \<rightharpoonup> open_position"

definition book_new :: position_book where
  "book_new = Map.empty"

definition book_len :: "position_book \<Rightarrow> nat" where
  "book_len b = card (dom b)"

definition book_is_empty :: "position_book \<Rightarrow> bool" where
  "book_is_empty b \<longleftrightarrow> dom b = {}"

text \<open>The arguments of one buy.\<close>

record fill =
  fl_portfolio :: portfolio_mode
  fl_kol_name :: string
  fl_token :: address
  fl_symbol :: string
  fl_decimals :: u8
  fl_bnb_in :: u256
  fl_tokens_in :: u256
  fl_block :: u64
  fl_tx :: b256

definition fill_key :: "fill \<Rightarrow> position_key" where
  "fill_key f = \<lparr>pk_portfolio = fl_portfolio f, pk_kol_name = fl_kol_name f, pk_token = fl_token f\<rparr>"

definition add_fill :: "fill \<Rightarrow> open_position \<Rightarrow> open_position" where
  "add_fill f p = p\<lparr>op_bnb_in := sat_add (op_bnb_in p) (fl_bnb_in f),
     op_tokens_held := sat_add (op_tokens_held p) (fl_tokens_in f),
     op_last_added_block := fl_block f,
     op_buy_tx_hashes := op_buy_tx_hashes p @ [fl_tx f]\<rparr>"

definition first_fill :: "u64 \<Rightarrow> fill \<Rightarrow> open_position" where
  "first_fill now_ns f = \<lparr>op_portfolio = fl_portfolio f, op_kol_name = fl_kol_name f,
     op_token_address = fl_token f, op_token_symbol = fl_symbol f,
     op_token_decimals = fl_decimals f, op_bnb_in = fl_bnb_in f,
     op_tokens_held = fl_tokens_in f, op_opened_at_block = fl_block f,
     op_opened_at_unix_ns = now_ns, op_last_added_block = fl_block f,
     op_buy_tx_hashes = [fl_tx f], op_d_mcap_usd = Fin 0, op_our_entry_mcap_usd = Fin 0\<rparr>"

definition open_or_add :: "u64 \<Rightarrow> position_book \<Rightarrow> fill \<Rightarrow> position_book" where
  "open_or_add now_ns b f =
     (let key = fill_key f in
      case b key of
        Some pos \<Rightarrow> b(key \<mapsto> add_fill f pos)
      | None \<Rightarrow> b(key \<mapsto> first_fill now_ns f))"

definition set_entry_mcaps :: "position_book \<Rightarrow> position_key \<Rightarrow> f64 \<Rightarrow> f64 \<Rightarrow> position_book" where
  "set_entry_mcaps b key d_mcap our_mcap =
     (case b key of
        None \<Rightarrow> b
      | Some p \<Rightarrow>
          let p1 = (if feq (op_d_mcap_usd p) (Fin 0) then p\<lparr>op_d_mcap_usd := d_mcap\<rparr> else p);
              p2 = (if feq (op_our_entry_mcap_usd p1) (Fin 0)
                    then p1\<lparr>op_our_entry_mcap_usd := our_mcap\<rparr> else p1)
          in b(key \<mapsto> p2))"

definition book_get :: "position_book \<Rightarrow> position_key \<Rightarrow> open_position option" where
  "book_get b key = b key"

definition book_remove :: "position_book \<Rightarrow> position_key \<Rightarrow> open_position option \<times> position_book" where
  "book_remove b key = (b key, b(key := None))"

definition shrink :: "position_book \<Rightarrow> position_key \<Rightarrow> u256 \<Rightarrow> u256 \<Rightarrow> position_book" where
  "shrink b key new_tokens_held new_bnb_in =
     (case b key of
        None \<Rightarrow> b
      | Some p \<Rightarrow> b(key \<mapsto> p\<lparr>op_tokens_held := new_tokens_held, op_bnb_in := new_bnb_in\<rparr>))"

definition opened_before :: "position_book \<Rightarrow> u64 \<Rightarrow> position_key set" where
  "opened_before b cutoff = Set.filter (\<lambda>k. op_opened_at_unix_ns (the (b k)) \<le> cutoff) (dom b)"

definition keys_for_kol_token :: "position_book \<Rightarrow> string \<Rightarrow> address \<Rightarrow> position_key set" where
  "keys_for_kol_token b kol token = Set.filter (\<lambda>k. pk_kol_name k = kol \<and> pk_token k = token) (dom b)"

definition book_snapshot :: "position_book \<Rightarrow> open_position set" where
  "book_snapshot b = ran b"

section \<open>The book as an event-driven component\<close>

datatype book_event =
    Fill u64 fill
  | EntryMcaps position_key f64 f64
  | Close position_key
  | PartialClose position_key u256 u256

fun book_step :: "position_book \<Rightarrow> book_event \<Rightarrow> position_book" where
  "book_step b (Fill now_ns f) = open_or_add now_ns b f"
| "book_step b (EntryMcaps key d our) = set_entry_mcaps b key d our"
| "book_step b (Close key) = snd (book_remove b key)"
| "book_step b (PartialClose key tokens bnb) = shrink b key tokens bnb"

text \<open>Well-formed: finitely many entries, each filed under its own key and backed by a buy.\<close>

definition book_inv :: "position_book \<Rightarrow> bool" where
  "book_inv b \<longleftrightarrow> finite (dom b)
     \<and> (\<forall>k p. b k = Some p \<longrightarrow> op_key p = k \<and> op_buy_tx_hashes p \<noteq> [])"

lemma op_key_add_fill [simp]: "op_key (add_fill f p) = op_key p"
  by (simp add: op_key_def add_fill_def)

lemma op_key_first_fill [simp]: "op_key (first_fill n f) = fill_key f"
  by (simp add: op_key_def first_fill_def fill_key_def)

lemma hashes_nonempty [simp]:
  "op_buy_tx_hashes (add_fill f p) \<noteq> []" "op_buy_tx_hashes (first_fill n f) \<noteq> []"
  by (simp_all add: add_fill_def first_fill_def)

lemma book_inv_upd:
  "book_inv b \<Longrightarrow> op_key p = k \<Longrightarrow> op_buy_tx_hashes p \<noteq> [] \<Longrightarrow> book_inv (b(k \<mapsto> p))"
  by (auto simp: book_inv_def)

lemma book_inv_D: "book_inv b \<Longrightarrow> b k = Some p \<Longrightarrow> op_key p = k \<and> op_buy_tx_hashes p \<noteq> []"
  by (simp add: book_inv_def)

lemma book_step_inv: "book_inv b \<Longrightarrow> book_inv (book_step b e)"
proof (cases e)
  case (Fill n f)
  assume "book_inv b"
  then show ?thesis
    by (auto simp: Fill open_or_add_def Let_def split: option.splits
        intro!: book_inv_upd dest: book_inv_D)
next
  case (EntryMcaps k d m)
  assume "book_inv b"
  then show ?thesis
    by (auto simp: EntryMcaps set_entry_mcaps_def Let_def op_key_def split: option.splits
        intro!: book_inv_upd dest: book_inv_D)
next
  case (Close k)
  assume "book_inv b"
  then show ?thesis
    by (auto simp: Close book_remove_def book_inv_def split: if_splits)
next
  case (PartialClose k t n)
  assume "book_inv b"
  then show ?thesis
    by (auto simp: PartialClose shrink_def op_key_def split: option.splits
        intro!: book_inv_upd dest: book_inv_D)
qed

interpretation book: stateful book_step book_inv
  by unfold_locales (rule book_step_inv)

lemma book_new_inv: "book_inv book_new"
  by (simp add: book_inv_def book_new_def)

lemma keys_for_positions:
  assumes "book_inv b"
  shows "keys_for_kol_token b kol token = op_key ` {p \<in> book_snapshot b.
     op_kol_name p = kol \<and> op_token_address p = token \<and> op_buy_tx_hashes p \<noteq> []}" (is "_ = op_key ` ?S")
proof (rule set_eqI, rule iffI)
  fix k assume "k \<in> keys_for_kol_token b kol token"
  then obtain p where p: "b k = Some p" "pk_kol_name k = kol" "pk_token k = token"
    by (auto simp: keys_for_kol_token_def)
  from book_inv_D [OF assms p(1)] have "op_key p = k" "op_buy_tx_hashes p \<noteq> []" by simp_all
  with p have "p \<in> ?S" by (auto simp: book_snapshot_def ran_def op_key_def)
  with \<open>op_key p = k\<close> show "k \<in> op_key ` ?S" by blast
next
  fix k assume "k \<in> op_key ` ?S"
  then obtain p k' where p: "b k' = Some p" "op_kol_name p = kol" "op_token_address p = token" "op_key p = k"
    by (auto simp: book_snapshot_def ran_def)
  from book_inv_D [OF assms p(1)] p(4) have "k' = k" by simp
  with p show "k \<in> keys_for_kol_token b kol token"
    by (auto simp: keys_for_kol_token_def op_key_def)
qed

section \<open>Average-in\<close>

definition fills :: "u64 \<Rightarrow> position_book \<Rightarrow> fill list \<Rightarrow> position_book" where
  "fills now_ns b fs = foldl (open_or_add now_ns) b fs"

lemma open_or_add_present: "b (fill_key f) = Some p \<Longrightarrow> open_or_add n b f = b(fill_key f \<mapsto> add_fill f p)"
  by (simp add: open_or_add_def Let_def)

lemma fills_present:
  assumes "b k = Some p" and "\<forall>f \<in> set fs. fill_key f = k"
  shows "fills n b fs k = Some (foldl (\<lambda>p f. add_fill f p) p fs)"
  using assms
  by (induction fs arbitrary: b p) (simp_all add: fills_def open_or_add_present)

lemma add_fills_amounts:
  "unat (op_bnb_in (foldl (\<lambda>p f. add_fill f p) p fs))
     = min (unat (op_bnb_in p) + (\<Sum>f\<leftarrow>fs. unat (fl_bnb_in f))) (2 ^ 256 - 1)
   \<and> unat (op_tokens_held (foldl (\<lambda>p f. add_fill f p) p fs))
     = min (unat (op_tokens_held p) + (\<Sum>f\<leftarrow>fs. unat (fl_tokens_in f))) (2 ^ 256 - 1)"
proof (induction fs arbitrary: p)
  case Nil
  have "unat x \<le> 2 ^ 256 - 1" for x :: u256
    using unat_le_max_word [of x] by simp
  then show ?case by (simp add: min_absorb1)
next
  case (Cons f fs)
  have "min (min (a + b) m + c) m = min (a + (b + c)) m" for a b c m :: nat
    by simp
  then show ?case using Cons.IH [of "add_fill f p"] by (simp add: add_fill_def unat_sat_add)
qed

lemma add_fills_frame:
  "op_buy_tx_hashes (foldl (\<lambda>p f. add_fill f p) p fs) = op_buy_tx_hashes p @ map fl_tx fs
   \<and> op_last_added_block (foldl (\<lambda>p f. add_fill f p) p fs)
       = last (op_last_added_block p # map fl_block fs)
   \<and> op_opened_at_block (foldl (\<lambda>p f. add_fill f p) p fs) = op_opened_at_block p
   \<and> op_opened_at_unix_ns (foldl (\<lambda>p f. add_fill f p) p fs) = op_opened_at_unix_ns p
   \<and> op_token_symbol (foldl (\<lambda>p f. add_fill f p) p fs) = op_token_symbol p
   \<and> op_our_entry_mcap_usd (foldl (\<lambda>p f. add_fill f p) p fs) = op_our_entry_mcap_usd p"
  by (induction fs arbitrary: p) (simp_all add: add_fill_def)

lemma fills_other: "\<forall>f \<in> set fs. fill_key f \<noteq> k \<Longrightarrow> fills n b fs k = b k"
  by (induction fs arbitrary: b) (auto simp: fills_def open_or_add_def Let_def split: option.splits)

section \<open>Properties\<close>

text \<open>
  Average-in, for any number of buys of one key: the cost and the tokens are the sums
  of the fills (capped at the top of 256 bits), all transaction hashes are kept in order,
  the opening block, clock, symbol and entry valuation stay those of the first buy and
  only the last-added block moves; every other position is untouched.
\<close>

lemma average_in:
  assumes "b (fill_key f) = None" and "\<forall>g \<in> set fs. fill_key g = fill_key f"
  shows "\<exists>p. fills now_ns b (f # fs) (fill_key f) = Some p
     \<and> unat (op_bnb_in p) = min (\<Sum>g\<leftarrow>f # fs. unat (fl_bnb_in g)) (2 ^ 256 - 1)
     \<and> unat (op_tokens_held p) = min (\<Sum>g\<leftarrow>f # fs. unat (fl_tokens_in g)) (2 ^ 256 - 1)
     \<and> op_buy_tx_hashes p = map fl_tx (f # fs)
     \<and> op_opened_at_block p = fl_block f \<and> op_opened_at_unix_ns p = now_ns
     \<and> op_token_symbol p = fl_symbol f \<and> op_our_entry_mcap_usd p = Fin 0
     \<and> op_last_added_block p = last (map fl_block (f # fs))
     \<and> (\<forall>k. k \<noteq> fill_key f \<longrightarrow> fills now_ns b (f # fs) k = b k)"
proof -
  let ?b1 = "b(fill_key f \<mapsto> first_fill now_ns f)"
  have step: "fills now_ns b (f # fs) = fills now_ns ?b1 fs"
    using assms(1) by (simp add: fills_def open_or_add_def)
  have "?b1 (fill_key f) = Some (first_fill now_ns f)" by simp
  then have present: "fills now_ns ?b1 fs (fill_key f)
      = Some (foldl (\<lambda>p f. add_fill f p) (first_fill now_ns f) fs)"
    by (rule fills_present) (rule assms(2))
  have other: "fills now_ns ?b1 fs k = b k" if "k \<noteq> fill_key f" for k
    using assms(2) that by (subst fills_other) auto
  show ?thesis
    using present add_fills_amounts [of "first_fill now_ns f" fs]
      add_fills_frame [of "first_fill now_ns f" fs] other
    by (intro exI [of _ "foldl (\<lambda>p f. add_fill f p) (first_fill now_ns f) fs"])
      (simp add: step first_fill_def del: fun_upd_apply)
qed

definition example_fill :: "u256 \<Rightarrow> u64 \<Rightarrow> fill" where
  "example_fill bnb blk = \<lparr>fl_portfolio = FastTip, fl_kol_name = ''D'', fl_token = 5,
     fl_symbol = ''X'', fl_decimals = 18, fl_bnb_in = bnb, fl_tokens_in = 7, fl_block = blk,
     fl_tx = 1\<rparr>"

text \<open>
  After any history of buys, valuations, closes and partial closes, every position is
  filed under its own (portfolio, KOL, token) and has at least one buy, so the positions a
  KOL's sell selects are exactly that KOL's open positions in that token.
\<close>

lemma book_keys_consistent:
  "\<forall>kol token. keys_for_kol_token (foldl book_step book_new es) kol token
       = op_key ` {p \<in> book_snapshot (foldl book_step book_new es).
                    op_kol_name p = kol \<and> op_token_address p = token \<and> op_buy_tx_hashes p \<noteq> []}"
  by (simp add: keys_for_positions [OF book.run_inv [OF book_new_inv]])

text \<open>
  Entry valuations latch: once a non-zero value is set, later calls never change it,
  and no other position is touched.
\<close>

lemma entry_mcaps_latch:
  assumes "b k = Some p"
  shows "\<exists>q. set_entry_mcaps (set_entry_mcaps b k d1 o1) k d2 o2 k = Some q
     \<and> (\<not> feq (op_d_mcap_usd p) (Fin 0) \<longrightarrow> op_d_mcap_usd q = op_d_mcap_usd p)
     \<and> (feq (op_d_mcap_usd p) (Fin 0) \<longrightarrow> \<not> feq d1 (Fin 0) \<longrightarrow> op_d_mcap_usd q = d1)
     \<and> (feq (op_our_entry_mcap_usd p) (Fin 0) \<longrightarrow> \<not> feq o1 (Fin 0) \<longrightarrow> op_our_entry_mcap_usd q = o1)
     \<and> op_bnb_in q = op_bnb_in p \<and> op_tokens_held q = op_tokens_held p"
  using assms by (simp add: set_entry_mcaps_def Let_def)

end
