(* ===== verification/PaperExecutor.thy ===== *)
theory PaperExecutor
  imports PaperPricing PositionBook KolBudget Blacklist
begin

text \<open>
  The paper executor of \<open>crates/bsc-runner/src/trader/paper.rs\<close>: entries, exits and the
  timeout sweep over the position book, the per-KOL budgets, the set of held tokens
  (\<open>held_tokens.rs\<close>) and the ledger of closed trades. What a handler reads from the node, the
  oracle and the clocks is its argument. The iteration order of the hash map is a function of
  the key set; parsing hashes and 256-bit numbers is alloy's.
\<close>

section \<open>State\<close>

record costs =
  co_slip_v2_bps :: u32
  co_slip_bonding_bps :: u32
  co_gas_per_trade_usd :: f64

record held_meta =
  hm_kol_name :: string
  hm_symbol :: string
  hm_entered_block :: u64
  hm_entered_unix_ns :: u64
  hm_bnb_in_wei :: u128

type_synonym held_tokens = "address \<rightharpoonup> held_meta"

definition held_insert :: "address \<Rightarrow> held_meta \<Rightarrow> held_tokens \<Rightarrow> held_tokens" where
  "held_insert token meta h = h(token \<mapsto> meta)"

definition held_remove :: "address \<Rightarrow> held_tokens \<Rightarrow> held_tokens" where
  "held_remove token h = h(token := None)"

record closed_trade =
  ct_portfolio :: portfolio_mode
  ct_kol_name :: string
  ct_token_address :: address
  ct_token_symbol :: string
  ct_bnb_in_wei :: u256
  ct_bnb_out_wei :: u256
  ct_tokens_traded :: u256
  ct_pnl_wei :: i128
  ct_pnl_pct :: f64
  ct_opened_at_block :: u64
  ct_opened_at_unix_ns :: u64
  ct_closed_at_block :: u64
  ct_closed_at_unix_ns :: u64
  ct_held_secs :: u64
  ct_buy_tx_count :: nat
  ct_close_reason :: close_reason
  ct_trigger_sell_tx :: "b256 option"
  ct_d_mcap_usd :: f64
  ct_our_entry_mcap_usd :: f64
  ct_bnb_usd_at_close :: f64
  ct_kol_exit_count :: u32
  ct_kol_exit_mcap_first_usd :: f64
  ct_kol_exit_mcap_last_usd :: f64
  ct_our_avg_exit_mcap_usd :: f64

record paper =
  pp_book :: position_book
  pp_held :: held_tokens
  pp_budgets :: "kol_budget_book option"
  pp_costs :: costs
  pp_has_archive :: bool
  pp_meter :: archive_meter
  pp_rows :: "closed_trade list"
  pp_saved :: "open_position set"

record paper_platform =
  pl_parse_hash :: "string \<Rightarrow> b256 option"
  pl_parse_u256 :: "string \<Rightarrow> u256 option"
  pl_order :: "position_key set \<Rightarrow> position_key list"

text \<open>On start the held set is filled from the restored positions, in the map's order.\<close>

definition rehydrate :: "(position_key set \<Rightarrow> position_key list) \<Rightarrow> position_book \<Rightarrow> held_tokens" where
  "rehydrate order b = foldl (\<lambda>h k. case b k of None \<Rightarrow> h
       | Some p \<Rightarrow> held_insert (op_token_address p)
           \<lparr>hm_kol_name = op_kol_name p, hm_symbol = op_token_symbol p, hm_entered_block = op_opened_at_block p,
            hm_entered_unix_ns = op_opened_at_unix_ns p, hm_bnb_in_wei = u128_of_u256 (op_bnb_in p)\<rparr> h)
     Map.empty (order (dom b))"

definition paper_new ::
  "(position_key set \<Rightarrow> position_key list) \<Rightarrow> position_book option \<Rightarrow> kol_budget_book option \<Rightarrow> costs \<Rightarrow> bool \<Rightarrow> paper" where
  "paper_new order loaded budgets costs has_archive =
     (let book = (case loaded of Some b \<Rightarrow> b | None \<Rightarrow> book_new) in
      \<lparr>pp_book = book, pp_held = rehydrate order book, pp_budgets = budgets, pp_costs = costs,
       pp_has_archive = has_archive, pp_meter = \<lparr>am_calls = 0, am_last_ns = 0\<rparr>, pp_rows = [],
       pp_saved = book_snapshot book\<rparr>)"

definition save_book :: "bool \<Rightarrow> paper \<Rightarrow> paper" where
  "save_book ok s = (if ok then s\<lparr>pp_saved := book_snapshot (pp_book s)\<rparr> else s)"

section \<open>Entries\<close>

record token_info =
  ti_symbol :: string
  ti_decimals :: u8

record enter_reads =
  er_budget_ns :: u64
  er_info :: "token_info option"
  er_quote :: http
  er_exec :: exec_reads
  er_fill :: fill_reads
  er_chain :: chain_reads
  er_bnb_usd :: "f64 option"
  er_mcap :: "json \<Rightarrow> reply"
  er_exec2 :: exec_reads
  er_head :: reply
  er_open_ns :: u64
  er_held_ns :: u64
  er_save_ok :: bool

definition whole_bnb :: "u256 \<Rightarrow> f64" where
  "whole_bnb wei = fdiv (f64_of_word wei) (flit (10 ^ 18))"

text \<open>Tokens for the stake at a price per whole token.\<close>

definition tokens_at_price :: "u256 \<Rightarrow> f64 \<Rightarrow> u8 \<Rightarrow> u256" where
  "tokens_at_price bnb_amount price decimals =
     f64_to_u256 (fmul (fdiv (whole_bnb bnb_amount) price) (pow10 decimals))"

text \<open>The quote before the KOL: a pool, or the price in his receipt.\<close>

definition raw_entry_quote ::
  "bool \<Rightarrow> enter_reads \<Rightarrow> u256 \<Rightarrow> address \<Rightarrow> u8 \<Rightarrow> archive_meter \<Rightarrow> quote_result option \<times> archive_meter" where
  "raw_entry_quote has_archive er bnb_amount token decimals m =
     (case simulate_buy (er_quote er) bnb_amount token None of
        Some q \<Rightarrow> (Some q, m)
      | None \<Rightarrow>
          (case kol_exec_price has_archive (er_exec er) token decimals True m of
             (Some price, m') \<Rightarrow>
               (if flt (Fin 0) price
                then Some \<lparr>qr_amount_out = tokens_at_price bnb_amount price decimals, qr_venue = Bonding,
                           qr_fee_tier = None\<rparr>
                else None, m')
           | (None, m') \<Rightarrow> (None, m')))"

text \<open>The fill one block after the KOL: measured where possible, else a haircut on the quote.\<close>

definition entry_fill ::
  "(string \<Rightarrow> b256 option) \<Rightarrow> bool \<Rightarrow> costs \<Rightarrow> enter_reads \<Rightarrow> u256 \<Rightarrow> address \<Rightarrow> u8 \<Rightarrow> quote_result
     \<Rightarrow> archive_meter \<Rightarrow> quote_result \<times> archive_meter" where
  "entry_fill parse_hash has_archive costs er bnb_amount token decimals raw_quote m =
     (if qr_venue raw_quote \<noteq> Bonding then
        (case measured_v2v3_fill has_archive (er_fill er) True bnb_amount token m of
           (Some q, m') \<Rightarrow> (q, m')
         | (None, m') \<Rightarrow>
             (raw_quote\<lparr>qr_amount_out := bps_haircut_u256 (qr_amount_out raw_quote) (co_slip_v2_bps costs)\<rparr>, m'))
      else
        (case measured_chain_swap_price parse_hash has_archive (er_chain er) True token decimals m of
           (p, m') \<Rightarrow>
             (raw_quote\<lparr>qr_amount_out :=
                (case p of
                   Some real_price \<Rightarrow>
                     if flt (Fin 0) real_price then tokens_at_price bnb_amount real_price decimals
                     else bps_haircut_u256 (qr_amount_out raw_quote) (co_slip_bonding_bps costs)
                 | None \<Rightarrow> bps_haircut_u256 (qr_amount_out raw_quote) (co_slip_bonding_bps costs))\<rparr>, m')))"

text \<open>The market caps at entry: the KOL's and ours.\<close>

definition entry_mcaps ::
  "bool \<Rightarrow> enter_reads \<Rightarrow> u256 \<Rightarrow> address \<Rightarrow> u8 \<Rightarrow> quote_result \<Rightarrow> archive_meter \<Rightarrow> (f64 \<times> f64) \<times> archive_meter" where
  "entry_mcaps has_archive er bnb_amount token decimals quote m =
     (let bnb_usd = (case er_bnb_usd er of Some p \<Rightarrow> p | None \<Rightarrow> Fin 0);
          out_tok = fdiv (f64_of_word (qr_amount_out quote)) (pow10 decimals);
          our_price = (if flt (Fin 0) out_tok then fdiv (whole_bnb bnb_amount) out_tok else Fin 0)
      in if qr_venue quote \<noteq> Bonding then
           (case pool_spot_and_supply (er_mcap er) token decimals of
              Some (spot_bnb, supply_whole) \<Rightarrow>
                ((fmul (fmul spot_bnb supply_whole) bnb_usd, fmul (fmul our_price supply_whole) bnb_usd), m)
            | None \<Rightarrow> ((Fin 0, Fin 0), m))
         else
           let supply_whole = (case total_supply_whole (er_mcap er) token decimals of Some x \<Rightarrow> x | None \<Rightarrow> Fin 0) in
           if flt (Fin 0) supply_whole then
             (case kol_exec_price has_archive (er_exec2 er) token decimals True m of
                (p, m') \<Rightarrow>
                  let kol_price = (case p of Some x \<Rightarrow> x | None \<Rightarrow> Fin 0)
                  in ((fmul (fmul kol_price supply_whole) bnb_usd, fmul (fmul our_price supply_whole) bnb_usd), m'))
           else ((Fin 0, Fin 0), m))"

text \<open>Filing the fill: one position per portfolio, then the held set and the snapshot on disk.\<close>

definition entry_fill_of ::
  "string \<Rightarrow> address \<Rightarrow> token_info \<Rightarrow> u256 \<Rightarrow> u256 \<Rightarrow> u64 \<Rightarrow> b256 \<Rightarrow> portfolio_mode \<Rightarrow> fill" where
  "entry_fill_of kol token info bnb_amount tokens now_block kol_tx mode =
     \<lparr>fl_portfolio = mode, fl_kol_name = kol, fl_token = token, fl_symbol = ti_symbol info,
      fl_decimals = ti_decimals info, fl_bnb_in = bnb_amount, fl_tokens_in = tokens, fl_block = now_block,
      fl_tx = kol_tx\<rparr>"

definition book_entry ::
  "enter_reads \<Rightarrow> string \<Rightarrow> address \<Rightarrow> token_info \<Rightarrow> u256 \<Rightarrow> u256 \<Rightarrow> b256 \<Rightarrow> f64 \<times> f64 \<Rightarrow> paper \<Rightarrow> paper" where
  "book_entry er kol token info bnb_amount tokens kol_tx mcaps s =
     (let now_block = (case paper_head_of (er_head er) of Some b \<Rightarrow> b | None \<Rightarrow> 0);
          fill = entry_fill_of kol token info bnb_amount tokens now_block kol_tx;
          book = foldl (\<lambda>b mode.
            set_entry_mcaps (open_or_add (er_open_ns er) b (fill mode)) (fill_key (fill mode)) (fst mcaps) (snd mcaps))
            (pp_book s) portfolio_ALL;
          meta = \<lparr>hm_kol_name = kol, hm_symbol = ti_symbol info, hm_entered_block = now_block,
                  hm_entered_unix_ns = er_held_ns er, hm_bnb_in_wei = sat_mul (u128_of_u256 bnb_amount) 2\<rparr>
      in save_book (er_save_ok er) (s\<lparr>pp_book := book, pp_held := held_insert token meta (pp_held s)\<rparr>))"

text \<open>The stake: the KOL's budget decides when there is one, and its cash is reserved.\<close>

definition entry_stake :: "u64 \<Rightarrow> string \<Rightarrow> u256 \<Rightarrow> paper \<Rightarrow> u256 option \<times> paper" where
  "entry_stake now_ns kol bnb_amount s =
     (case pp_budgets s of
        None \<Rightarrow> (Some bnb_amount, s)
      | Some bk \<Rightarrow> (case try_reserve now_ns bk kol of (r, bk') \<Rightarrow> (r, s\<lparr>pp_budgets := Some bk'\<rparr>)))"

definition entry_token :: "address \<Rightarrow> u8 list \<Rightarrow> address option" where
  "entry_token token calldata = (if token \<noteq> 0 then Some token else extract_target_token calldata)"

definition handle_enter ::
  "paper_platform \<Rightarrow> enter_reads \<Rightarrow> string \<Rightarrow> address \<Rightarrow> u8 list \<Rightarrow> u256 \<Rightarrow> b256 \<Rightarrow> paper \<Rightarrow> paper" where
  "handle_enter pl er kol token calldata bnb_amount kol_tx s =
     (case entry_token token calldata of
        None \<Rightarrow> s
      | Some token_addr \<Rightarrow>
          if is_blacklisted token_addr then s
          else case entry_stake (er_budget_ns er) kol bnb_amount s of
            (None, s1) \<Rightarrow> s1
          | (Some stake, s1) \<Rightarrow>
              (case er_info er of
                 None \<Rightarrow> s1
               | Some info \<Rightarrow>
                   (case raw_entry_quote (pp_has_archive s1) er stake token_addr (ti_decimals info) (pp_meter s1) of
                      (None, m) \<Rightarrow> s1\<lparr>pp_meter := m\<rparr>
                    | (Some raw_quote, m) \<Rightarrow>
                        let (quote, m1) = entry_fill (pl_parse_hash pl) (pp_has_archive s1) (pp_costs s1) er stake
                                            token_addr (ti_decimals info) raw_quote m;
                            (mcaps, m2) = entry_mcaps (pp_has_archive s1) er stake token_addr (ti_decimals info) quote m1
                        in book_entry er kol token_addr info stake (qr_amount_out quote) kol_tx mcaps
                             (s1\<lparr>pp_meter := m2\<rparr>))))"

section \<open>Closing\<close>

record close_reads =
  cl_head :: reply
  cl_fill :: fill_reads
  cl_sell :: http
  cl_bnb_usd :: "f64 option"
  cl_chain :: chain_reads
  cl_exec :: exec_reads
  cl_supply :: "json \<Rightarrow> reply"
  cl_exec2 :: exec_reads
  cl_closed_ns :: u64
  cl_budget_ns :: u64
  cl_append_ok :: bool
  cl_save_ok :: bool

text \<open>The slice a close sells: all of the position from 99 per cent on, else the fraction of it.\<close>

record slice_of =
  sl_full :: bool
  sl_tokens :: u256
  sl_bnb_in :: u256
  sl_rest_tokens :: u256
  sl_rest_bnb :: u256

definition close_slice :: "open_position \<Rightarrow> f64 \<Rightarrow> slice_of" where
  "close_slice p fraction0 =
     (let fraction = fclamp (Fin 0) (Fin 1) fraction0;
          full = fle (flit (99 / 100)) fraction;
          tokens = (if full then op_tokens_held p else scale_u256_by_fraction (op_tokens_held p) fraction);
          bnb = (if full then op_bnb_in p else scale_u256_by_fraction (op_bnb_in p) fraction)
      in \<lparr>sl_full = full, sl_tokens = tokens, sl_bnb_in = bnb,
          sl_rest_tokens = (if full then 0 else saturating_sub_u256 (op_tokens_held p) tokens),
          sl_rest_bnb = (if full then 0 else saturating_sub_u256 (op_bnb_in p) bnb)\<rparr>)"

definition round_trip_gas_wei :: "costs \<Rightarrow> f64 \<Rightarrow> u128" where
  "round_trip_gas_wei costs bnb_usd =
     (if flt (Fin 0) bnb_usd
      then f64_to_word (fmax (fmul (fdiv (fmul (co_gas_per_trade_usd costs) (Fin 2)) bnb_usd) (flit (10 ^ 18))) (Fin 0))
      else 0)"

text \<open>
  What the slice brings, after slippage and gas: the pool at the block after the KOL's sell,
  the pool now, the swaps after the sell, the KOL's own price, or nothing to go by.
\<close>

definition exit_value ::
  "(string \<Rightarrow> b256 option) \<Rightarrow> bool \<Rightarrow> costs \<Rightarrow> close_reads \<Rightarrow> open_position \<Rightarrow> slice_of \<Rightarrow> close_reason
     \<Rightarrow> b256 option \<Rightarrow> archive_meter \<Rightarrow> (u256 \<times> close_reason) \<times> archive_meter" where
  "exit_value parse_hash has_archive costs cl p sl reason trigger m =
     (let token = op_token_address p; decimals = op_token_decimals p; sell_tokens = sl_tokens sl;
          (measured, m1) = (case trigger of
             Some _ \<Rightarrow> measured_v2v3_fill has_archive (cl_fill cl) False sell_tokens token m
           | None \<Rightarrow> (None, m));
          quote = (case measured of Some q \<Rightarrow> Some q | None \<Rightarrow> simulate_sell (cl_sell cl) sell_tokens token None);
          bnb_usd = (case cl_bnb_usd cl of Some x \<Rightarrow> x | None \<Rightarrow> Fin 0);
          gas = ucast (round_trip_gas_wei costs bnb_usd) :: u256
      in if (case quote of Some q \<Rightarrow> qr_amount_out q \<noteq> 0 | None \<Rightarrow> False) then
           let out = qr_amount_out (the quote);
               after_slip = (if measured \<noteq> None then out else bps_haircut_u256 out (co_slip_v2_bps costs))
           in ((saturating_sub_u256 after_slip gas, reason), m1)
         else
           let (chain, m2) = (case trigger of
                 Some _ \<Rightarrow> measured_chain_swap_price parse_hash has_archive (cl_chain cl) False token decimals m1
               | None \<Rightarrow> (None, m1));
               (priced, m3) = (case chain of
                 Some px \<Rightarrow> (Some px, m2)
               | None \<Rightarrow> (case trigger of
                   Some _ \<Rightarrow> kol_exec_price has_archive (cl_exec cl) token decimals False m2
                 | None \<Rightarrow> (None, m2)))
           in (case priced of
                 None \<Rightarrow> ((sl_bnb_in sl, PriceUnavailable), m3)
               | Some px \<Rightarrow>
                   if flt (Fin 0) px then
                     let pre = f64_to_u256 (fmul (fmul (fdiv (f64_of_word sell_tokens) (pow10 decimals)) px) (flit (10 ^ 18)));
                         after_slip = (if chain \<noteq> None then pre else bps_haircut_u256 pre (co_slip_bonding_bps costs))
                     in ((saturating_sub_u256 after_slip gas, reason), m3)
                   else ((sl_bnb_in sl, PriceUnavailable), m3)))"

definition exit_pnl_wei :: "u256 \<Rightarrow> u256 \<Rightarrow> i128" where
  "exit_pnl_wei bnb_out bnb_in =
     i128_sat (sint (i128_of_u128 (u128_of_u256 bnb_out)) - sint (i128_of_u128 (u128_of_u256 bnb_in)))"

definition exit_pnl_pct :: "u256 \<Rightarrow> u256 \<Rightarrow> f64" where
  "exit_pnl_pct bnb_out bnb_in =
     (if bnb_in = 0 then Fin 0
      else fdiv (fsub (f64_of_word bnb_out) (f64_of_word bnb_in)) (f64_of_word bnb_in))"

definition exit_mcaps ::
  "bool \<Rightarrow> close_reads \<Rightarrow> open_position \<Rightarrow> u256 \<Rightarrow> u256 \<Rightarrow> b256 option \<Rightarrow> archive_meter \<Rightarrow> (f64 \<times> f64) \<times> archive_meter" where
  "exit_mcaps has_archive cl p sell_tokens bnb_out trigger m =
     (let token = op_token_address p; decimals = op_token_decimals p;
          bnb_usd = (case cl_bnb_usd cl of Some x \<Rightarrow> x | None \<Rightarrow> Fin 0);
          supply_whole = (case trigger of
             Some _ \<Rightarrow> (case total_supply_whole (cl_supply cl) token decimals of Some x \<Rightarrow> x | None \<Rightarrow> Fin 0)
           | None \<Rightarrow> Fin 0)
      in if flt (Fin 0) supply_whole then
           (case kol_exec_price has_archive (cl_exec2 cl) token decimals False m of
              (px, m') \<Rightarrow>
                let kol_px = (case px of Some x \<Rightarrow> x | None \<Rightarrow> Fin 0);
                    toks_whole = fdiv (f64_of_word sell_tokens) (pow10 decimals);
                    our_px = (if flt (Fin 0) toks_whole then fdiv (whole_bnb bnb_out) toks_whole else Fin 0)
                in ((fmul (fmul kol_px supply_whole) bnb_usd, fmul (fmul our_px supply_whole) bnb_usd), m'))
         else ((Fin 0, Fin 0), m))"

definition trade_of ::
  "close_reads \<Rightarrow> open_position \<Rightarrow> slice_of \<Rightarrow> u256 \<Rightarrow> close_reason \<Rightarrow> b256 option \<Rightarrow> f64 \<times> f64 \<Rightarrow> closed_trade" where
  "trade_of cl p sl bnb_out reason trigger mcaps =
     \<lparr>ct_portfolio = op_portfolio p, ct_kol_name = op_kol_name p, ct_token_address = op_token_address p,
      ct_token_symbol = op_token_symbol p, ct_bnb_in_wei = sl_bnb_in sl, ct_bnb_out_wei = bnb_out,
      ct_tokens_traded = sl_tokens sl, ct_pnl_wei = exit_pnl_wei bnb_out (sl_bnb_in sl),
      ct_pnl_pct = exit_pnl_pct bnb_out (sl_bnb_in sl), ct_opened_at_block = op_opened_at_block p,
      ct_opened_at_unix_ns = op_opened_at_unix_ns p,
      ct_closed_at_block = (case paper_head_of (cl_head cl) of Some b \<Rightarrow> b | None \<Rightarrow> 0),
      ct_closed_at_unix_ns = cl_closed_ns cl,
      ct_held_secs = sat_sub (cl_closed_ns cl) (op_opened_at_unix_ns p) div 1000000000,
      ct_buy_tx_count = length (op_buy_tx_hashes p), ct_close_reason = reason, ct_trigger_sell_tx = trigger,
      ct_d_mcap_usd = op_d_mcap_usd p, ct_our_entry_mcap_usd = op_our_entry_mcap_usd p,
      ct_bnb_usd_at_close = (case cl_bnb_usd cl of Some x \<Rightarrow> x | None \<Rightarrow> Fin 0),
      ct_kol_exit_count = (if trigger \<noteq> None then 1 else 0),
      ct_kol_exit_mcap_first_usd = fst mcaps, ct_kol_exit_mcap_last_usd = fst mcaps,
      ct_our_avg_exit_mcap_usd = snd mcaps\<rparr>"

text \<open>Settling: credit the budget, write the row, shrink or drop the position, update the held set.\<close>

definition settle ::
  "close_reads \<Rightarrow> position_key \<Rightarrow> open_position \<Rightarrow> slice_of \<Rightarrow> closed_trade \<Rightarrow> paper \<Rightarrow> paper" where
  "settle cl key p sl trade s =
     (let budgets = map_option (\<lambda>bk. credit_close (cl_budget_ns cl) bk (op_kol_name p) (sl_bnb_in sl) (ct_bnb_out_wei trade))
            (pp_budgets s);
          rows = (if cl_append_ok cl then pp_rows s @ [trade] else pp_rows s);
          book = (if sl_full sl then snd (book_remove (pp_book s) key)
                  else shrink (pp_book s) key (sl_rest_tokens sl) (sl_rest_bnb sl));
          token_still_held = (pk_token key \<in> pk_token ` dom book);
          held = (if token_still_held then pp_held s else held_remove (pk_token key) (pp_held s))
      in save_book (cl_save_ok cl)
           (s\<lparr>pp_budgets := budgets, pp_rows := rows, pp_book := book, pp_held := held\<rparr>))"

text \<open>
  A close first copies the position and then, with the book unlocked, prices the slice and
  settles. \<open>close_taken\<close> is everything after the copy.
\<close>

definition close_taken ::
  "paper_platform \<Rightarrow> close_reads \<Rightarrow> position_key \<Rightarrow> open_position \<Rightarrow> close_reason \<Rightarrow> b256 option \<Rightarrow> f64 \<Rightarrow> paper \<Rightarrow> paper" where
  "close_taken pl cl key p reason trigger fraction s =
     (let sl = close_slice p fraction in
      if sl_tokens sl = 0 then s
      else let ((bnb_out, final_reason), m) =
                 exit_value (pl_parse_hash pl) (pp_has_archive s) (pp_costs s) cl p sl reason trigger (pp_meter s);
               (mcaps, m') = exit_mcaps (pp_has_archive s) cl p (sl_tokens sl) bnb_out trigger m
           in settle cl key p sl (trade_of cl p sl bnb_out final_reason trigger mcaps) (s\<lparr>pp_meter := m'\<rparr>))"

definition close_one ::
  "paper_platform \<Rightarrow> close_reads \<Rightarrow> position_key \<Rightarrow> close_reason \<Rightarrow> b256 option \<Rightarrow> f64 \<Rightarrow> paper \<Rightarrow> paper" where
  "close_one pl cl key reason trigger fraction s =
     (case book_get (pp_book s) key of
        None \<Rightarrow> s
      | Some p \<Rightarrow> close_taken pl cl key p reason trigger fraction s)"

record exit_reads =
  xs_local :: "u64 \<Rightarrow> reply"
  xs_archive :: "u64 \<Rightarrow> reply"
  xs_close :: "position_key \<Rightarrow> close_reads"

definition handle_exit ::
  "paper_platform \<Rightarrow> exit_reads \<Rightarrow> string \<Rightarrow> address \<Rightarrow> b256 \<Rightarrow> u64 \<Rightarrow> address \<Rightarrow> paper \<Rightarrow> paper" where
  "handle_exit pl xs kol token sell_tx kol_block kol_addr s =
     (let keys = pl_order pl (keys_for_kol_token (pp_book s) kol token);
          fraction = (case paper_sell_fraction (pl_parse_u256 pl) (pp_has_archive s) (xs_local xs) (xs_archive xs)
                             kol_addr kol_block of Some f \<Rightarrow> f | None \<Rightarrow> Fin 1)
      in foldl (\<lambda>s key. close_one pl (xs_close xs key) key KolSell (Some sell_tx) fraction s) s keys)"

definition sweep_timeouts :: "paper_platform \<Rightarrow> (position_key \<Rightarrow> close_reads) \<Rightarrow> u64 \<Rightarrow> u64 \<Rightarrow> paper \<Rightarrow> paper" where
  "sweep_timeouts pl cls now_ns hold_ns s =
     (let cutoff_ns = sat_sub now_ns hold_ns;
          keys = pl_order pl (opened_before (pp_book s) cutoff_ns)
      in foldl (\<lambda>s key. close_one pl (cls key) key HoldTimeout None (Fin 1) s) s keys)"

section \<open>The executor as an event-driven component\<close>

definition paper_execute ::
  "paper_platform \<Rightarrow> enter_reads \<Rightarrow> exit_reads \<Rightarrow> decision \<Rightarrow> u8 list \<Rightarrow> paper \<Rightarrow> paper" where
  "paper_execute pl er xs d calldata s =
     (case d of
        Skip _ \<Rightarrow> s
      | Exit kol token kol_block kol_tx kol_addr \<Rightarrow> handle_exit pl xs kol token kol_tx kol_block kol_addr s
      | Enter kol token bnb_amount _ _ kol_tx \<Rightarrow> handle_enter pl er kol token calldata bnb_amount kol_tx s)"

datatype paper_event =
    PaperDecision enter_reads exit_reads decision "u8 list"
  | PaperSweep "position_key \<Rightarrow> close_reads" u64 u64

fun paper_step :: "paper_platform \<Rightarrow> paper \<Rightarrow> paper_event \<Rightarrow> paper" where
  "paper_step pl s (PaperDecision er xs d calldata) = paper_execute pl er xs d calldata s"
| "paper_step pl s (PaperSweep cls now_ns hold_ns) = sweep_timeouts pl cls now_ns hold_ns s"

end
