(* ===== verification/Telegram.thy ===== *)
theory Telegram
  imports PaperExecutor "HOL-Library.Sublist"
begin

text \<open>
  The Telegram messages of \<open>kol_watch.rs\<close> (a pending KOL transaction) and of
  \<open>trader/paper.rs\<close> (entries and closes of the paper book), and the sending loop they share.
  Strings are byte strings, so an emoji is its UTF-8 bytes. How a float prints
  (\<open>{:.n}\<close> and \<open>{:+.n}\<close>) is an argument of the formatters; the HTTP exchange of the sender
  is an argument as well.
\<close>

section \<open>Text pieces\<close>

definition utf8 :: "nat list \<Rightarrow> string" where
  "utf8 bs = map char_of bs"

definition newline :: string where
  "newline = [CHR 0x0A]"

definition dquote :: string where
  "dquote = [CHR 0x22]"

definition middle_dot :: string where
  "middle_dot = '' '' @ utf8 [0xC2, 0xB7] @ '' ''"

definition str_replace_char :: "char \<Rightarrow> string \<Rightarrow> string \<Rightarrow> string" where
  "str_replace_char c by s = concat (map (\<lambda>x. if x = c then by else [x]) s)"

definition html_escape :: "string \<Rightarrow> string" where
  "html_escape s =
     str_replace_char (CHR ''>'') ''&gt;''
       (str_replace_char (CHR ''<'') ''&lt;'' (str_replace_char (CHR ''&'') ''&amp;'' s))"

definition short_addr :: "string \<Rightarrow> string" where
  "short_addr addr =
     (if length addr < 14 then addr
      else take 8 addr @ utf8 [0xE2, 0x80, 0xA6] @ drop (length addr - 4) addr)"

definition action_emoji :: "string option \<Rightarrow> string" where
  "action_emoji method_label = (case method_label of
       None \<Rightarrow> utf8 [0xE2, 0x9D, 0x93]
     | Some m \<Rightarrow>
         if m = ''BNB transfer'' then utf8 [0xF0, 0x9F, 0x92, 0xB8]
         else if m = ''BEP20 transfer'' \<or> m = ''BEP20 transferFrom'' then utf8 [0xF0, 0x9F, 0xAA, 0x99]
         else if m = ''BEP20 approve'' then utf8 [0xE2, 0x9C, 0x85]
         else if m = ''GMGN swap'' then utf8 [0xF0, 0x9F, 0x90, 0xB8]
         else if sublist ''swap'' m \<or> sublist ''Swap'' m \<or> sublist ''Pancake'' m
           then utf8 [0xF0, 0x9F, 0x92, 0xB1]
         else utf8 [0xF0, 0x9F, 0x94, 0xA7])"

text \<open>A float printer: the number of decimals, then the value.\<close>

type_synonym float_printer = "nat \<Rightarrow> f64 \<Rightarrow> string"

definition format_value :: "float_printer \<Rightarrow> f64 \<Rightarrow> string option" where
  "format_value pf bnb =
     (if fle bnb (Fin 0) then None
      else Some ((if fle (Fin 100) bnb then pf 0 bnb
                  else if fle (Fin 1) bnb then pf 2 bnb
                  else if fle (flit (1 / 1000)) bnb then pf 4 bnb
                  else pf 6 bnb) @ '' BNB''))"

definition format_gwei :: "float_printer \<Rightarrow> f64 \<Rightarrow> string" where
  "format_gwei pf g =
     (if fle (Fin 100) g then pf 0 g
      else if fle (Fin 10) g then pf 1 g
      else if fle (Fin 1) g then pf 2 g
      else pf 3 g) @ '' gwei''"

definition two_digits :: "nat \<Rightarrow> string" where
  "two_digits n = (if n < 10 then ''0'' else []) @ show_nat n"

definition now_hms_utc :: "u64 \<Rightarrow> string" where
  "now_hms_utc secs =
     (let n = unat secs in
      two_digits (n div 3600 mod 24) @ '':'' @ two_digits (n div 60 mod 60) @ '':''
        @ two_digits (n mod 60) @ '' UTC'')"

section \<open>The pending alert\<close>

definition group_part :: "kol_hit \<Rightarrow> string" where
  "group_part h =
     (let group = (case kh_kol_groups h of [] \<Rightarrow> [] | g # _ \<Rightarrow> html_escape g)
      in if group = [] then [] else middle_dot @ ''<i>'' @ group @ ''</i>'')"

definition side_part :: "kol_hit \<Rightarrow> string" where
  "side_part h =
     (if kh_side h = Some ''BUY'' then utf8 [0xF0, 0x9F, 0x9F, 0xA9] @ '' <b>BUY</b> ''
      else if kh_side h = Some ''SELL'' then utf8 [0xF0, 0x9F, 0x9F, 0xA5] @ '' <b>SELL</b> ''
      else [])"

definition hit_body :: "float_printer \<Rightarrow> kol_hit \<Rightarrow> string" where
  "hit_body pf h =
     (let m = html_escape (case kh_method_label h of Some l \<Rightarrow> l | None \<Rightarrow> kh_method_id h)
      in side_part h @ action_emoji (kh_method_label h) @ '' <b>'' @ m @ ''</b>''
         @ (case format_value pf (kh_value_bnb h) of
              Some v \<Rightarrow> '' '' @ utf8 [0xE2, 0x80, 0x94] @ '' '' @ html_escape v | None \<Rightarrow> [])
         @ middle_dot @ html_escape (format_gwei pf (kh_gas_price_gwei h)))"

definition token_line :: "kol_hit \<Rightarrow> string option \<Rightarrow> string" where
  "token_line h token_label = (case kh_token h of
       None \<Rightarrow> []
     | Some addr \<Rightarrow>
         let a = addr_text addr;
             sym = (case token_label of Some s \<Rightarrow> ''<b>'' @ html_escape s @ ''</b> '' | None \<Rightarrow> [])
         in newline @ utf8 [0xF0, 0x9F, 0x8E, 0xAF] @ '' '' @ sym @ ''<a href='' @ dquote
            @ ''https://gmgn.ai/bsc/token/'' @ a @ dquote @ ''>'' @ short_addr a @ ''</a>'')"

definition format_telegram_html :: "float_printer \<Rightarrow> u64 \<Rightarrow> kol_hit \<Rightarrow> string option \<Rightarrow> string" where
  "format_telegram_html pf now_secs h token_label =
     (let emoji = (case kh_kol_emoji h of Some e \<Rightarrow> e | None \<Rightarrow> utf8 [0xF0, 0x9F, 0x90, 0x90]);
          decoded = (case kh_decoded h of
            Some d \<Rightarrow> newline @ utf8 [0xF0, 0x9F, 0x92, 0x8E] @ '' <b>'' @ html_escape d @ ''</b>'' | None \<Rightarrow> []);
          dest = (case kh_to_label h of
            Some l \<Rightarrow> newline @ utf8 [0xF0, 0x9F, 0x93, 0x8D] @ '' via <code>'' @ html_escape l @ ''</code>'' | None \<Rightarrow> []);
          meta = ''<i>nonce '' @ show_nat (unat (kh_nonce h)) @ middle_dot @ html_escape (now_hms_utc now_secs) @ ''</i>''
      in utf8 [0xF0, 0x9F, 0x9F, 0xA2] @ '' <b>PENDING</b>'' @ middle_dot @ ''BSC'' @ newline @ newline
         @ emoji @ '' <b>KOL '' @ html_escape (kh_kol_name h) @ ''</b>'' @ group_part h @ newline
         @ hit_body pf h @ token_line h token_label @ decoded @ dest @ newline @ meta)"

section \<open>The alerts of the paper book\<close>

definition format_bnb :: "float_printer \<Rightarrow> u256 \<Rightarrow> string" where
  "format_bnb pf wei =
     (let bnb = fdiv (f64_of_word wei) (flit (10 ^ 18))
      in (if fle (Fin 1) bnb then pf 3 bnb
          else if fle (flit (1 / 1000)) bnb then pf 4 bnb
          else pf 6 bnb) @ '' BNB'')"

definition format_enter_alert ::
  "float_printer \<Rightarrow> string \<Rightarrow> string \<Rightarrow> address \<Rightarrow> u256 \<Rightarrow> u256 \<Rightarrow> quote_result \<Rightarrow> b256 \<Rightarrow> string" where
  "format_enter_alert pf kol_name token_symbol token_addr bnb_amount kol_bnb_input q kol_tx =
     (let size_pct = fmul (fdiv (f64_of_word bnb_amount) (f64_of_word kol_bnb_input)) (Fin 100);
          fee = (case qr_fee_tier q of
            Some f \<Rightarrow> '' (fee '' @ pf 2 (fdiv (f64_of_word f) (Fin 10000)) @ ''%)'' | None \<Rightarrow> [])
      in utf8 [0xF0, 0x9F, 0x9F, 0xA2] @ '' <b>PAPER ENTRY</b>'' @ newline @ newline
         @ utf8 [0xF0, 0x9F, 0x91, 0xA4] @ '' KOL '' @ html_escape kol_name @ newline
         @ utf8 [0xF0, 0x9F, 0x92, 0xB0] @ '' in:  '' @ format_bnb pf bnb_amount @ ''  ('' @ pf 1 size_pct
         @ ''% of KOL'' @ [CHR 0x27] @ ''s '' @ format_bnb pf kol_bnb_input @ '')'' @ newline
         @ utf8 [0xF0, 0x9F, 0x8E, 0xAF] @ '' token:  <b>'' @ html_escape token_symbol @ ''</b>  <code>''
         @ addr_text token_addr @ ''</code>'' @ newline
         @ utf8 [0xF0, 0x9F, 0x92, 0xB1] @ '' venue:  '' @ venue_label (qr_venue q) @ fee @ newline
         @ utf8 [0xF0, 0x9F, 0xA7, 0xBE] @ '' KOL tx:  <a href='' @ dquote @ ''https://bscscan.com/tx/''
         @ hash_text kol_tx @ dquote @ ''>view</a>'')"

definition format_close_alert :: "float_printer \<Rightarrow> float_printer \<Rightarrow> closed_trade \<Rightarrow> string" where
  "format_close_alert pf pf_signed trade =
     (let icon = (if 0 \<le> sint (ct_pnl_wei trade) then utf8 [0xF0, 0x9F, 0x9F, 0xA2] else utf8 [0xF0, 0x9F, 0x94, 0xB4])
      in icon @ '' <b>PAPER CLOSE</b>'' @ middle_dot @ portfolio_label (ct_portfolio trade) @ newline @ newline
         @ utf8 [0xF0, 0x9F, 0x91, 0xA4] @ '' KOL '' @ html_escape (ct_kol_name trade) @ newline
         @ utf8 [0xF0, 0x9F, 0x8E, 0xAF] @ '' <b>'' @ html_escape (ct_token_symbol trade) @ ''</b>  <code>''
         @ addr_text (ct_token_address trade) @ ''</code>'' @ newline
         @ utf8 [0xF0, 0x9F, 0x92, 0xB0] @ '' in '' @ format_bnb pf (ct_bnb_in_wei trade) @ ''  ''
         @ utf8 [0xE2, 0x86, 0x92] @ ''  out '' @ format_bnb pf (ct_bnb_out_wei trade) @ newline
         @ utf8 [0xF0, 0x9F, 0x93, 0x8A] @ '' PnL:  <b>'' @ pf_signed 2 (fmul (ct_pnl_pct trade) (Fin 100)) @ ''%</b>'' @ newline
         @ utf8 [0xE2, 0x8F, 0xB1] @ ''  held '' @ show_nat (unat (ct_held_secs trade)) @ ''s'' @ newline
         @ utf8 [0xF0, 0x9F, 0x9B, 0x91] @ '' reason:  '' @ close_label (ct_close_reason trade))"

section \<open>Sending\<close>

text \<open>The answer to a post: its status and the body as JSON, or no answer at all.\<close>

datatype post_result = Posted nat "json option" | PostFailed

datatype send_outcome = AlertSent | AlertFailed | AlertGivenUp

definition parse_retry_after :: "json option \<Rightarrow> u64 option" where
  "parse_retry_after body =
     Option.bind body (\<lambda>v. Option.bind (jget v ''parameters'') (\<lambda>p. Option.bind (jget p ''retry_after'')
       (\<lambda>n. case n of JNum k \<Rightarrow> if 0 \<le> k \<and> k < 2 ^ 64 then Some (of_int k) else None | _ \<Rightarrow> None)))"

text \<open>The attempts still to make, and the seconds slept so far.\<close>

fun send_attempts :: "(nat \<Rightarrow> post_result) \<Rightarrow> nat list \<Rightarrow> u64 list \<Rightarrow> send_outcome \<times> u64 list" where
  "send_attempts post [] slept = (AlertGivenUp, slept)"
| "send_attempts post (attempt # rest) slept =
     (case post attempt of
        PostFailed \<Rightarrow> (AlertFailed, slept)
      | Posted status body \<Rightarrow>
          if 200 \<le> status \<and> status < 300 then (AlertSent, slept)
          else if status = 429 \<and> attempt = 0 then
            send_attempts post rest (slept @ [case parse_retry_after body of Some s \<Rightarrow> s | None \<Rightarrow> 5])
          else (AlertFailed, slept))"

definition send_one :: "(nat \<Rightarrow> post_result) \<Rightarrow> send_outcome \<times> u64 list" where
  "send_one post = send_attempts post [0, 1] []"

lemma send_one_never_gives_up: "fst (send_one post) \<noteq> AlertGivenUp \<and> length (snd (send_one post)) \<le> 1"
  by (simp add: send_one_def split: post_result.splits)

text \<open>The requests: the text of a message, for a KOL hit with two rows of buttons under it.\<close>

definition scan_button :: "string \<Rightarrow> string \<Rightarrow> json" where
  "scan_button label path = JObj [(''text'', JStr label), (''url'', JStr (''https://bscscan.com/'' @ path))]"

definition build_inline_keyboard :: "kol_hit \<Rightarrow> json" where
  "build_inline_keyboard h =
     JArr [JArr [scan_button (utf8 [0xF0, 0x9F, 0x94, 0x8D] @ '' BscScan tx'') (''tx/'' @ kh_tx_hash h)],
       JArr (scan_button (utf8 [0xF0, 0x9F, 0x91, 0xA4] @ '' '' @ kh_kol_name h) (''address/'' @ kh_from_addr h)
         # (case kh_to_addr h of
              None \<Rightarrow> []
            | Some to_addr \<Rightarrow> [scan_button (utf8 [0xF0, 0x9F, 0x8E, 0xAF] @ '' ''
                  @ (case kh_to_label h of Some l \<Rightarrow> l | None \<Rightarrow> short_addr to_addr)) (''address/'' @ to_addr)]))]"

definition alert_request :: "int \<Rightarrow> string \<Rightarrow> json" where
  "alert_request chat_id html_text =
     JObj [(''chat_id'', JNum chat_id), (''text'', JStr html_text), (''parse_mode'', JStr ''HTML''),
       (''disable_web_page_preview'', JBool True)]"

definition hit_request :: "float_printer \<Rightarrow> u64 \<Rightarrow> int \<Rightarrow> kol_hit \<Rightarrow> string option \<Rightarrow> json" where
  "hit_request pf now chat_id h token_label =
     JObj [(''chat_id'', JNum chat_id), (''text'', JStr (format_telegram_html pf now h token_label)),
       (''parse_mode'', JStr ''HTML''), (''disable_web_page_preview'', JBool True),
       (''reply_markup'', JObj [(''inline_keyboard'', build_inline_keyboard h)])]"

text \<open>The alerter of the paper trader sends under the same rule.\<close>

definition alerter_send :: "(nat \<Rightarrow> post_result) \<Rightarrow> send_outcome \<times> u64 list" where
  "alerter_send post = send_attempts post [0, 1] []"

section \<open>Escaped text carries no markup\<close>

definition is_markup :: "char \<Rightarrow> bool" where
  "is_markup c \<longleftrightarrow> c = CHR ''<'' \<or> c = CHR ''>''"

text \<open>The angle brackets of a message, in order: its tag skeleton.\<close>

definition markup :: "string \<Rightarrow> string" where
  "markup s = filter is_markup s"

lemma markup_append [simp]: "markup (s @ t) = markup s @ markup t"
  by (simp add: markup_def)

lemma html_escape_Cons:
  "html_escape (c # s) =
     (if c = CHR ''&'' then ''&amp;'' else if c = CHR ''<'' then ''&lt;'' else if c = CHR ''>'' then ''&gt;'' else [c])
     @ html_escape s"
  by (simp add: html_escape_def str_replace_char_def)

lemma markup_none [simp]: "markup (html_escape s) = []"
proof (induction s)
  case Nil
  show ?case by (simp add: markup_def html_escape_def str_replace_char_def)
next
  case (Cons c s)
  then show ?case by (simp add: markup_def html_escape_Cons is_markup_def)
qed

text \<open>Resolving the three entities, as Telegram does with the text of an HTML message.\<close>

function html_unescape :: "string \<Rightarrow> string" where
  "html_unescape s =
     (if s = [] then []
      else if take 5 s = ''&amp;'' then CHR ''&'' # html_unescape (drop 5 s)
      else if take 4 s = ''&lt;'' then CHR ''<'' # html_unescape (drop 4 s)
      else if take 4 s = ''&gt;'' then CHR ''>'' # html_unescape (drop 4 s)
      else hd s # html_unescape (tl s))"
  by pat_completeness auto
termination
  by (relation "measure length") auto

declare html_unescape.simps [simp del]

lemma html_unescape_plain: "c \<noteq> CHR ''&'' \<Longrightarrow> html_unescape (c # s) = c # html_unescape s"
  by (subst html_unescape.simps) (simp add: numeral_eq_Suc)

lemma html_unescape_entity:
  "html_unescape (''&amp;'' @ s) = CHR ''&'' # html_unescape s"
  "html_unescape (''&lt;'' @ s) = CHR ''<'' # html_unescape s"
  "html_unescape (''&gt;'' @ s) = CHR ''>'' # html_unescape s"
  by (subst html_unescape.simps, simp add: numeral_eq_Suc)+

lemma html_unescape_escape: "html_unescape (html_escape s) = s"
proof (induction s)
  case Nil
  show ?case by (simp add: html_escape_def str_replace_char_def html_unescape.simps)
next
  case (Cons c s)
  then show ?case using html_unescape_entity [of "html_escape s"] by (auto simp: html_escape_Cons html_unescape_plain)
qed

lemma pending_markup_fixed:
  "markup (format_telegram_html pf now (h\<lparr>kh_kol_name := name\<rparr>) (Some symbol))
     = markup (format_telegram_html pf now (h\<lparr>kh_kol_name := name'\<rparr>) (Some symbol'))"
proof -
  have "hit_body pf (h\<lparr>kh_kol_name := n\<rparr>) = hit_body pf h" "group_part (h\<lparr>kh_kol_name := n\<rparr>) = group_part h" for n
    by (cases h, simp only: hit_body_def side_part_def group_part_def kol_hit.simps)+
  moreover have "markup (token_line (h\<lparr>kh_kol_name := name\<rparr>) (Some symbol))
      = markup (token_line (h\<lparr>kh_kol_name := name'\<rparr>) (Some symbol'))"
  proof -
    have "kh_token (h\<lparr>kh_kol_name := n\<rparr>) = kh_token h" for n by simp
    then show ?thesis
      by (cases "kh_token h") (simp_all only: token_line_def Let_def option.case markup_append markup_none)
  qed
  moreover have "kh_kol_emoji (h\<lparr>kh_kol_name := n\<rparr>) = kh_kol_emoji h"
      "kh_decoded (h\<lparr>kh_kol_name := n\<rparr>) = kh_decoded h"
      "kh_to_label (h\<lparr>kh_kol_name := n\<rparr>) = kh_to_label h"
      "kh_nonce (h\<lparr>kh_kol_name := n\<rparr>) = kh_nonce h" for n
    by simp_all
  ultimately show ?thesis
    by (simp only: format_telegram_html_def Let_def markup_append markup_none)
qed

lemma enter_markup_fixed:
  "markup (format_enter_alert pf name symbol token amount kol_amount q tx)
     = markup (format_enter_alert pf name' symbol' token amount kol_amount q tx)"
  by (simp only: format_enter_alert_def Let_def markup_append markup_none)

lemma close_markup_fixed:
  "markup (format_close_alert pf pf' (trade\<lparr>ct_kol_name := name, ct_token_symbol := symbol\<rparr>))
     = markup (format_close_alert pf pf' (trade\<lparr>ct_kol_name := name', ct_token_symbol := symbol'\<rparr>))"
  by (cases trade) (simp only: format_close_alert_def Let_def closed_trade.simps markup_append markup_none)

text \<open>Text from outside cannot add markup to an alert. The names of KOLs and groups and
  the token symbols (which whoever deploys a token chooses) are escaped in all three
  messages: whatever they are, the sequence of angle brackets of the message is the same, and
  a reader that resolves the entities gets the text back unchanged.\<close>
lemma alert_markup_fixed:
  "markup (format_telegram_html pf now (h\<lparr>kh_kol_name := name\<rparr>) (Some symbol))
     = markup (format_telegram_html pf now (h\<lparr>kh_kol_name := name'\<rparr>) (Some symbol'))
   \<and> markup (format_enter_alert pf name symbol token amount kol_amount q tx)
     = markup (format_enter_alert pf name' symbol' token amount kol_amount q tx)
   \<and> markup (format_close_alert pf pf' (trade\<lparr>ct_kol_name := name, ct_token_symbol := symbol\<rparr>))
     = markup (format_close_alert pf pf' (trade\<lparr>ct_kol_name := name', ct_token_symbol := symbol'\<rparr>))
   \<and> html_unescape (html_escape symbol) = symbol"
  by (intro conjI pending_markup_fixed enter_markup_fixed close_markup_fixed html_unescape_escape)

end
