(* ===== verification/KolWatch.thy ===== *)
theory KolWatch
  imports Bus Telegram
begin

text \<open>
  The KOL watcher of \<open>kol_watch.rs\<close>: the list of watched wallets, the hit built from a
  pending transaction, and the dispatch of a hit to the sinks. The sinks are bounded
  channels; both watchers send through clones of the same senders, so a channel is one state
  both use. What alloy's accessors return for a transaction is the record \<open>tx_body\<close>, the
  parsed list file an argument.
\<close>

section \<open>The list\<close>

record kol =
  kol_address :: address
  kol_name :: string
  kol_emoji :: "string option"
  kol_groups :: "string list"

type_synonym kol_index = "(address \<times> kol) list"

definition kol_index_load :: "kol list option \<Rightarrow> string list \<Rightarrow> kol_index option" where
  "kol_index_load parsed group_filter =
     map_option (\<lambda>ks. foldl (\<lambda>m k. AList.update (kol_address k) k m) []
       (filter (\<lambda>k. group_filter = [] \<or> (\<exists>g \<in> set (kol_groups k). g \<in> set group_filter)) ks)) parsed"

definition kol_lookup :: "kol_index \<Rightarrow> address \<Rightarrow> kol option" where
  "kol_lookup index addr = map_of index addr"

section \<open>Labels\<close>

definition method_labels :: "(u8 list \<times> string) list" where
  "method_labels =
     [([0xef, 0xfb, 0xec, 0x13], ''GMGN swap''),
      ([0x4d, 0x81, 0x9a, 0x2a], ''GMGN router (flap/Four.Meme)''),
      ([0x7f, 0xf3, 0x6a, 0xb5], ''PancakeV2 swapExactBNBForTokens''),
      ([0x18, 0xcb, 0xaf, 0xe5], ''PancakeV2 swapExactTokensForBNB''),
      ([0x38, 0xed, 0x17, 0x39], ''PancakeV2 swapExactTokensForTokens''),
      ([0xfb, 0x3b, 0xdb, 0x41], ''PancakeV2 swapBNBForExactTokens''),
      ([0xb6, 0xf9, 0xde, 0x95], ''PancakeV2 swapExactBNBForTokensFOT''),
      ([0x5c, 0x11, 0xd7, 0x95], ''PancakeV2 swapExactTokensForTokensFOT''),
      ([0x04, 0xe4, 0x5a, 0xaf], ''PancakeV3 exactInputSingle''),
      ([0xb8, 0x58, 0x18, 0x3f], ''PancakeV3 exactInput''),
      ([0xac, 0x96, 0x50, 0xd8], ''PancakeSmart multicall''),
      ([0xa9, 0x05, 0x9c, 0xbb], ''BEP20 transfer''),
      ([0x09, 0x5e, 0xa7, 0xb3], ''BEP20 approve''),
      ([0x23, 0xb8, 0x72, 0xdd], ''BEP20 transferFrom'')]"

definition known_method :: "u8 list \<Rightarrow> string option" where
  "known_method input =
     (if input = [] then Some ''BNB transfer''
      else if length input < 4 then None
      else map_of method_labels (take 4 input))"

definition address_labels :: "(address \<times> string) list" where
  "address_labels =
     [(0x1de460f363af910f51726def188f9004276bf4bc, ''GMGN proxy''),
      (0x10ed43c718714eb63d5aa57b78b54704e256024e, ''PancakeV2 Router''),
      (0x13f4ea83d0bd40e75c8222255bc855a974568dd4, ''PancakeV3 SmartRouter''),
      (0x1a0a18ac4becddbd6389559687d1a73d8927e416, ''PancakeV3 SwapRouter''),
      (0x5c952063c7fc8610ffdb798152d69f0b9550762b, ''Four.Meme''),
      (0xbb4cdb9cbd36b01bd1cbaebf2de08d9173bc095c, ''WBNB''),
      (0x1111111254eeb25477b68fb85ed929f73a960582, ''1inch v5''),
      (0x111111125421ca6dc452d289314280a0f8842a65, ''1inch v6''),
      (0xdef1c0ded9bec7f1a1670819833240f027b25eff, ''0x ExchangeProxy''),
      (0x6131b5fae19ea4f9d964eac0408e4408b66337b5, ''KyberSwap''),
      (0x92b7807bf19b7dddf89b706143896d05228f3121, ''OpenOcean'')]"

definition known_address :: "address \<Rightarrow> string option" where
  "known_address addr = map_of address_labels addr"

definition format_method_id :: "u8 list \<Rightarrow> string" where
  "format_method_id input = (if 4 \<le> length input then ''0x'' @ hex_encode (take 4 input) else ''0x'')"

definition wei_to_gwei :: "u128 \<Rightarrow> f64" where
  "wei_to_gwei wei = fdiv (f64_of_word wei) (flit (10 ^ 9))"

section \<open>The hit of a pending transaction\<close>

record tx_body =
  tb_input :: "u8 list"
  tb_value :: u256
  tb_to :: "address option"
  tb_gas_price :: "u128 option"
  tb_max_fee_per_gas :: u128
  tb_gas_limit :: u64
  tb_nonce :: u64

text \<open>\<open>{:?}\<close> of the sightings.\<close>

definition debug_sources :: "(source_id \<times> u64) list \<Rightarrow> string" where
  "debug_sources seen =
     (let show_one = (\<lambda>(s, t). ''(SourceId('' @ show_nat (unat s) @ ''), '' @ show_nat (unat t) @ '')'')
      in ''['' @ (case map show_one seen of [] \<Rightarrow> []
           | x # xs \<Rightarrow> x @ concat (map (\<lambda>y. '', '' @ y) xs)) @ '']'')"

definition from_pending :: "kol \<Rightarrow> tx_body pending_tx \<Rightarrow> kol_hit" where
  "from_pending k p =
     (let tx = pt_tx p; input = tb_input tx; decoded = gmgn_decode input (tb_value tx)
      in \<lparr>kh_kol_name = kol_name k, kh_kol_emoji = kol_emoji k, kh_kol_groups = kol_groups k,
          kh_tx_hash = hash_text (pt_hash p), kh_from_addr = addr_text (pt_from p),
          kh_to_addr = map_option addr_text (tb_to tx),
          kh_to_label = Option.bind (tb_to tx) known_address,
          kh_method_id = format_method_id input, kh_method_label = known_method input,
          kh_value_bnb = wei_to_bnb (tb_value tx),
          kh_gas_price_gwei = (case tb_gas_price tx of
             Some g \<Rightarrow> wei_to_gwei g | None \<Rightarrow> wei_to_gwei (tb_max_fee_per_gas tx)),
          kh_gas_limit = tb_gas_limit tx, kh_nonce = tb_nonce tx,
          kh_source_seen = debug_sources (pt_source_seen p), kh_calldata = input,
          kh_decoded = None, kh_token = map_option fst decoded,
          kh_side = map_option (\<lambda>d. side_str (snd d)) decoded,
          kh_confirmed_block = None, kh_visibility = ''public''\<rparr>)"

section \<open>Channels and sinks\<close>

record channel =
  ch_queue :: "kol_hit list"
  ch_capacity :: nat
  ch_open :: bool

datatype send_result = SentOk | SendFull | SendClosed

definition try_send :: "kol_hit \<Rightarrow> channel \<Rightarrow> send_result \<times> channel" where
  "try_send hit ch =
     (if \<not> ch_open ch then (SendClosed, ch)
      else if length (ch_queue ch) < ch_capacity ch then (SentOk, ch\<lparr>ch_queue := ch_queue ch @ [hit]\<rparr>)
      else (SendFull, ch))"

definition new_channel :: "nat \<Rightarrow> channel" where
  "new_channel capacity = \<lparr>ch_queue = [], ch_capacity = capacity, ch_open = True\<rparr>"

record pending_meta =
  pm_kol_name :: string
  pm_side :: "string option"
  pm_token :: "address option"
  pm_first_seen_ns :: u64
  pm_registered_ns :: u64
  pm_seen_block :: "u64 option"
  pm_ms_into_block :: u32

type_synonym registry = "(b256 \<times> pending_meta) list"

text \<open>
  The sinks of both watchers (the private paper trader is fed by \<open>kol_confirm\<close> only) and the
  drop counters, as the list of the increments.
\<close>

record sinks =
  sk_telegram :: "channel option"
  sk_trader :: "channel option"
  sk_private :: "channel option"
  sk_live :: "channel option"
  sk_confirm :: "registry option"
  sk_drops :: "string list"

definition registry_register :: "b256 \<Rightarrow> pending_meta \<Rightarrow> registry \<Rightarrow> registry" where
  "registry_register h m r = AList.update h m r"

text \<open>One of the three sends of \<open>fire_hit\<close>: a full channel counts a drop, a closed one does not.\<close>

definition send_counted :: "string \<Rightarrow> kol_hit \<Rightarrow> channel option \<Rightarrow> channel option \<times> string list" where
  "send_counted counter hit sink = (case sink of
       None \<Rightarrow> (None, [])
     | Some ch \<Rightarrow>
         (case try_send hit ch of
            (SendFull, ch') \<Rightarrow> (Some ch', [counter])
          | (_, ch') \<Rightarrow> (Some ch', [])))"

definition fire_hit :: "kol_hit \<Rightarrow> sinks \<Rightarrow> sinks" where
  "fire_hit hit s =
     (let (tg, d1) = send_counted ''bsc_kol_telegram_dropped_total'' hit (sk_telegram s);
          (tr, d2) = send_counted ''bsc_trader_dropped_total'' hit (sk_trader s);
          (lv, d3) = send_counted ''bsc_trader_live_dropped_total'' hit (sk_live s)
      in s\<lparr>sk_telegram := tg, sk_trader := tr, sk_live := lv, sk_drops := sk_drops s @ d1 @ d2 @ d3\<rparr>)"

definition pending_meta_of :: "kol_hit \<Rightarrow> string \<Rightarrow> tx_body pending_tx \<Rightarrow> u64 \<Rightarrow> pending_meta" where
  "pending_meta_of hit sd p now_ns =
     \<lparr>pm_kol_name = kh_kol_name hit, pm_side = Some sd, pm_token = kh_token hit,
      pm_first_seen_ns = pt_first_seen_ns p, pm_registered_ns = now_ns,
      pm_seen_block = map_option bc_block_number (pt_block_context p),
      pm_ms_into_block = (case pt_block_context p of Some b \<Rightarrow> bc_ms_into_block b | None \<Rightarrow> 0)\<rparr>"

definition process_one :: "kol_index \<Rightarrow> u64 \<Rightarrow> tx_body pending_tx \<Rightarrow> sinks \<Rightarrow> sinks" where
  "process_one index now_ns p s =
     (case kol_lookup index (pt_from p) of
        None \<Rightarrow> s
      | Some k \<Rightarrow>
          (let hit = from_pending k p;
               s' = (case (sk_confirm s, kh_side hit) of
                  (Some reg, Some sd) \<Rightarrow>
                    s\<lparr>sk_confirm := Some (registry_register (pt_hash p) (pending_meta_of hit sd p now_ns) reg)\<rparr>
                | _ \<Rightarrow> s)
           in fire_hit hit s'))"

section \<open>Starting\<close>

record kol_watch_config =
  kw_enabled :: bool
  kw_file :: string
  kw_groups :: "string list"
  kw_tg_enabled :: bool
  kw_tg_bot_token :: string
  kw_tg_chat_id :: int

text \<open>Disabled, unreadable and empty lists start nothing; otherwise the index and the sinks.\<close>

definition kol_watch_start ::
  "kol_watch_config \<Rightarrow> (string \<Rightarrow> kol list option) \<Rightarrow> channel option \<Rightarrow> channel option \<Rightarrow> channel option
     \<Rightarrow> registry option \<Rightarrow> (kol_index \<times> sinks) option" where
  "kol_watch_start cfg read_file trader private live confirm =
     (if \<not> kw_enabled cfg then None
      else let path = (if kw_file cfg = [] then ''config/kols.toml'' else kw_file cfg) in
        case kol_index_load (read_file path) (kw_groups cfg) of
          None \<Rightarrow> None
        | Some index \<Rightarrow>
            if length index = 0 then None
            else (let telegram =
                    (if kw_tg_enabled cfg \<and> kw_tg_bot_token cfg \<noteq> [] \<and> kw_tg_chat_id cfg \<noteq> 0
                     then Some (new_channel 256) else None)
                  in Some (index, \<lparr>sk_telegram = telegram, sk_trader = trader, sk_private = private,
                       sk_live = live, sk_confirm = confirm, sk_drops = []\<rparr>)))"

end
