(* ===== verification/KolConfirm.thy ===== *)
theory KolConfirm
  imports KolWatch
begin

text \<open>
  The confirm watcher of \<open>kol_confirm.rs\<close>: it matches the transactions of each new block
  against the registry of pending hits and against the list of wallets, logs a CONFIRMED
  line, and forwards sells (and, for wallets that bypassed the mempool, buys) to the traders.
  A mined transaction is its hash, its signer and the accessors' values. At the end the two
  watchers, the sweeper and the consumers of the channels as one event-driven system.
\<close>

section \<open>The registry\<close>

definition TTL_NS :: u64 where
  "TTL_NS = 300000000000"

definition sweep_expired :: "u64 \<Rightarrow> registry \<Rightarrow> registry" where
  "sweep_expired now reg = filter (\<lambda>(_, m). sat_sub now (pm_registered_ns m) < TTL_NS) reg"

section \<open>Forwarding\<close>

definition forward_or_log :: "string \<Rightarrow> kol_hit \<Rightarrow> channel option \<Rightarrow> channel option \<times> string list" where
  "forward_or_log sink_name hit sink = (case sink of
       None \<Rightarrow> (None, [])
     | Some ch \<Rightarrow>
         (case try_send hit ch of
            (SentOk, ch') \<Rightarrow> (Some ch', [])
          | (SendFull, ch') \<Rightarrow> (Some ch', [sink_name @ ''/full''])
          | (SendClosed, ch') \<Rightarrow> (Some ch', [sink_name @ ''/closed''])))"

definition forward_trader :: "kol_hit \<Rightarrow> sinks \<Rightarrow> sinks" where
  "forward_trader hit s = (let (c, d) = forward_or_log ''trader_tx'' hit (sk_trader s)
     in s\<lparr>sk_trader := c, sk_drops := sk_drops s @ d\<rparr>)"

definition forward_private :: "kol_hit \<Rightarrow> sinks \<Rightarrow> sinks" where
  "forward_private hit s = (let (c, d) = forward_or_log ''private_tx'' hit (sk_private s)
     in s\<lparr>sk_private := c, sk_drops := sk_drops s @ d\<rparr>)"

definition forward_live :: "kol_hit \<Rightarrow> sinks \<Rightarrow> sinks" where
  "forward_live hit s = (let (c, d) = forward_or_log ''live_tx'' hit (sk_live s)
     in s\<lparr>sk_live := c, sk_drops := sk_drops s @ d\<rparr>)"

section \<open>Blocks\<close>

record mined_tx =
  mt_hash :: b256
  mt_from :: address
  mt_body :: tx_body

definition confirmed_hit :: "string \<Rightarrow> mined_tx \<Rightarrow> side \<Rightarrow> address \<Rightarrow> u64 \<Rightarrow> string \<Rightarrow> kol_hit" where
  "confirmed_hit name txn sd token block visibility =
     \<lparr>kh_kol_name = name, kh_kol_emoji = None, kh_kol_groups = [],
      kh_tx_hash = hash_text (mt_hash txn), kh_from_addr = addr_text (mt_from txn),
      kh_to_addr = None, kh_to_label = None, kh_method_id = [], kh_method_label = None,
      kh_value_bnb = wei_to_bnb (tb_value (mt_body txn)), kh_gas_price_gwei = Fin 0,
      kh_gas_limit = 0, kh_nonce = 0, kh_source_seen = ''confirmed'',
      kh_calldata = tb_input (mt_body txn), kh_decoded = None, kh_token = Some token,
      kh_side = Some (side_str sd), kh_confirmed_block = Some block, kh_visibility = visibility\<rparr>"

text \<open>The line of the log and the metrics; the block difference is in 64-bit two's complement.\<close>

record confirmed_line =
  cl_kol_name :: string
  cl_side :: string
  cl_token :: "address option"
  cl_tx_hash :: b256
  cl_visibility :: string
  cl_seen_block :: "u64 option"
  cl_mined_block :: u64
  cl_block_delta :: "u64 option"
  cl_slot_remaining_ms :: int
  cl_lead_ms :: "f64 option"

definition public_line :: "pending_meta \<Rightarrow> b256 \<Rightarrow> u64 \<Rightarrow> u64 \<Rightarrow> confirmed_line" where
  "public_line m h block recv_ns =
     \<lparr>cl_kol_name = pm_kol_name m, cl_side = (case pm_side m of Some sd \<Rightarrow> sd | None \<Rightarrow> ''?''),
      cl_token = pm_token m, cl_tx_hash = h, cl_visibility = ''public'',
      cl_seen_block = pm_seen_block m, cl_mined_block = block,
      cl_block_delta = map_option (\<lambda>sb. block - sb) (pm_seen_block m),
      cl_slot_remaining_ms = 450 - int (unat (pm_ms_into_block m)),
      cl_lead_ms = Some (fdiv (f64_of_word (sat_sub recv_ns (pm_first_seen_ns m))) (flit (10 ^ 6)))\<rparr>"

definition private_line :: "kol \<Rightarrow> (address \<times> side) option \<Rightarrow> b256 \<Rightarrow> u64 \<Rightarrow> confirmed_line" where
  "private_line k g h block =
     \<lparr>cl_kol_name = kol_name k, cl_side = (case g of Some (_, sd) \<Rightarrow> side_str sd | None \<Rightarrow> ''?''),
      cl_token = map_option fst g, cl_tx_hash = h, cl_visibility = ''private'',
      cl_seen_block = None, cl_mined_block = block, cl_block_delta = None,
      cl_slot_remaining_ms = 0, cl_lead_ms = None\<rparr>"

definition registry_remove :: "b256 \<Rightarrow> registry \<Rightarrow> (pending_meta option) \<times> registry" where
  "registry_remove h reg = (map_of reg h, AList.delete h reg)"

definition process_public :: "pending_meta \<Rightarrow> mined_tx \<Rightarrow> u64 \<Rightarrow> sinks \<Rightarrow> sinks" where
  "process_public m txn block s =
     (case (pm_side m, pm_token m) of
        (Some sd, Some tok) \<Rightarrow>
          if sd = ''SELL'' then
            (let hit = confirmed_hit (pm_kol_name m) txn Sell tok block ''public''
             in forward_live hit (forward_private hit (forward_trader hit s)))
          else s
      | _ \<Rightarrow> s)"

definition process_private :: "kol \<Rightarrow> (address \<times> side) option \<Rightarrow> mined_tx \<Rightarrow> u64 \<Rightarrow> sinks \<Rightarrow> sinks" where
  "process_private k g txn block s = (case g of
       None \<Rightarrow> s
     | Some (token, sd) \<Rightarrow>
         (let hit = confirmed_hit (kol_name k) txn sd token block ''private'';
              s' = forward_private hit s
          in case sd of
               Sell \<Rightarrow> forward_live hit (forward_trader hit s')
             | Buy \<Rightarrow> forward_live hit s'))"

text \<open>The registry is always there for this watcher; without an entry the wallet decides.\<close>

definition process_txn ::
  "kol_index \<Rightarrow> u64 \<Rightarrow> u64 \<Rightarrow> mined_tx \<Rightarrow> confirmed_line list \<times> sinks \<Rightarrow> confirmed_line list \<times> sinks" where
  "process_txn index block recv_ns txn st = (case st of (lines, s) \<Rightarrow>
     (let reg = (case sk_confirm s of Some r \<Rightarrow> r | None \<Rightarrow> []);
          (entry, reg') = registry_remove (mt_hash txn) reg
      in case entry of
           Some m \<Rightarrow> (lines @ [public_line m (mt_hash txn) block recv_ns],
                      process_public m txn block (s\<lparr>sk_confirm := Some reg'\<rparr>))
         | None \<Rightarrow>
             (case kol_lookup index (mt_from txn) of
                None \<Rightarrow> (lines, s)
              | Some k \<Rightarrow>
                  (let g = gmgn_decode (tb_input (mt_body txn)) (tb_value (mt_body txn))
                   in (lines @ [private_line k g (mt_hash txn) block], process_private k g txn block s)))))"

text \<open>The reply to the block request: unavailable and failed both end the task.\<close>

definition process_block ::
  "kol_index \<Rightarrow> mined_tx list option \<Rightarrow> u64 \<Rightarrow> u64 \<Rightarrow> sinks \<Rightarrow> confirmed_line list \<times> sinks" where
  "process_block index fetched block recv_ns s =
     (case fetched of None \<Rightarrow> ([], s) | Some txns \<Rightarrow> foldl (\<lambda>st txn. process_txn index block recv_ns txn st) ([], s) txns)"

definition backoff_next :: "nat \<Rightarrow> nat" where
  "backoff_next ms = min (ms * 2) 10000"

section \<open>The watchers as a system\<close>

datatype sink_name = ToTelegram | ToTrader | ToPrivate | ToLive

record kol_system =
  ks_index :: kol_index
  ks_confirm_index :: kol_index
  ks_sinks :: sinks
  ks_lines :: "confirmed_line list"

definition recv_hit :: "channel option \<Rightarrow> channel option" where
  "recv_hit c = map_option (\<lambda>ch. ch\<lparr>ch_queue := tl (ch_queue ch)\<rparr>) c"

datatype kol_event =
    PendingSeen "tx_body pending_tx" u64
  | NewBlock "mined_tx list option" u64 u64
  | SweepRegistry u64
  | Received sink_name

fun kol_step :: "kol_system \<Rightarrow> kol_event \<Rightarrow> kol_system" where
  "kol_step s (PendingSeen p now_ns) = s\<lparr>ks_sinks := process_one (ks_index s) now_ns p (ks_sinks s)\<rparr>"
| "kol_step s (NewBlock fetched block recv_ns) =
     (let (lines, sk) = process_block (ks_confirm_index s) fetched block recv_ns (ks_sinks s)
      in s\<lparr>ks_sinks := sk, ks_lines := ks_lines s @ lines\<rparr>)"
| "kol_step s (SweepRegistry now) =
     s\<lparr>ks_sinks := (ks_sinks s)\<lparr>sk_confirm := map_option (sweep_expired now) (sk_confirm (ks_sinks s))\<rparr>\<rparr>"
| "kol_step s (Received ToTelegram) = s\<lparr>ks_sinks := (ks_sinks s)\<lparr>sk_telegram := recv_hit (sk_telegram (ks_sinks s))\<rparr>\<rparr>"
| "kol_step s (Received ToTrader) = s\<lparr>ks_sinks := (ks_sinks s)\<lparr>sk_trader := recv_hit (sk_trader (ks_sinks s))\<rparr>\<rparr>"
| "kol_step s (Received ToPrivate) = s\<lparr>ks_sinks := (ks_sinks s)\<lparr>sk_private := recv_hit (sk_private (ks_sinks s))\<rparr>\<rparr>"
| "kol_step s (Received ToLive) = s\<lparr>ks_sinks := (ks_sinks s)\<lparr>sk_live := recv_hit (sk_live (ks_sinks s))\<rparr>\<rparr>"

end
