(* ===== verification/KolSafety.thy ===== *)
theory KolSafety
  imports KolConfirm BusSafety
begin

text \<open>
  Where the hits go. A transaction hash stands for one signed transaction (\<open>tx_of\<close>), so what
  the registry remembers of a pending hit agrees with the mined transaction; with room in the
  channels every mined sell of a watched wallet reaches all three traders. The second part
  shows what depends on the order in which the mempool and the chain report a buy, and what a
  registry entry made before the first head says.
\<close>

section \<open>Sending with room\<close>

definition room :: "nat \<Rightarrow> channel option \<Rightarrow> bool" where
  "room n c \<longleftrightarrow> (\<exists>ch. c = Some ch \<and> ch_open ch \<and> length (ch_queue ch) + n \<le> ch_capacity ch)"

definition push :: "kol_hit list \<Rightarrow> channel option \<Rightarrow> channel option" where
  "push hits c = map_option (\<lambda>ch. ch\<lparr>ch_queue := ch_queue ch @ hits\<rparr>) c"

lemma push_Nil [simp]: "push [] c = c"
  by (cases c) (simp_all add: push_def)

lemma push_push [simp]: "push ys (push xs c) = push (xs @ ys) c"
  by (cases c) (simp_all add: push_def)

lemma room_push: "room (n + length hits) c \<Longrightarrow> room n (push hits c)"
  by (auto simp: room_def push_def)

lemma room_mono: "room n c \<Longrightarrow> m \<le> n \<Longrightarrow> room m c"
  by (auto simp: room_def)

lemma forward_room: "room (Suc n) c \<Longrightarrow> forward_or_log name hit c = (push [hit] c, [])"
  by (auto simp: room_def forward_or_log_def try_send_def push_def)

lemma counted_room: "room (Suc n) c \<Longrightarrow> send_counted name hit c = (push [hit] c, [])"
  by (auto simp: room_def send_counted_def try_send_def push_def)

lemma counted_none [simp]: "send_counted name hit None = (None, [])"
  by (simp add: send_counted_def)

section \<open>Trades and the registry\<close>

definition kol_trade :: "kol_index \<Rightarrow> mined_tx \<Rightarrow> (kol \<times> address \<times> side) option" where
  "kol_trade index txn = (case kol_lookup index (mt_from txn) of
       None \<Rightarrow> None
     | Some k \<Rightarrow> map_option (\<lambda>(tok, sd). (k, tok, sd)) (gmgn_decode (tb_input (mt_body txn)) (tb_value (mt_body txn))))"

definition meta_of_trade :: "kol \<times> address \<times> side \<Rightarrow> pending_meta \<Rightarrow> bool" where
  "meta_of_trade t m \<longleftrightarrow> (case t of (k, tok, sd) \<Rightarrow>
     pm_kol_name m = kol_name k \<and> pm_side m = Some (side_str sd) \<and> pm_token m = Some tok)"

definition the_tx :: "(b256 \<Rightarrow> tx_body \<times> address) \<Rightarrow> b256 \<Rightarrow> mined_tx" where
  "the_tx tx_of h = \<lparr>mt_hash = h, mt_from = snd (tx_of h), mt_body = fst (tx_of h)\<rparr>"

definition registry_ok :: "(b256 \<Rightarrow> tx_body \<times> address) \<Rightarrow> kol_index \<Rightarrow> registry \<Rightarrow> bool" where
  "registry_ok tx_of index reg \<longleftrightarrow> distinct (map fst reg)
     \<and> (\<forall>h m. map_of reg h = Some m \<longrightarrow> (\<exists>t. kol_trade index (the_tx tx_of h) = Some t \<and> meta_of_trade t m))"

definition block_ok :: "(b256 \<Rightarrow> tx_body \<times> address) \<Rightarrow> mined_tx list \<Rightarrow> bool" where
  "block_ok tx_of txns \<longleftrightarrow> distinct (map mt_hash txns) \<and> (\<forall>t \<in> set txns. t = the_tx tx_of (mt_hash t))"

fun event_ok :: "(b256 \<Rightarrow> tx_body \<times> address) \<Rightarrow> kol_event \<Rightarrow> bool" where
  "event_ok tx_of (PendingSeen p now) = ((pt_tx p, pt_from p) = tx_of (pt_hash p))"
| "event_ok tx_of (NewBlock fetched block recv) = (case fetched of None \<Rightarrow> True | Some txns \<Rightarrow> block_ok tx_of txns)"
| "event_ok tx_of _ = True"

text \<open>What a sink is to get of a block: which trades it takes, by visibility and side.\<close>

definition registered :: "registry \<Rightarrow> b256 \<Rightarrow> bool" where
  "registered reg h \<longleftrightarrow> map_of reg h \<noteq> None"

definition trade_hits :: "(bool \<Rightarrow> side \<Rightarrow> bool) \<Rightarrow> kol_index \<Rightarrow> registry \<Rightarrow> u64 \<Rightarrow> mined_tx \<Rightarrow> kol_hit list" where
  "trade_hits takes index reg block txn = (case kol_trade index txn of
       None \<Rightarrow> []
     | Some (k, tok, sd) \<Rightarrow>
         (let public = registered reg (mt_hash txn)
          in if takes public sd
             then [confirmed_hit (kol_name k) txn sd tok block (if public then ''public'' else ''private'')]
             else []))"

definition takes_sells :: "bool \<Rightarrow> side \<Rightarrow> bool" where
  "takes_sells public sd \<longleftrightarrow> sd = Sell"

definition takes_sells_and_private :: "bool \<Rightarrow> side \<Rightarrow> bool" where
  "takes_sells_and_private public sd \<longleftrightarrow> sd = Sell \<or> \<not> public"

lemma length_trade_hits: "length (trade_hits takes index reg block txn) \<le> 1"
  by (simp add: trade_hits_def Let_def split: option.splits prod.splits)

lemma map_of_delete: "distinct (map fst reg) \<Longrightarrow> map_of (AList.delete h reg) h' = (if h' = h then None else map_of reg h')"
  by (simp add: delete_conv')

lemma registry_ok_delete: "registry_ok tx_of index reg \<Longrightarrow> registry_ok tx_of index (AList.delete h reg)"
  by (auto simp: registry_ok_def map_of_delete distinct_delete split: if_splits)

lemma registry_ok_sweep: "registry_ok tx_of index reg \<Longrightarrow> registry_ok tx_of index (sweep_expired now reg)"
  unfolding registry_ok_def sweep_expired_def
  by (auto simp: map_of_filter_val distinct_map_filter split: option.splits if_splits)

section \<open>One transaction of a block\<close>

definition rooms :: "nat \<Rightarrow> sinks \<Rightarrow> bool" where
  "rooms n s \<longleftrightarrow> room n (sk_trader s) \<and> room n (sk_private s) \<and> room n (sk_live s)"

lemmas forward_defs = forward_trader_def forward_private_def forward_live_def

lemma side_str_SELL [simp]: "side_str sd = ''SELL'' \<longleftrightarrow> sd = Sell"
  by (cases sd) simp_all

lemma process_txn_routes:
  assumes reg: "sk_confirm s = Some reg" "registry_ok tx_of index reg" and txn: "txn = the_tx tx_of (mt_hash txn)"
    and rooms: "rooms (Suc n) s"
  shows "\<exists>lines' s'. process_txn index block recv txn (lines, s) = (lines', s')
     \<and> sk_confirm s' = Some (AList.delete (mt_hash txn) reg)
     \<and> sk_trader s' = push (trade_hits takes_sells index reg block txn) (sk_trader s)
     \<and> sk_private s' = push (trade_hits takes_sells_and_private index reg block txn) (sk_private s)
     \<and> sk_live s' = push (trade_hits takes_sells_and_private index reg block txn) (sk_live s)"
proof (cases "map_of reg (mt_hash txn)")
  case (Some m)
  with reg(2) txn obtain t where t: "kol_trade index txn = Some t" "meta_of_trade t m"
    unfolding registry_ok_def by metis
  obtain k tok sd where "t = (k, tok, sd)" by (cases t)
  with t Some reg(1) rooms show ?thesis
    by (auto simp: process_txn_def registry_remove_def process_public_def meta_of_trade_def trade_hits_def
      registered_def takes_sells_def takes_sells_and_private_def Let_def forward_defs rooms_def
      forward_room [where n = n])
next
  case None
  have same: "AList.delete (mt_hash txn) reg = reg"
    using None by (simp add: map_of_eq_None_iff)
  show ?thesis
  proof (cases "kol_trade index txn")
    case no: None
    then show ?thesis
      using None reg(1) same
      by (auto simp: process_txn_def registry_remove_def kol_trade_def process_private_def trade_hits_def Let_def
          split: option.splits)
  next
    case (Some t)
    then obtain k tok sd where "kol_lookup index (mt_from txn) = Some k"
        "gmgn_decode (tb_input (mt_body txn)) (tb_value (mt_body txn)) = Some (tok, sd)" "t = (k, tok, sd)"
      by (auto simp: kol_trade_def split: option.splits)
    with Some None reg(1) rooms same show ?thesis
      by (cases sd) (simp_all add: process_txn_def registry_remove_def process_private_def trade_hits_def
        registered_def takes_sells_def takes_sells_and_private_def Let_def forward_defs rooms_def
        forward_room [where n = n])
  qed
qed

section \<open>A whole block\<close>

definition block_hits :: "(bool \<Rightarrow> side \<Rightarrow> bool) \<Rightarrow> kol_index \<Rightarrow> registry \<Rightarrow> u64 \<Rightarrow> mined_tx list \<Rightarrow> kol_hit list" where
  "block_hits takes index reg block txns = concat (map (trade_hits takes index reg block) txns)"

lemma block_hits_delete:
  assumes "distinct (map fst reg)" "h \<notin> set (map mt_hash txns)"
  shows "block_hits takes index (AList.delete h reg) block txns = block_hits takes index reg block txns"
proof -
  have "trade_hits takes index (AList.delete h reg) block t = trade_hits takes index reg block t"
    if "t \<in> set txns" for t
  proof -
    have "mt_hash t \<noteq> h" using that assms(2) by auto
    then have "registered (AList.delete h reg) (mt_hash t) = registered reg (mt_hash t)"
      by (simp add: registered_def)
    then show ?thesis by (simp only: trade_hits_def)
  qed
  then show ?thesis unfolding block_hits_def by (intro arg_cong [where f = concat] map_cong refl)
qed

lemma process_block_routes:
  assumes "sk_confirm s = Some reg" "registry_ok tx_of index reg" "block_ok tx_of txns" "rooms (length txns) s"
  shows "\<exists>lines' s' reg'. foldl (\<lambda>st txn. process_txn index block recv txn st) (lines, s) txns = (lines', s')
     \<and> sk_confirm s' = Some reg' \<and> registry_ok tx_of index reg'
     \<and> sk_trader s' = push (block_hits takes_sells index reg block txns) (sk_trader s)
     \<and> sk_private s' = push (block_hits takes_sells_and_private index reg block txns) (sk_private s)
     \<and> sk_live s' = push (block_hits takes_sells_and_private index reg block txns) (sk_live s)"
  using assms
proof (induction txns arbitrary: s reg lines)
  case Nil
  then show ?case by (simp add: block_hits_def)
next
  case (Cons txn txns)
  from Cons.prems(3) have txn: "txn = the_tx tx_of (mt_hash txn)" and rest: "block_ok tx_of txns"
      and fresh: "mt_hash txn \<notin> set (map mt_hash txns)" by (simp_all add: block_ok_def)
  have "rooms (Suc (length txns)) s" using Cons.prems(4) by simp
  from process_txn_routes [OF Cons.prems(1,2) txn this]
  obtain lines1 s1 where step: "process_txn index block recv txn (lines, s) = (lines1, s1)"
      and s1: "sk_confirm s1 = Some (AList.delete (mt_hash txn) reg)"
        "sk_trader s1 = push (trade_hits takes_sells index reg block txn) (sk_trader s)"
        "sk_private s1 = push (trade_hits takes_sells_and_private index reg block txn) (sk_private s)"
        "sk_live s1 = push (trade_hits takes_sells_and_private index reg block txn) (sk_live s)"
    by blast
  have reg1: "registry_ok tx_of index (AList.delete (mt_hash txn) reg)"
    by (rule registry_ok_delete [OF Cons.prems(2)])
  have "rooms (length txns) s1"
    using Cons.prems(4) length_trade_hits [of _ index reg block txn] unfolding rooms_def s1
    by (intro conjI room_push) (auto elim!: room_mono)
  from Cons.IH [OF s1(1) reg1 rest this, of lines1]
  show ?case
    using Cons.prems(2) fresh block_hits_delete [of reg "mt_hash txn" txns]
    by (simp add: step s1 registry_ok_def) (simp add: block_hits_def)
qed

section \<open>Histories\<close>

definition system_ok :: "(b256 \<Rightarrow> tx_body \<times> address) \<Rightarrow> kol_system \<Rightarrow> bool" where
  "system_ok tx_of s \<longleftrightarrow> ks_confirm_index s = ks_index s
     \<and> (\<exists>reg. sk_confirm (ks_sinks s) = Some reg \<and> registry_ok tx_of (ks_index s) reg)"

lemma fire_hit_confirm [simp]: "sk_confirm (fire_hit hit s) = sk_confirm s"
  by (simp add: fire_hit_def split: prod.splits)

lemma from_pending_trade:
  assumes "kol_lookup index (pt_from p) = Some k" "kh_side (from_pending k p) = Some sd"
    "(pt_tx p, pt_from p) = tx_of (pt_hash p)"
  shows "\<exists>t. kol_trade index (the_tx tx_of (pt_hash p)) = Some t
     \<and> meta_of_trade t (pending_meta_of (from_pending k p) sd p now)"
proof -
  have tx: "fst (tx_of (pt_hash p)) = pt_tx p" "snd (tx_of (pt_hash p)) = pt_from p"
    using assms(3) by (metis fst_conv, metis snd_conv)
  obtain tok d where "gmgn_decode (tb_input (pt_tx p)) (tb_value (pt_tx p)) = Some (tok, d)" "sd = side_str d"
    using assms(2) by (auto simp: from_pending_def Let_def)
  then show ?thesis
    using assms(1) tx
    by (auto simp: kol_trade_def the_tx_def meta_of_trade_def pending_meta_of_def from_pending_def Let_def)
qed

lemma registry_ok_register:
  assumes "registry_ok tx_of index reg" "kol_trade index (the_tx tx_of h) = Some t" "meta_of_trade t m"
  shows "registry_ok tx_of index (registry_register h m reg)"
proof -
  have "\<exists>t'. kol_trade index (the_tx tx_of h') = Some t' \<and> meta_of_trade t' m'"
    if "map_of (registry_register h m reg) h' = Some m'" for h' m'
  proof (cases "h' = h")
    case True
    with that assms(2,3) show ?thesis by (simp add: registry_register_def update_conv')
  next
    case False
    with that have "map_of reg h' = Some m'" by (simp add: registry_register_def update_conv')
    with assms(1) show ?thesis unfolding registry_ok_def by blast
  qed
  moreover have "distinct (map fst (registry_register h m reg))"
    using assms(1) by (simp add: registry_ok_def registry_register_def distinct_update)
  ultimately show ?thesis unfolding registry_ok_def by blast
qed

lemma process_one_ok:
  assumes "sk_confirm s = Some reg" "registry_ok tx_of index reg" "(pt_tx p, pt_from p) = tx_of (pt_hash p)"
  shows "\<exists>reg'. sk_confirm (process_one index now p s) = Some reg' \<and> registry_ok tx_of index reg'"
proof (cases "kol_lookup index (pt_from p)")
  case None
  with assms show ?thesis by (simp add: process_one_def)
next
  case (Some k)
  show ?thesis
  proof (cases "kh_side (from_pending k p)")
    case None
    with Some assms show ?thesis by (simp add: process_one_def Let_def)
  next
    case side: (Some sd)
    obtain t where "kol_trade index (the_tx tx_of (pt_hash p)) = Some t"
        "meta_of_trade t (pending_meta_of (from_pending k p) sd p now)"
      using from_pending_trade [where tx_of = tx_of, OF Some side assms(3)] by blast
    then have "registry_ok tx_of index
        (registry_register (pt_hash p) (pending_meta_of (from_pending k p) sd p now) reg)"
      by (rule registry_ok_register [OF assms(2)])
    with Some side assms(1) show ?thesis by (simp add: process_one_def Let_def)
  qed
qed

lemma forward_confirm [simp]:
  "sk_confirm (forward_trader hit s) = sk_confirm s" "sk_confirm (forward_private hit s) = sk_confirm s"
  "sk_confirm (forward_live hit s) = sk_confirm s"
  by (simp_all add: forward_defs split: prod.splits)

lemma process_txn_registry:
  assumes "sk_confirm s = Some reg" "registry_ok tx_of index reg"
  shows "\<exists>lines' s' reg'. process_txn index block recv txn (lines, s) = (lines', s')
     \<and> sk_confirm s' = Some reg' \<and> registry_ok tx_of index reg'"
proof (cases "map_of reg (mt_hash txn)")
  case (Some m)
  with assms registry_ok_delete [OF assms(2), of "mt_hash txn"] show ?thesis
    by (simp add: process_txn_def registry_remove_def process_public_def Let_def split: option.splits)
next
  case None
  with assms show ?thesis
    by (simp add: process_txn_def registry_remove_def process_private_def Let_def
        split: option.splits prod.splits side.splits)
qed

lemma process_block_registry:
  assumes "sk_confirm s = Some reg" "registry_ok tx_of index reg"
  shows "\<exists>lines' s' reg'. foldl (\<lambda>st txn. process_txn index block recv txn st) (lines, s) txns = (lines', s')
     \<and> sk_confirm s' = Some reg' \<and> registry_ok tx_of index reg'"
  using assms
proof (induction txns arbitrary: s reg lines)
  case (Cons txn txns)
  from process_txn_registry [OF Cons.prems, of block recv txn lines] Cons.IH show ?case by fastforce
qed simp

lemma kol_step_ok:
  assumes "system_ok tx_of s" "event_ok tx_of e"
  shows "system_ok tx_of (kol_step s e) \<and> ks_index (kol_step s e) = ks_index s"
proof -
  obtain reg where reg: "sk_confirm (ks_sinks s) = Some reg" "registry_ok tx_of (ks_index s) reg"
      and idx: "ks_confirm_index s = ks_index s"
    using assms(1) by (auto simp: system_ok_def)
  show ?thesis
  proof (cases e)
    case (PendingSeen p now)
    with assms(2) process_one_ok [OF reg, of p now] idx show ?thesis by (simp add: system_ok_def)
  next
    case (NewBlock fetched block recv)
    then show ?thesis
    proof (cases fetched)
      case (Some txns)
      obtain ls s' reg' where "foldl (\<lambda>st txn. process_txn (ks_index s) block recv txn st) ([], ks_sinks s) txns = (ls, s')"
          "sk_confirm s' = Some reg'" "registry_ok tx_of (ks_index s) reg'"
        using process_block_registry [OF reg, of block recv "[]" txns] by blast
      with NewBlock Some idx show ?thesis by (simp add: system_ok_def process_block_def)
    qed (use assms NewBlock in \<open>simp add: system_ok_def process_block_def\<close>)
  next
    case (SweepRegistry now)
    with reg idx show ?thesis by (simp add: system_ok_def registry_ok_sweep)
  next
    case (Received n)
    with reg idx show ?thesis by (cases n) (simp_all add: system_ok_def)
  qed
qed

lemma kol_run_ok:
  assumes "system_ok tx_of s" "\<forall>e \<in> set es. event_ok tx_of e"
  shows "system_ok tx_of (foldl kol_step s es) \<and> ks_index (foldl kol_step s es) = ks_index s"
  using assms
proof (induction es arbitrary: s)
  case (Cons e es)
  then have "system_ok tx_of (kol_step s e)" "ks_index (kol_step s e) = ks_index s" by (simp_all add: kol_step_ok)
  with Cons show ?case by simp
qed simp

definition kol_system_start :: "kol_index \<Rightarrow> channel option \<Rightarrow> channel option \<Rightarrow> channel option \<Rightarrow> channel option \<Rightarrow> kol_system" where
  "kol_system_start index telegram trader priv live = \<lparr>ks_index = index, ks_confirm_index = index,
     ks_sinks = \<lparr>sk_telegram = telegram, sk_trader = trader, sk_private = priv, sk_live = live,
       sk_confirm = Some [], sk_drops = []\<rparr>, ks_lines = []\<rparr>"

lemma kol_system_start_ok: "system_ok tx_of (kol_system_start index telegram trader priv live)"
  by (simp add: system_ok_def kol_system_start_def registry_ok_def)


section \<open>A buy seen twice\<close>

lemma sinks_after_pending:
  assumes "kol_lookup index (pt_from p) = Some k" "gmgn_decode (tb_input (pt_tx p)) (tb_value (pt_tx p)) = Some (tok, sd)"
    "sk_confirm s = Some reg" "room (Suc n) (sk_live s)"
  shows "sk_live (process_one index now p s) = push [from_pending k p] (sk_live s)
    \<and> sk_confirm (process_one index now p s) = Some (registry_register (pt_hash p)
         (pending_meta_of (from_pending k p) (side_str sd) p now) reg)"
proof -
  have "kh_side (from_pending k p) = Some (side_str sd)" using assms(2) by (simp add: from_pending_def Let_def)
  with assms(1,3,4) show ?thesis
    by (simp add: process_one_def Let_def) (simp add: fire_hit_def counted_room [where n = n] split: prod.splits)
qed

definition mined :: "tx_body pending_tx \<Rightarrow> mined_tx" where
  "mined p = \<lparr>mt_hash = pt_hash p, mt_from = pt_from p, mt_body = pt_tx p\<rparr>"

lemma forward_live_only [simp]:
  "sk_live (forward_trader hit s) = sk_live s" "sk_live (forward_private hit s) = sk_live s"
  by (simp_all add: forward_defs split: prod.splits)

lemma mined_registered_buy:
  assumes "sk_confirm s = Some reg" "map_of reg (pt_hash p) = Some m" "pm_side m = Some ''BUY''"
  shows "sk_live (snd (process_block index (Some [mined p]) block recv s)) = sk_live s"
  using assms by (simp add: process_block_def process_txn_def mined_def registry_remove_def process_public_def split: option.splits)

lemma mined_unregistered_buy:
  assumes "sk_confirm s = Some reg" "map_of reg (pt_hash p) = None" "kol_lookup index (pt_from p) = Some k"
    "gmgn_decode (tb_input (pt_tx p)) (tb_value (pt_tx p)) = Some (tok, Buy)" "room (Suc n) (sk_live s)"
  shows "sk_live (snd (process_block index (Some [mined p]) block recv s))
      = push [confirmed_hit (kol_name k) (mined p) Buy tok block ''private''] (sk_live s)
    \<and> sk_confirm (snd (process_block index (Some [mined p]) block recv s)) = Some reg"
  using assms
  by (simp add: process_block_def process_txn_def mined_def registry_remove_def process_private_def Let_def)
     (simp add: forward_live_def forward_room [where n = n])

lemma registry_fresh:
  "map_of (registry_register h m reg) h = Some m"
  by (simp add: registry_register_def update_conv')

lemma swept_entry:
  assumes "distinct (map fst reg)" "TTL_NS \<le> sat_sub later (pm_registered_ns m)"
  shows "map_of (sweep_expired later (registry_register h m reg)) h = None"
  using assms registry_fresh [of h m reg]
  by (simp add: sweep_expired_def map_of_filter_val registry_register_def distinct_update del: map_of_eq_None_iff)

text \<open>C19: One buy, one entry signal, depends on the order of two clocks. A buy of a watched
  wallet that is seen pending and then mined reaches the live trader once. When the block is
  processed before the mempool source delivers the transaction, or when the registry entry has
  outlived its five minutes, the same transaction reaches it twice, as a private and as a
  public buy: the registry is consulted for what is still pending only, nothing remembers the
  hashes that were already confirmed.\<close>
theorem buy_signalled_once_or_twice:
  assumes kol: "kol_lookup (ks_index s) (pt_from p) = Some k" "ks_confirm_index s = ks_index s"
    and buy: "gmgn_decode (tb_input (pt_tx p)) (tb_value (pt_tx p)) = Some (tok, Buy)"
    and sinks: "room 2 (sk_live (ks_sinks s))" "sk_confirm (ks_sinks s) = Some reg"
      "distinct (map fst reg)" "map_of reg (pt_hash p) = None"
    and late: "TTL_NS \<le> sat_sub later now"
    and hits: "public = from_pending k p" "priv = confirmed_hit (kol_name k) (mined p) Buy tok block ''private''"
  shows "sk_live (ks_sinks (foldl kol_step s [PendingSeen p now, NewBlock (Some [mined p]) block recv]))
      = push [public] (sk_live (ks_sinks s))
    \<and> sk_live (ks_sinks (foldl kol_step s [NewBlock (Some [mined p]) block recv, PendingSeen p now]))
      = push [priv, public] (sk_live (ks_sinks s))
    \<and> sk_live (ks_sinks (foldl kol_step s [PendingSeen p now, SweepRegistry later, NewBlock (Some [mined p]) block recv]))
      = push [public, priv] (sk_live (ks_sinks s))
    \<and> kh_tx_hash priv = kh_tx_hash public \<and> kh_token priv = Some tok \<and> kh_token public = Some tok
    \<and> kh_side priv = Some ''BUY'' \<and> kh_side public = Some ''BUY''"
proof -
  let ?idx = "ks_index s" and ?m = "pending_meta_of public ''BUY'' p now"
  have r2: "room (Suc (Suc 0)) (sk_live (ks_sinks s))" using sinks(1) by (simp add: numeral_2_eq_2)
  have r1: "room (Suc 0) (push [h] (sk_live (ks_sinks s)))" for h using room_push [of 1 "[h]"] r2 by simp
  note pend = sinks_after_pending [where index = ?idx and p = p and now = now and sd = Buy, OF kol(1) buy]
  note pend_s = pend [OF sinks(2) r2, folded hits, unfolded side_str.simps]
  let ?s1 = "process_one ?idx now p (ks_sinks s)"
  have reg1: "map_of (registry_register (pt_hash p) ?m reg) (pt_hash p) = Some ?m" by (rule registry_fresh)
  have one: "sk_live (snd (process_block ?idx (Some [mined p]) block recv ?s1)) = sk_live ?s1"
    by (rule mined_registered_buy [OF conjunct2 [OF pend_s] reg1]) (simp add: pending_meta_of_def)
  note priv_s = mined_unregistered_buy [where block = block and recv = recv, OF sinks(2,4) kol(1) buy r2, folded hits]
  let ?s2 = "snd (process_block ?idx (Some [mined p]) block recv (ks_sinks s))"
  have two: "sk_live (process_one ?idx now p ?s2) = push [priv, public] (sk_live (ks_sinks s))"
    using pend [OF conjunct2 [OF priv_s], of 0] priv_s r1 hits(1) by simp
  let ?s3 = "?s1\<lparr>sk_confirm := map_option (sweep_expired later) (sk_confirm ?s1)\<rparr>"
  have "map_of (sweep_expired later (registry_register (pt_hash p) ?m reg)) (pt_hash p) = None"
    by (rule swept_entry [OF sinks(3)]) (use late in \<open>simp add: pending_meta_of_def\<close>)
  then have three: "sk_live (snd (process_block ?idx (Some [mined p]) block recv ?s3))
      = push [public, priv] (sk_live (ks_sinks s))"
    using mined_unregistered_buy [of ?s3 _ p ?idx k tok 0 block recv] kol(1) buy pend_s r1 hits(2)
    by (simp del: map_of_eq_None_iff)
  show ?thesis
    using one two three pend_s kol(2) buy
    by (simp add: hits case_prod_beta Let_def) (simp add: from_pending_def confirmed_hit_def mined_def Let_def)
qed

section \<open>Before the first head\<close>

lemma block_until_head:
  assumes "\<forall>n h parent seen. NewHead n h parent seen \<notin> set es" "pl_block s = b"
    "\<forall>p \<in> set (pl_published s). \<exists>c. pt_block_context p = Some c \<and> bc_block_number c = cb_block_number b"
  shows "\<forall>p \<in> set (pl_published (foldl (bus_step dec rcv) s es)).
    \<exists>c. pt_block_context p = Some c \<and> bc_block_number c = cb_block_number b"
  using assms
proof (induction es arbitrary: s)
  case (Cons e es)
  have "pl_block (run_dedupe_one s) = pl_block s \<and>
      (\<forall>p \<in> set (pl_published (run_dedupe_one s)). \<exists>c. pt_block_context p = Some c \<and> bc_block_number c = cb_block_number b)"
    by (rule run_dedupe_one_cases [of s]) (use Cons.prems(2,3) in \<open>auto simp: block_context_for_def Let_def\<close>)
  moreover have "pl_block (worker_take dec rcv i s) = pl_block s" "pl_block (worker_push i s) = pl_block s"
      "pl_block (source_send raw s) = pl_block s" for i raw
    by (simp_all add: worker_take_def worker_push_def source_send_def split: list.splits option.splits sum.splits)
  moreover have False if "e = NewHead n h parent seen" for n h parent seen
    using Cons.prems(1) that by (metis list.set_intros(1))
  ultimately have "pl_block (bus_step dec rcv s e) = b \<and>
      (\<forall>p \<in> set (pl_published (bus_step dec rcv s e)). \<exists>c. pt_block_context p = Some c \<and> bc_block_number c = cb_block_number b)"
    using Cons.prems(2,3) by (cases e) (simp_all add: run_janitor_tick_def)
  with Cons.IH [of "bus_step dec rcv s e"] Cons.prems(1) show ?case by simp
qed simp

text \<open>A hit from before the first head has a wrong block difference. The documentation says
  that the block of first sight is missing while the head updater has not warmed up, and that
  such hits stay out of the statistics. The bus always attaches a context, with block number
  zero until the first head: a trade published then and confirmed in block n is logged, and
  counted, with a difference of n blocks.\<close>
lemma cold_head_block_delta:
  fixes dec :: "u8 list \<Rightarrow> tx_body option"
  assumes bus: "\<forall>n h parent seen. NewHead n h parent seen \<notin> set es"
      "p \<in> set (pl_published (foldl (bus_step dec rcv) (build_pipeline cfg current_block_default) es))"
    and kol: "kol_lookup (ks_index s) (pt_from p) = Some k"
      "gmgn_decode (tb_input (pt_tx p)) (tb_value (pt_tx p)) = Some (tok, sd)"
    and reg: "sk_confirm (ks_sinks s) = Some reg"
  shows "\<exists>line. ks_lines (foldl kol_step s [PendingSeen p now, NewBlock (Some [mined p]) block recv]) = ks_lines s @ [line]
    \<and> cl_tx_hash line = pt_hash p \<and> cl_seen_block line = Some 0 \<and> cl_block_delta line = Some block"
proof -
  obtain c where c: "pt_block_context p = Some c" "bc_block_number c = 0"
    using block_until_head [OF bus(1), of "build_pipeline cfg current_block_default" current_block_default dec rcv] bus(2)
    by (auto simp: build_pipeline_def current_block_default_def)
  have side: "kh_side (from_pending k p) = Some (side_str sd)" using kol(2) by (simp add: from_pending_def Let_def)
  let ?m = "pending_meta_of (from_pending k p) (side_str sd) p now"
  have "sk_confirm (process_one (ks_index s) now p (ks_sinks s)) = Some (registry_register (pt_hash p) ?m reg)"
    using kol(1) side reg by (simp add: process_one_def Let_def)
  with registry_fresh [of "pt_hash p" ?m reg] show ?thesis
    by (simp add: process_block_def process_txn_def registry_remove_def mined_def Let_def)
       (simp add: public_line_def pending_meta_of_def c)
qed

section \<open>A watched wallet\<close>

definition example_token :: address where
  "example_token = 2 ^ 128"

definition example_kol :: kol where
  "example_kol = \<lparr>kol_address = 7, kol_name = ''D'', kol_emoji = None, kol_groups = [''GOAT'']\<rparr>"

definition trade_body :: "u256 \<Rightarrow> tx_body" where
  "trade_body value = \<lparr>tb_input = GMGN_SELECTOR @ concat ([] @ [address_word example_token] @ []), tb_value = value,
     tb_to = Some GMGN_ROUTER, tb_gas_price = Some 1000000000, tb_max_fee_per_gas = 0,
     tb_gas_limit = 300000, tb_nonce = 1\<rparr>"

definition example_pending :: "b256 \<Rightarrow> u256 \<Rightarrow> tx_body pending_tx" where
  "example_pending h value = \<lparr>pt_hash = h, pt_from = 7, pt_tx = trade_body value, pt_first_seen_ns = 5000,
     pt_source_seen = [(LOCAL_IPC, 5000)], pt_raw = None, pt_block_context = None\<rparr>"

definition example_kol_system :: kol_system where
  "example_kol_system = kol_system_start [(7, example_kol)] None (Some (new_channel 256)) (Some (new_channel 256))
     (Some (new_channel 1024))"

lemma example_trade:
  "gmgn_decode (tb_input (trade_body value)) (tb_value (trade_body value)) = Some (example_token, if 0 < value then Buy else Sell)"
proof -
  have "unat example_token = 2 ^ 128" by (simp add: example_token_def)
  then have "2 ^ 128 \<le> unat example_token" by simp
  moreover have "example_token \<noteq> WBNB" "example_token \<noteq> GMGN_ROUTER"
    by (simp_all add: example_token_def WBNB_def GMGN_ROUTER_def)
  ultimately show ?thesis
    unfolding trade_body_def tx_body.simps by (intro gmgn_decode_finds_token) simp_all
qed

lemma example_system_simps:
  "ks_index example_kol_system = [(7, example_kol)]" "ks_confirm_index example_kol_system = [(7, example_kol)]"
  "sk_confirm (ks_sinks example_kol_system) = Some []" "sk_live (ks_sinks example_kol_system) = Some (new_channel 1024)"
  "sk_trader (ks_sinks example_kol_system) = Some (new_channel 256)"
  "sk_private (ks_sinks example_kol_system) = Some (new_channel 256)"
  by (simp_all add: example_kol_system_def kol_system_start_def)

lemma example_lookup: "kol_lookup [(7, example_kol)] 7 = Some example_kol"
  by (simp add: kol_lookup_def)

text \<open>A sell seen pending and a sell never seen, both mined in block 100.\<close>

definition example_tx_of :: "b256 \<Rightarrow> tx_body \<times> address" where
  "example_tx_of h = (trade_body 0, 7)"


theorem buy_signalled_once_or_twice_witness:
  "sk_live (ks_sinks (foldl kol_step example_kol_system
      [NewBlock (Some [mined (example_pending 1 5)]) 100 9000, PendingSeen (example_pending 1 5) 6000]))
    = push [confirmed_hit ''D'' (mined (example_pending 1 5)) Buy example_token 100 ''private'',
        from_pending example_kol (example_pending 1 5)] (Some (new_channel 1024))"
proof -
  let ?p = "example_pending 1 5"
  have "kol_lookup (ks_index example_kol_system) (pt_from ?p) = Some example_kol"
    by (simp add: example_system_simps example_pending_def example_lookup)
  moreover have "gmgn_decode (tb_input (pt_tx ?p)) (tb_value (pt_tx ?p)) = Some (example_token, Buy)"
    using example_trade [of 5] by (simp add: example_pending_def word_gt_0)
  moreover have "room 2 (sk_live (ks_sinks example_kol_system))"
    by (simp add: example_system_simps room_def new_channel_def)
  moreover have "TTL_NS \<le> sat_sub 300000006000 6000" by (simp add: TTL_NS_def sat_sub_def)
  ultimately show ?thesis
    using buy_signalled_once_or_twice [where s = example_kol_system and p = ?p and now = 6000
        and block = 100 and recv = 9000 and later = 300000006000 and reg = "[]", OF _ _ _ _ _ _ _ _ refl refl]
    by (simp add: example_system_simps example_kol_def)
qed

text \<open>A pipeline without heads that publishes one sell, which block 100 confirms.\<close>

definition cold_raw :: "tx_body raw_tx" where
  "cold_raw = \<lparr>rt_source = LOCAL_IPC, rt_recv_ns = 5000, rt_hash = 1, rt_payload = Decoded (trade_body 0) None\<rparr>"

definition cold_events :: "tx_body bus_event list" where
  "cold_events = [Arrive cold_raw, Take 0, Push 0, DedupeNext]"

definition cold_pending :: "tx_body pending_tx" where
  "cold_pending = (example_pending 1 0)\<lparr>pt_block_context := Some (block_context_for current_block_default 5000)\<rparr>"

lemma cold_published:
  "cold_pending \<in> set (pl_published (foldl (bus_step (\<lambda>_. None) (\<lambda>_. Some 7))
     (build_pipeline example_config current_block_default) cold_events))"
  by (simp add: cold_events_def cold_raw_def cold_pending_def example_pending_def example_config_def
      pipeline_config_default_def build_pipeline_def bus_stage_defs dedupe_new_def dedupe_record_def
      decode_to_decoded_def recover_signer_def Let_def numeral_2_eq_2)

end
