(* ===== verification/Trader.thy ===== *)
theory Trader
  imports TrailWatcher ExecutorSpend
begin

text \<open>
  \<open>crates/bsc-runner/src/trader/mod.rs\<close> and \<open>wallet.rs\<close>: how the live trader is put
  together. The wallet check, the start-up of the executor, the consumer of KOL hits, the
  daily-loss kill switch, and the whole live trader (consumer, kill switch, trail watcher and
  background tasks over one executor) as one event-driven component.
\<close>

section \<open>The wallet\<close>

datatype wallet_error = MissingEnv | KeyLength nat | KeyRejected | DeclaredInvalid | AddressMismatch address address

text \<open>Deriving the address of a key and parsing an address text are alloy's.\<close>

definition wallet_from_parts ::
  "(string \<Rightarrow> address option) \<Rightarrow> (string \<Rightarrow> address option) \<Rightarrow> string \<Rightarrow> string \<Rightarrow> wallet_error + address" where
  "wallet_from_parts derive parse_addr pk_hex declared_addr =
     (let pk = trim_start_matches ''0x'' (trim pk_hex) in
      if length pk \<noteq> 64 then Inl (KeyLength (length pk))
      else case derive pk of
        None \<Rightarrow> Inl KeyRejected
      | Some derived \<Rightarrow>
          (case parse_addr (trim declared_addr) of
             None \<Rightarrow> Inl DeclaredInvalid
           | Some declared \<Rightarrow>
               if derived \<noteq> declared then Inl (AddressMismatch declared derived) else Inr derived))"

definition wallet_from_env ::
  "(string \<Rightarrow> address option) \<Rightarrow> (string \<Rightarrow> address option) \<Rightarrow> string option \<Rightarrow> string option
     \<Rightarrow> wallet_error + address" where
  "wallet_from_env derive parse_addr env_key env_addr =
     (case env_key of None \<Rightarrow> Inl MissingEnv
      | Some pk_hex \<Rightarrow>
          (case env_addr of None \<Rightarrow> Inl MissingEnv
           | Some declared \<Rightarrow> wallet_from_parts derive parse_addr pk_hex declared))"

section \<open>Start-up\<close>

text \<open>What the start-up reads: files, environment, the node's nonce, the clocks.\<close>

record boot =
  bo_config :: "load_error + limits_config"
  bo_derive :: "string \<Rightarrow> address option"
  bo_parse_addr :: "string \<Rightarrow> address option"
  bo_env_key :: "string option"
  bo_env_addr :: "string option"
  bo_chain_nonce :: "string option"
  bo_nonce_file :: "string option"
  bo_ledger_file :: "disk_file option"
  bo_blacklist :: blacklist_file
  bo_http_builds :: bool
  bo_unix_secs :: u64
  bo_instant :: int

text \<open>Any missing piece leaves the live side off, but for the blacklist file.\<close>

definition build_live_executor :: "boot \<Rightarrow> executor option" where
  "build_live_executor b =
     (case load_config (bo_config b) of
        Inl _ \<Rightarrow> None
      | Inr cfg \<Rightarrow>
     (case wallet_from_env (bo_derive b) (bo_parse_addr b) (bo_env_key b) (bo_env_addr b) of
        Inl _ \<Rightarrow> None
      | Inr wallet \<Rightarrow>
     (case nonce_new (bo_chain_nonce b) True (bo_nonce_file b) of
        Inl _ \<Rightarrow> None
      | Inr nonce \<Rightarrow>
     (case bo_ledger_file b of
        None \<Rightarrow> None
      | Some f \<Rightarrow>
          if bo_http_builds b
          then Some (executor_new wallet nonce (limits_new cfg (bo_unix_secs b)) (live_ledger_new f)
                 (blacklist_load (bo_parse_addr b) (bo_blacklist b)) (bo_instant b))
          else None))))"

definition strategy_of :: "limits_config \<Rightarrow> strategy_config" where
  "strategy_of cfg = (let sc = lc_strategy cfg in
     \<lparr>sc_kol_filter = sl_kol_whitelist sc, sc_min_buy_usd = sl_min_buy_usd sc,
      sc_min_buy_bnb = sl_min_buy_bnb sc, sc_size_fraction = sl_size_fraction sc\<rparr>)"

section \<open>The kill switch\<close>

text \<open>The poller's task: waiting for its first wallet reading, given up, or armed.\<close>

datatype kill_task = KillStarting | KillDegraded | KillArmed f64 u64

definition utc_day :: "u64 \<Rightarrow> u64" where
  "utc_day now_secs = now_secs div 86400"

definition kill_arm :: "reply \<Rightarrow> u64 \<Rightarrow> kill_task" where
  "kill_arm balance now_secs =
     (case wallet_balance_bnb_of balance of
        None \<Rightarrow> KillDegraded
      | Some initial \<Rightarrow> KillArmed initial (utc_day now_secs))"

text \<open>One tick: the loss to report, if any, and the new baseline.\<close>

definition kill_tick :: "reply \<Rightarrow> f64 option \<Rightarrow> u64 \<Rightarrow> f64 \<Rightarrow> u64 \<Rightarrow> f64 option \<times> f64 \<times> u64" where
  "kill_tick balance price now_secs baseline baseline_day =
     (let now_bnb = (case wallet_balance_bnb_of balance of Some b \<Rightarrow> b | None \<Rightarrow> baseline);
          bnb_usd = (case price of Some p \<Rightarrow> p | None \<Rightarrow> Fin 0)
      in if fle bnb_usd (Fin 0) then (None, baseline, baseline_day)
         else let today = utc_day now_secs in
           if today \<noteq> baseline_day then (Some (Fin 0), now_bnb, today)
           else (Some (fmul (fmax (fsub baseline now_bnb) (Fin 0)) bnb_usd), baseline, baseline_day))"

section \<open>The live trader\<close>

record live_trader =
  lt_watch :: watcher
  lt_trail_active :: bool
  lt_strategy :: strategy_config
  lt_kill :: kill_task

definition lt_exec :: "live_trader \<Rightarrow> executor" where
  "lt_exec lt = tw_exec (lt_watch lt)"

definition set_exec :: "executor \<Rightarrow> live_trader \<Rightarrow> live_trader" where
  "set_exec ex lt = lt\<lparr>lt_watch := (lt_watch lt)\<lparr>tw_exec := ex\<rparr>\<rparr>"

definition start_live_only :: "boot \<Rightarrow> trail_config \<Rightarrow> feed \<Rightarrow> live_trader option" where
  "start_live_only b trail_cfg fd =
     map_option (\<lambda>ex. \<lparr>lt_watch = \<lparr>tw_cfg = trail_cfg, tw_exec = ex, tw_states = Map.empty, tw_feed = fd\<rparr>,
        lt_trail_active = tc_enabled trail_cfg, lt_strategy = strategy_of (lr_cfg (ex_limits ex)),
        lt_kill = KillStarting\<rparr>) (build_live_executor b)"

text \<open>
  One KOL hit. The parsers are alloy's; the price is the consumer's own oracle reading, the
  readings are those of the executor's handler.
\<close>

record hit_readings =
  hr_parse_hash :: "string \<Rightarrow> b256 option"
  hr_parse_addr :: "string \<Rightarrow> address option"
  hr_bnb_usd :: "f64 option"
  hr_exec :: readings

definition decide_hit :: "hit_readings \<Rightarrow> kol_hit \<Rightarrow> live_trader \<Rightarrow> decision" where
  "decide_hit hr hit lt = evaluate (hr_parse_hash hr) (hr_parse_addr hr) (lt_strategy lt) hit
     (case hr_bnb_usd hr of Some p \<Rightarrow> p | None \<Rightarrow> Fin 0)"

definition consume_hit :: "platform \<Rightarrow> hit_readings \<Rightarrow> kol_hit \<Rightarrow> live_trader \<Rightarrow> live_trader" where
  "consume_hit pf hr hit lt =
     (let decision = decide_hit hr hit lt; ex = lt_exec lt in
      case decision of
        Skip reason \<Rightarrow> lt
      | Exit kol_name token kol_block _ kol_addr \<Rightarrow>
          if lt_trail_active lt then lt
          else set_exec (snd (execute_exit pf (hr_exec hr) token kol_name kol_block kol_addr ex)) lt
      | Enter _ _ _ _ _ _ \<Rightarrow>
          set_exec (snd (execute pf (hr_exec hr) decision (kh_visibility hit)
            (executor_open_positions ex) ex)) lt)"

text \<open>Everything that happens to the live trader; without the trail only its other tasks run.\<close>

datatype trader_event =
    Hit platform hit_readings kol_hit
  | KillArm reply u64
  | KillTick reply "f64 option" u64
  | Block platform "address \<Rightarrow> trail_readings" u64 "(address \<times> nat) list"
  | FeedEvent trade_log bool
  | Task platform bg_readings nat
  | BalanceRefresh int reply

definition kill_step :: "reply \<Rightarrow> f64 option \<Rightarrow> u64 \<Rightarrow> live_trader \<Rightarrow> live_trader" where
  "kill_step balance price now_secs lt =
     (case lt_kill lt of
        KillArmed baseline day \<Rightarrow>
          (case kill_tick balance price now_secs baseline day of
             (None, baseline', day') \<Rightarrow> lt\<lparr>lt_kill := KillArmed baseline' day'\<rparr>
           | (Some loss, baseline', day') \<Rightarrow>
               set_exec (exec_step (lt_exec lt) (LossReport loss)) lt\<lparr>lt_kill := KillArmed baseline' day'\<rparr>)
      | _ \<Rightarrow> lt)"

fun trader_step :: "live_trader \<Rightarrow> trader_event \<Rightarrow> live_trader" where
  "trader_step lt (Hit pf hr hit) = consume_hit pf hr hit lt"
| "trader_step lt (KillArm balance now_secs) =
     (if lt_kill lt = KillStarting then lt\<lparr>lt_kill := kill_arm balance now_secs\<rparr> else lt)"
| "trader_step lt (KillTick balance price now_secs) = kill_step balance price now_secs lt"
| "trader_step lt (Block pf trs block snapshot) =
     (if lt_trail_active lt
      then lt\<lparr>lt_watch := watch_step (lt_watch lt) (BlockTick pf trs block snapshot)\<rparr> else lt)"
| "trader_step lt (FeedEvent lg is_buy) = lt\<lparr>lt_watch := watch_step (lt_watch lt) (TradeEvent lg is_buy)\<rparr>"
| "trader_step lt (Task pf br k) = set_exec (exec_step (lt_exec lt) (BackgroundRun pf br k)) lt"
| "trader_step lt (BalanceRefresh now r) = set_exec (exec_step (lt_exec lt) (WalletRefresh now r)) lt"

section \<open>What the parts do to the executor\<close>

lemma set_exec_simps [simp]:
  "lt_exec (set_exec ex lt) = ex" "lt_kill (set_exec ex lt) = lt_kill lt"
  "lt_trail_active (set_exec ex lt) = lt_trail_active lt" "lt_strategy (set_exec ex lt) = lt_strategy lt"
  by (simp_all add: set_exec_def lt_exec_def)

lemma lt_exec_kill [simp]: "lt_exec (lt\<lparr>lt_kill := k\<rparr>) = lt_exec lt"
  by (simp add: lt_exec_def)

text \<open>
  The executor events each event of the trader may cause: entries and KOL sells from the
  consumer, losses from the kill switch, full-close sells from the trail.
\<close>

fun trader_allowed :: "trader_event \<Rightarrow> exec_event set" where
  "trader_allowed (Hit pf hr hit) =
     {BuyDecision pf (hr_exec hr) (Enter (kh_kol_name hit) token amount kol_bnb 0 tx) (kh_visibility hit)
        | token amount kol_bnb tx. kh_token hit = Some token \<and> kh_side hit = Some ''BUY'' \<and> amount \<le> kol_bnb}
     \<union> {SellSignal pf (hr_exec hr) token (kh_kol_name hit) blk addr
        | token blk addr. kh_token hit = Some token \<and> kh_side hit = Some ''SELL''}"
| "trader_allowed (KillArm balance now_secs) = {}"
| "trader_allowed (KillTick balance price now_secs) = range LossReport"
| "trader_allowed (Block pf trs block snapshot) = watch_allowed (BlockTick pf trs block snapshot)"
| "trader_allowed (FeedEvent lg is_buy) = {}"
| "trader_allowed (Task pf br k) = {BackgroundRun pf br k}"
| "trader_allowed (BalanceRefresh now r) = {WalletRefresh now r}"

fun trader_cost :: "trader_event \<Rightarrow> nat" where
  "trader_cost (Block pf trs block snapshot) = length snapshot"
| "trader_cost _ = 1"

text \<open>What a decision on a hit says about the hit.\<close>

lemma evaluate_enter_hit:
  assumes "evaluate ph pa cfg hit bnb_usd = Enter kol token amount kol_bnb blk tx"
  shows "kol = kh_kol_name hit \<and> kh_token hit = Some token \<and> kh_side hit = Some ''BUY'' \<and> amount \<le> kol_bnb \<and> blk = 0
    \<and> (sc_kol_filter cfg = [] \<or> kol \<in> set (sc_kol_filter cfg))"
  using assms
  by (auto simp: evaluate_def evaluate_sell_def evaluate_buy_def Let_def scale_size_le
      split: if_splits option.splits)

lemma evaluate_exit_hit:
  assumes "evaluate ph pa cfg hit bnb_usd = Exit kol token blk tx addr"
  shows "kol = kh_kol_name hit \<and> kh_token hit = Some token \<and> kh_side hit = Some ''SELL''"
  using assms
  by (auto simp: evaluate_def evaluate_sell_def evaluate_buy_def Let_def split: if_splits option.splits)

lemma consume_hit_sim:
  "lt_exec (consume_hit pf hr hit lt) = lt_exec lt
   \<or> (\<exists>ev \<in> trader_allowed (Hit pf hr hit). lt_exec (consume_hit pf hr hit lt) = exec_step (lt_exec lt) ev)"
proof (cases "decide_hit hr hit lt")
  case (Skip r)
  then show ?thesis by (simp add: consume_hit_def Let_def)
next
  case (Exit kol token blk tx addr)
  note e = evaluate_exit_hit [OF Exit [unfolded decide_hit_def]]
  let ?ev = "SellSignal pf (hr_exec hr) token (kh_kol_name hit) blk addr"
  have "?ev \<in> trader_allowed (Hit pf hr hit)" using e by simp
  moreover have "lt_exec (consume_hit pf hr hit lt) \<in> {lt_exec lt, exec_step (lt_exec lt) ?ev}"
    using e by (simp add: consume_hit_def Exit Let_def)
  ultimately show ?thesis by blast
next
  case (Enter kol token amount kol_bnb blk tx)
  note e = evaluate_enter_hit [OF Enter [unfolded decide_hit_def]]
  let ?ev = "BuyDecision pf (hr_exec hr) (Enter (kh_kol_name hit) token amount kol_bnb 0 tx) (kh_visibility hit)"
  have "?ev \<in> trader_allowed (Hit pf hr hit)" using e by simp
  moreover have "lt_exec (consume_hit pf hr hit lt) = exec_step (lt_exec lt) ?ev"
    using e by (simp add: consume_hit_def Enter Let_def)
  ultimately show ?thesis by blast
qed

interpretation trader_exec: simulation trader_step exec_step lt_exec trader_allowed trader_cost
proof
  fix e lt
  have one: "\<exists>fs. set fs \<subseteq> A \<and> length fs \<le> Suc 0 \<and> x = foldl exec_step (lt_exec lt) fs"
    if "x = lt_exec lt \<or> (\<exists>ev \<in> A. x = exec_step (lt_exec lt) ev)" for A x
    using that
  proof
    assume "\<exists>ev \<in> A. x = exec_step (lt_exec lt) ev"
    then obtain ev where "ev \<in> A" "x = exec_step (lt_exec lt) ev" ..
    then show ?thesis by (intro exI [of _ "[ev]"]) simp
  qed (intro exI [of _ "[]"], simp)
  show "\<exists>fs. set fs \<subseteq> trader_allowed e \<and> length fs \<le> trader_cost e
      \<and> lt_exec (trader_step lt e) = foldl exec_step (lt_exec lt) fs"
  proof (cases e)
    case (Hit pf hr hit)
    have "\<exists>fs. set fs \<subseteq> trader_allowed (Hit pf hr hit) \<and> length fs \<le> Suc 0
        \<and> lt_exec (consume_hit pf hr hit lt) = foldl exec_step (lt_exec lt) fs"
      by (rule one) (rule consume_hit_sim)
    then show ?thesis by (simp only: Hit trader_step.simps trader_cost.simps One_nat_def)
  next
    case (KillTick balance price now_secs)
    then show ?thesis
      by (auto simp: kill_step_def split: kill_task.splits prod.splits option.splits intro!: one)
  next
    case (Block pf trs block snapshot)
    then show ?thesis
      using watch_exec.step_sim [of "BlockTick pf trs block snapshot" "lt_watch lt"]
      by (cases "lt_trail_active lt") (auto simp: lt_exec_def intro: exI [of _ "[]"])
  next
    case (Task pf br k)
    then show ?thesis by (intro exI [of _ "[BackgroundRun pf br k]"]) simp
  next
    case (BalanceRefresh now r)
    then show ?thesis by (intro exI [of _ "[WalletRefresh now r]"]) simp
  qed (auto simp: lt_exec_def intro: exI [of _ "[]"])
qed

section \<open>Start-up\<close>

lemma load_config_Inr: "load_config c = Inr cfg \<longleftrightarrow> c = Inr cfg \<and> active_phases (lc_phase cfg) = 1"
  by (auto simp: load_config_def split: sum.splits if_splits)

lemma wallet_from_parts_Inr:
  "wallet_from_parts derive pa key decl = Inr w \<longleftrightarrow> length (trim_start_matches ''0x'' (trim key)) = 64
     \<and> derive (trim_start_matches ''0x'' (trim key)) = Some w \<and> pa (trim decl) = Some w"
  by (auto simp: wallet_from_parts_def Let_def split: option.splits)

lemma wallet_from_env_Inr:
  "wallet_from_env derive pa k a = Inr w \<longleftrightarrow> (\<exists>key. k = Some key
     \<and> length (trim_start_matches ''0x'' (trim key)) = 64
     \<and> derive (trim_start_matches ''0x'' (trim key)) = Some w
     \<and> Option.bind a (\<lambda>a. pa (trim a)) = Some w)"
  by (cases k; cases a) (simp_all add: wallet_from_env_def wallet_from_parts_Inr)

lemma nonce_new_Inr:
  "nonce_new r p f = Inr m \<longleftrightarrow>
     (\<exists>chain. fetch_pending_nonce r = Inr chain \<and> m = \<lparr>nm_current = max chain (disk_nonce p f), nm_persist = p\<rparr>)"
  by (auto simp: nonce_new_def split: sum.splits)

lemma build_live_executor_Some:
  "build_live_executor b = Some ex \<longleftrightarrow>
     (\<exists>cfg w n f. load_config (bo_config b) = Inr cfg
        \<and> wallet_from_env (bo_derive b) (bo_parse_addr b) (bo_env_key b) (bo_env_addr b) = Inr w
        \<and> nonce_new (bo_chain_nonce b) True (bo_nonce_file b) = Inr n \<and> bo_ledger_file b = Some f \<and> bo_http_builds b
        \<and> ex = executor_new w n (limits_new cfg (bo_unix_secs b)) (live_ledger_new f)
             (blacklist_load (bo_parse_addr b) (bo_blacklist b)) (bo_instant b))"
  by (auto simp: build_live_executor_def split: sum.splits option.splits)

text \<open>
  The live side starts only when everything is in place: a configuration that parses with
  exactly one phase flag set, a key of 64 hexadecimal characters whose address is the declared
  one, a nonce from the chain, a ledger and an HTTP client. It then starts empty, with that
  wallet and configuration, at the larger of the chain's and the saved nonce, and with at
  least the compiled-in tokens refused.
\<close>

lemma startup_requires:
  "build_live_executor b = Some ex \<longleftrightarrow>
     (\<exists>cfg key w chain f. bo_config b = Inr cfg \<and> active_phases (lc_phase cfg) = 1
        \<and> bo_env_key b = Some key \<and> length (trim_start_matches ''0x'' (trim key)) = 64
        \<and> bo_derive b (trim_start_matches ''0x'' (trim key)) = Some w
        \<and> Option.bind (bo_env_addr b) (\<lambda>a. bo_parse_addr b (trim a)) = Some w
        \<and> fetch_pending_nonce (bo_chain_nonce b) = Inr chain \<and> bo_ledger_file b = Some f \<and> bo_http_builds b
        \<and> ex = executor_new w \<lparr>nm_current = max chain (disk_nonce True (bo_nonce_file b)), nm_persist = True\<rparr>
             (limits_new cfg (bo_unix_secs b)) (live_ledger_new f)
             (blacklist_load (bo_parse_addr b) (bo_blacklist b)) (bo_instant b))"
  (is "_ \<longleftrightarrow> ?rhs")
proof
  assume "build_live_executor b = Some ex"
  then obtain cfg w n f where 1: "load_config (bo_config b) = Inr cfg"
    "wallet_from_env (bo_derive b) (bo_parse_addr b) (bo_env_key b) (bo_env_addr b) = Inr w"
    "nonce_new (bo_chain_nonce b) True (bo_nonce_file b) = Inr n" "bo_ledger_file b = Some f" "bo_http_builds b"
    "ex = executor_new w n (limits_new cfg (bo_unix_secs b)) (live_ledger_new f)
       (blacklist_load (bo_parse_addr b) (bo_blacklist b)) (bo_instant b)"
    unfolding build_live_executor_Some by (elim exE conjE) (rule that)
  note cfg = 1(1) [unfolded load_config_Inr]
  from 1(2) obtain key where "bo_env_key b = Some key" "length (trim_start_matches ''0x'' (trim key)) = 64"
    "bo_derive b (trim_start_matches ''0x'' (trim key)) = Some w"
    "Option.bind (bo_env_addr b) (\<lambda>a. bo_parse_addr b (trim a)) = Some w"
    unfolding wallet_from_env_Inr by (elim exE conjE) (rule that)
  moreover from 1(3) obtain chain where "fetch_pending_nonce (bo_chain_nonce b) = Inr chain"
    "n = \<lparr>nm_current = max chain (disk_nonce True (bo_nonce_file b)), nm_persist = True\<rparr>"
    unfolding nonce_new_Inr by (elim exE conjE) (rule that)
  ultimately show ?rhs using 1(4-6) cfg by (intro exI conjI) (assumption | simp)+
next
  assume ?rhs
  then show "build_live_executor b = Some ex"
    unfolding build_live_executor_Some load_config_Inr wallet_from_env_Inr nonce_new_Inr
    by (elim exE conjE) (intro exI conjI; (assumption | rule refl)?)
qed

section \<open>Every history of the live trader\<close>

fun kol_sell :: "trader_event \<Rightarrow> bool" where
  "kol_sell (Hit pf hr hit) \<longleftrightarrow> kh_side hit = Some ''SELL''"
| "kol_sell _ \<longleftrightarrow> False"

lemma trail_active_stays [simp]: "lt_trail_active (trader_step lt e) = lt_trail_active lt"
proof (cases e)
  case (Hit pf hr hit)
  then show ?thesis by (cases "decide_hit hr hit lt") (simp_all add: consume_hit_def Let_def)
next
  case (KillTick balance price now_secs)
  then show ?thesis by (simp add: kill_step_def split: kill_task.split prod.split option.split)
qed simp_all

lemma kol_sell_ignored:
  assumes "lt_trail_active lt" and "kol_sell e"
  shows "trader_step lt e = lt"
proof -
  obtain pf hr hit where e: "e = Hit pf hr hit" "kh_side hit = Some ''SELL''"
    using assms(2) by (cases e) auto
  show ?thesis
  proof (cases "decide_hit hr hit lt")
    case (Enter kol token amount kol_bnb blk tx)
    then show ?thesis using evaluate_enter_hit [OF Enter [unfolded decide_hit_def]] e by simp
  qed (use assms(1) in \<open>simp_all add: e consume_hit_def Let_def\<close>)
qed

lemma kol_sells_filtered:
  "lt_trail_active lt \<Longrightarrow> foldl trader_step lt es = foldl trader_step lt (filter (\<lambda>e. \<not> kol_sell e) es)"
  by (induction es arbitrary: lt) (auto simp: kol_sell_ignored)

text \<open>
  C8: The live trader is the executor driven from outside: over any history of hits, prices,
  blocks, kill-switch ticks and background tasks its executor ends where some history of
  executor events leads. Each of these is an entry on the token of a hit decoded as a BUY with
  a stake of at most the KOL's, a sell for a hit decoded as a SELL, a full-close sell of the
  trail, a loss report, or an event of the background tasks; with the trail active no sell
  comes from a KOL. There are at most as many as the events cost.
\<close>

theorem live_trader_refines_executor:
  "\<exists>evs. lt_exec (foldl trader_step lt es) = foldl exec_step (lt_exec lt) evs
     \<and> set evs \<subseteq> (\<Union>e \<in> set (if lt_trail_active lt then filter (\<lambda>e. \<not> kol_sell e) es else es). trader_allowed e)
     \<and> length evs \<le> sum_list (map trader_cost es)"
proof -
  let ?es = "if lt_trail_active lt then filter (\<lambda>e. \<not> kol_sell e) es else es"
  have same: "foldl trader_step lt es = foldl trader_step lt ?es"
  proof (cases "lt_trail_active lt")
    case True
    then show ?thesis unfolding if_P [OF True] by (rule kol_sells_filtered)
  qed (simp only: if_False)
  have cost: "sum_list (map trader_cost ?es) \<le> sum_list (map trader_cost es)"
    by (induction es) auto
  obtain evs where evs: "set evs \<subseteq> (\<Union>e \<in> set ?es. trader_allowed e)"
    "length evs \<le> sum_list (map trader_cost ?es)" "lt_exec (foldl trader_step lt ?es) = foldl exec_step (lt_exec lt) evs"
    using trader_exec.run_sim [of ?es lt] by blast
  have "lt_exec (foldl trader_step lt es) = foldl exec_step (lt_exec lt) evs"
    by (rule trans [OF arg_cong [OF same, of lt_exec] evs(3)])
  with evs(1) order_trans [OF evs(2) cost] show ?thesis by blast
qed


section \<open>A concrete live trader\<close>

definition example_boot :: boot where
  "example_boot = \<lparr>bo_config = Inr (example_limits\<lparr>lc_phase := \<lparr>ph_shadow = False, ph_tiny = False, ph_full = True\<rparr>\<rparr>),
     bo_derive = (\<lambda>_. Some 3), bo_parse_addr = (\<lambda>_. Some 3), bo_env_key = Some (replicate 64 CHR ''a''),
     bo_env_addr = Some ''x'', bo_chain_nonce = Some ''0x5'', bo_nonce_file = Some ''41'',
     bo_ledger_file = Some Missing, bo_blacklist = FileMissing, bo_http_builds = True,
     bo_unix_secs = 0, bo_instant = 0\<rparr>"

definition example_booted :: executor where
  "example_booted = executor_new 3 \<lparr>nm_current = 41, nm_persist = True\<rparr>
     (limits_new (example_limits\<lparr>lc_phase := \<lparr>ph_shadow = False, ph_tiny = False, ph_full = True\<rparr>\<rparr>) 0)
     (live_ledger_new Missing) (Some (set FALLBACK_BLACKLISTED)) 0"

definition example_trader :: "bool \<Rightarrow> live_trader" where
  "example_trader trail = \<lparr>lt_watch = \<lparr>tw_cfg = trail_config_default\<lparr>tc_enabled := trail\<rparr>, tw_exec = example_booted,
       tw_states = Map.empty, tw_feed = feed_new\<rparr>,
     lt_trail_active = trail, lt_strategy = strategy_of (lr_cfg (ex_limits example_booted)),
     lt_kill = KillStarting\<rparr>"

lemma example_build: "build_live_executor example_boot = Some example_booted"
proof -
  have key: "trim_start_matches ''0x'' (trim (replicate 64 CHR ''a'')) = replicate 64 CHR ''a''"
    by (simp add: trim_def is_space_def trim_start_matches.simps strip_prefix_def numeral_eq_Suc)
  have disk: "disk_nonce True (Some ''41'') = 41"
    by (simp add: disk_nonce_def parse_u64_def from_str_radix_def digit_val_def trim_def is_space_def)
  have chain: "fetch_pending_nonce (Some ''0x5'') = Inr 5"
    by (simp add: fetch_pending_nonce_def strip_prefix_def parse_u64_def from_str_radix_def digit_val_def)
  show ?thesis
    by (simp add: build_live_executor_def example_boot_def example_booted_def load_config_def active_phases_def
        wallet_from_env_def wallet_from_parts_def key nonce_new_def disk chain blacklist_load_def Let_def)
qed

lemma example_start: "start_live_only example_boot (trail_config_default\<lparr>tc_enabled := trail\<rparr>) feed_new = Some (example_trader trail)"
  by (simp add: start_live_only_def example_build example_trader_def)

text \<open>The first buy of the day: gas price from the node, no V2 pair, the launchpad accepts.\<close>

definition boot_readings :: readings where
  "boot_readings = example_readings\<lparr>rd_gas := \<lambda>_. Reply (JObj [(''result'', JStr (show_hex 10000000000))])\<rparr>"

definition example_hit_readings :: hit_readings where
  "example_hit_readings = \<lparr>hr_parse_hash = (\<lambda>_. Some 7), hr_parse_addr = (\<lambda>_. None), hr_bnb_usd = Some (Fin 600),
     hr_exec = boot_readings\<rparr>"

lemma example_first_buy:
  obtains tx ex' where
    "execute example_platform boot_readings (Enter ''D'' 5 amount kol_bnb 0 h) ''public'' 0 example_booted
       = (Broadcast tx, ex')"
proof -
  let ?ex = example_booted
  have cap: "trade_cap (ex_limits ?ex) = Fin 1"
    by (simp add: trade_cap_def example_booted_def executor_new_def limits_new_def
        effective_per_trade_max_bnb_def example_limits_def)
  have dg: "dup_guard 5 ?ex = Some ?ex"
    by (simp add: dup_guard_def entry_at_def example_booted_def executor_new_def)
  have us: "usd_sizing (lc_strategy (lr_cfg (ex_limits ?ex))) (rd_bnb_usd boot_readings)
      ''public'' amount = Some (amount, ''fallback_no_price'')"
    by (simp add: usd_sizing_def example_booted_def executor_new_def limits_new_def
        example_limits_def boot_readings_def example_readings_def)
  have bl: "\<not> check_blacklisted (ex_blacklist ?ex) 5"
    by (simp add: check_blacklisted_def example_booted_def executor_new_def FALLBACK_BLACKLISTED_def)
  obtain f bnb where cl: "clamp_to_cap (Fin 1) amount = (f, bnb)" and f: "\<not> flt (Fin 1) f"
    by (cases "flt (Fin 1) (wei_to_bnb amount)") (simp_all add: clamp_to_cap_def Let_def)
  have gp: "gas_price_of (Reply (JObj [(''result'', JStr (show_hex 10000000000))])) = Some 10000000000"
    using parse_show_hex [of 10000000000 "2 ^ 128"] by (simp add: gas_price_of_def result_str_def parse_u128_def)
  let ?ex1 = "?ex\<lparr>ex_gas_cache := \<lparr>gc_wei = 10000000000, gc_refreshed = 0\<rparr>\<rparr>"
  have gw: "gas_wei (rd_instant boot_readings) (rd_gas boot_readings 0) ?ex = (Some 10000000000, ?ex1)"
    by (simp add: gas_wei_def example_booted_def executor_new_def boot_readings_def example_readings_def gp)
  have lc: "limits_check (ex_limits ?ex1) \<lparr>tk_kol_name = ''D'', tk_visibility = ''public'',
        tk_bnb_amount = f, tk_current_open_positions = 0,
        tk_current_wallet_bnb = wallet_balance_bnb_cached ?ex, tk_current_gas_gwei = 10\<rparr>
        (rd_unix_ms boot_readings) = (ex_limits ?ex1, Inr ())"
    using f by (simp add: limits_check_def maybe_reset_day_def run_gates_def example_booted_def executor_new_def
        limits_new_def daily_state_for_def day_of_ms_def cooldown_remaining_def trade_cap_def
        effective_per_trade_max_bnb_def example_limits_def boot_readings_def example_readings_def
        wallet_balance_bnb_cached_def)
  obtain ex2 where pr: "pick_route example_platform boot_readings 0 5 ActBuy ?ex1 = (Some FourMeme, ex2)"
    by (simp add: pick_route_def v2_pair_cached_def cached_pair_def example_booted_def executor_new_def
        boot_readings_def example_readings_def eth_call_succeeds_of_def v2_pair_lookup_of_def result_str_def)
  note f2 = pick_route_frame [OF pr]
  have br: "broadcast_result jt (\<lambda>_. Reply (JObj [])) = Inr ()" for jt
    by (simp add: broadcast_result_def submit_raw_unfold submit_verdict_def)
  have live: "live_mode ex2"
    using f2 by (simp add: live_mode_def example_booted_def executor_new_def limits_new_def broadcast_enabled_def)
  have same: "?ex1\<lparr>ex_limits := ex_limits ?ex1\<rparr> = ?ex1" by simp
  have las: "limits_and_send example_platform boot_readings ''D'' ''public'' 5 amount 0 ?ex
      = send_buy example_platform boot_readings ''D'' ''public'' 5 bnb
        FourMeme (buy_gas_wei (Some 10000000000)) (wallet_balance_bnb_cached ?ex) ex2"
    by (simp only: limits_and_send_def cap cl gw lc example_gas same Let_def prod.case sum.case route_and_send_def pr
        option.case sell_tax_gate_def buy_route.distinct if_False)
  obtain n ex3 where r: "reserve_nonce ex2 = (n, ex3)" by fastforce
  have live3: "live_mode ex3" using live reserve_nonce_frame [OF r] by (simp add: live_mode_def)
  have sub: "rd_submit boot_readings = (\<lambda>_ _. Reply (JObj []))"
    and sgn: "pf_sign example_platform = (\<lambda>_. Some 7)"
    by (simp_all add: boot_readings_def example_readings_def example_platform_def)
  show thesis
    by (rule that)
      (simp add: execute_def dg us bl las send_buy_def build_buy_def r broadcast_def br sub sgn live3 Let_def)
qed

lemma example_decides:
  obtains amount kol_bnb where
    "decide_hit example_hit_readings example_hit (example_trader trail) = Enter ''D'' 5 amount kol_bnb 0 7"
  by (simp add: decide_hit_def example_hit_readings_def example_trader_def strategy_of_def example_booted_def
      executor_new_def limits_new_def example_limits_def evaluate_def evaluate_buy_def example_hit_def Let_def)

lemma example_hit_buys:
  "\<exists>tx. ex_sent (lt_exec (trader_step (example_trader trail) (Hit example_platform example_hit_readings example_hit))) = [tx]"
proof -
  obtain amount kol_bnb where d:
    "decide_hit example_hit_readings example_hit (example_trader trail) = Enter ''D'' 5 amount kol_bnb 0 7"
    by (rule example_decides)
  obtain tx ex' where e: "execute example_platform boot_readings (Enter ''D'' 5 amount kol_bnb 0 7) ''public'' 0 example_booted
       = (Broadcast tx, ex')" by (rule example_first_buy)
  have "lt_exec (example_trader trail) = example_booted" by (simp add: lt_exec_def example_trader_def)
  moreover have "executor_open_positions example_booted = 0"
    by (simp add: executor_open_positions_def open_count_def example_booted_def executor_new_def live_ledger_new_def)
  moreover have "ex_sent example_booted = []" by (simp add: example_booted_def executor_new_def)
  ultimately show ?thesis
    using broadcast_sent [OF e] d e
    by (simp add: consume_hit_def example_hit_readings_def example_hit_def Let_def)
qed


section \<open>Nonces over the whole life\<close>

fun tame_trader_event :: "trader_event \<Rightarrow> bool" where
  "tame_trader_event (Hit pf hr hit) = tame (hr_exec hr)"
| "tame_trader_event (Block pf trs block snapshot) = (\<forall>token \<in> fst ` set snapshot. tame (tr_exit (trs token)))"
| "tame_trader_event _ = True"

lemma allowed_tame: "tame_trader_event e \<Longrightarrow> ev \<in> trader_allowed e \<Longrightarrow> tame_event ev"
  by (cases e) auto

text \<open>
  From start to end of the process no nonce is used twice, whatever the consumer, the
  trail, the kill switch and the background tasks do in whatever order: the transactions
  handed to the network carry strictly increasing nonces, none below the node's count at the
  start nor below the number saved on disk by the process before. The chain's answers and the
  length of the history stay below a half of the 64-bit range.
\<close>

lemma live_trader_nonces_increase:
  assumes "start_live_only b cfg fd = Some lt" and "\<forall>e \<in> set es. tame_trader_event e"
    and "2 * sum_list (map trader_cost es) < 2 ^ 63"
    and "fetch_pending_nonce (bo_chain_nonce b) = Inr chain" and "unat chain \<le> 2 ^ 63"
    and "unat (disk_nonce True (bo_nonce_file b)) \<le> 2 ^ 63"
  shows "sorted_wrt (<) (map (\<lambda>tx. unat (tx_nonce tx)) (ex_sent (lt_exec (foldl trader_step lt es))))
    \<and> (\<forall>tx \<in> set (ex_sent (lt_exec (foldl trader_step lt es))).
         chain \<le> tx_nonce tx \<and> disk_nonce True (bo_nonce_file b) \<le> tx_nonce tx)"
proof -
  obtain ex where ex: "build_live_executor b = Some ex" "lt_exec lt = ex"
    using assms(1) by (auto simp: start_live_only_def lt_exec_def)
  let ?disk = "disk_nonce True (bo_nonce_file b)"
  have s: "ex_sent ex = []" "nm_current (ex_nonce ex) = max chain ?disk"
    using ex(1) assms(4) by (auto simp: build_live_executor_Some nonce_new_Inr executor_new_def)
  have "unat (max chain ?disk) \<le> 2 ^ 63" using assms(5,6) by (simp add: max_def)
  then have lv: "level ex \<le> 2 ^ 63" by (simp add: level_def s)
  obtain evs where evs: "set evs \<subseteq> (\<Union>e \<in> set es. trader_allowed e)" "length evs \<le> sum_list (map trader_cost es)"
    "lt_exec (foldl trader_step lt es) = foldl exec_step ex evs"
    using trader_exec.run_sim [of es lt] ex(2) by blast
  have tm: "\<forall>ev \<in> set evs. tame_event ev" using evs(1) assms(2) allowed_tame by blast
  have "max (level ex) (2 ^ 63) + 2 * length evs < 2 ^ 64" using lv evs(2) assms(3) by simp
  from history_advances [OF tm this] have "advances (2 * length evs) ex (foldl exec_step ex evs)" .
  then have "sorted_wrt (<) (map nonce_of (ex_sent (foldl exec_step ex evs)))"
    "\<forall>tx \<in> set (ex_sent (foldl exec_step ex evs)). level ex \<le> nonce_of tx"
    by (auto simp: advances_def s)
  moreover have "chain \<le> n \<and> ?disk \<le> n" if "level ex \<le> unat n" for n
    using that by (simp add: level_def s word_le_nat_alt [symmetric])
  ultimately show ?thesis by (simp add: evs(3) nonce_of_def [abs_def])
qed

section \<open>The kill switch\<close>

fun hit_on :: "u64 \<Rightarrow> trader_event \<Rightarrow> bool" where
  "hit_on d (Hit pf hr hit) \<longleftrightarrow> day_of_ms (rd_unix_ms (hr_exec hr)) = d"
| "hit_on d _ \<longleftrightarrow> True"

lemma allowed_on: "hit_on d e \<Longrightarrow> ev \<in> trader_allowed e \<Longrightarrow> event_on d ev"
  by (cases e) auto

lemma sync_halts:
  assumes "fle (hl_daily_loss_usd (lc_limits (lr_cfg r))) (fmax loss (Fin 0))"
    and "\<not> flt (fabs (fsub (fmax loss (Fin 0)) (ds_realized_loss_usd (lr_state r)))) F64_EPSILON"
  shows "ds_halted (lr_state (sync_realized_loss r loss))"
  using assms by (simp add: sync_realized_loss_def Let_def)


text \<open>
  A wallet reading that fails at the midnight rollover keeps yesterday's baseline: the
  rollover tick sets the baseline to the reading or, without one, to the old baseline. The
  next tick then reports yesterday's whole loss as today's, and when it had reached the daily
  cap the new day is halted although nothing was lost in it.
\<close>

lemma failed_rollover_halts_new_day:
  assumes "lt_kill lt = KillArmed baseline yesterday" and "utc_day s1 \<noteq> yesterday" and "utc_day s2 = utc_day s1"
    and "wallet_balance_bnb_of r1 = None" and "wallet_balance_bnb_of r2 = Some now_bnb"
    and "\<not> fle p1 (Fin 0)" and "\<not> fle p2 (Fin 0)"
    and "fle (hl_daily_loss_usd (lc_limits (lr_cfg (ex_limits (lt_exec lt)))))
           (fmax (fmul (fmax (fsub baseline now_bnb) (Fin 0)) p2) (Fin 0))"
    and "\<not> flt (fabs (fsub (fmax (fmul (fmax (fsub baseline now_bnb) (Fin 0)) p2) (Fin 0)) (Fin 0))) F64_EPSILON"
    and "ds_realized_loss_usd (lr_state (ex_limits (lt_exec lt))) = Fin 0"
  shows "is_halted (ex_limits (lt_exec (foldl trader_step lt [KillTick r1 (Some p1) s1, KillTick r2 (Some p2) s2])))"
proof -
  let ?loss = "fmul (fmax (fsub baseline now_bnb) (Fin 0)) p2"
  let ?lt1 = "trader_step lt (KillTick r1 (Some p1) s1)"
  have "kill_tick r1 (Some p1) s1 baseline yesterday = (Some (Fin 0), baseline, utc_day s1)"
    using assms(2,4,6) by (simp add: kill_tick_def)
  then have 1: "lt_kill ?lt1 = KillArmed baseline (utc_day s1)"
    "ex_limits (lt_exec ?lt1) = sync_realized_loss (ex_limits (lt_exec lt)) (Fin 0)"
    using assms(1) by (simp_all add: kill_step_def)
  have z: "sync_realized_loss r (Fin 0) = r" if "ds_realized_loss_usd (lr_state r) = Fin 0" for r
    using that by (simp add: sync_realized_loss_def Let_def F64_EPSILON_def fmax_def fsub_def)
  have "kill_tick r2 (Some p2) s2 baseline (utc_day s1) = (Some ?loss, baseline, utc_day s1)"
    using assms(3,5,7) by (simp add: kill_tick_def)
  then have "ex_limits (lt_exec (trader_step ?lt1 (KillTick r2 (Some p2) s2)))
      = sync_realized_loss (ex_limits (lt_exec lt)) ?loss"
    using 1 z [OF assms(10)] by (simp add: kill_step_def)
  moreover have "ds_halted (lr_state (sync_realized_loss (ex_limits (lt_exec lt)) ?loss))"
    by (rule sync_halts) (simp_all add: assms(8,9,10))
  ultimately show ?thesis by (simp add: is_halted_def)
qed

section \<open>Concrete losses\<close>

definition armed_trader :: "f64 \<Rightarrow> live_trader" where
  "armed_trader baseline = (example_trader True)\<lparr>lt_kill := KillArmed baseline 0\<rparr>"

definition empty_wallet :: reply where
  "empty_wallet = Reply (JObj [(''result'', JStr (show_hex 0))])"

lemma empty_wallet_reading: "wallet_balance_bnb_of empty_wallet = Some (Fin 0)"
proof -
  have "fdiv (Fin 0) (flit 1000000000000000000) = Fin 0"
    using arg_cong [OF flit_wei, of "fdiv (Fin 0)"] by simp
  then show ?thesis
    using parse_show_hex [of 0 "2 ^ 128"]
    by (simp add: wallet_balance_bnb_of_def empty_wallet_def result_str_def parse_u128_def f64_of_word_def
        f64_of_int_def)
qed

lemma armed_simps:
  "lt_kill (armed_trader b) = KillArmed b 0"
  "lr_state (ex_limits (lt_exec (armed_trader b))) = daily_state_for 0"
  "hl_daily_loss_usd (lc_limits (lr_cfg (ex_limits (lt_exec (armed_trader b))))) = Fin 25"
  "ex_sent (lt_exec (armed_trader b)) = []"
  by (simp_all add: armed_trader_def lt_exec_def example_trader_def example_booted_def executor_new_def limits_new_def
      example_limits_def)

lemma loss_of_two: "fmul (fmax (fsub (Fin 2) (Fin 0)) (Fin 0)) (Fin 600) = Fin 1200"
  by (simp add: fsub_def fmax_def)


end
