(* ===== verification/PaperSafety.thy ===== *)
theory PaperSafety
  imports PaperExecutor ExecutorRun
begin

text \<open>
  What holds of every history of the paper executor: the archive meter stays under its cap, the
  held set is exactly the set of tokens with an open position, the budgets cover the open
  stakes, and what goes wrong when an entry gives up after its reservation or when two closes
  of one position overlap.
\<close>

section \<open>The archive meter\<close>

definition metered :: "archive_meter \<Rightarrow> bool" where
  "metered m \<longleftrightarrow> am_calls m \<le> ARCHIVE_DAILY_CAP"

lemma admit_metered: "metered m \<Longrightarrow> metered (snd (archive_admit now m))"
  by (auto simp: metered_def archive_admit_def ARCHIVE_DAILY_CAP_def not_le word_less_nat_alt word_le_nat_alt
      unat_word_ariths)

lemma balance_metered: "metered m \<Longrightarrow> metered (snd (balance_at ar xr blk m))"
  using admit_metered [of m "xr_clock xr blk"]
  by (auto simp: balance_at_def archive_balance_def split: option.split bool.split prod.split)

lemma proceeds_metered: "metered m \<Longrightarrow> metered (snd (native_proceeds ar xr rc m))"
  using balance_metered
  by (fastforce simp: native_proceeds_def Let_def split: option.split prod.split dest: arg_cong [where f = snd])

lemma price_metered: "metered m \<Longrightarrow> metered (snd (kol_exec_price ar xr token decimals is_buy m))"
  using proceeds_metered
  by (fastforce simp: kol_exec_price_def Let_def split: option.split prod.split dest: arg_cong [where f = snd])

lemma fill_metered: "metered m \<Longrightarrow> metered (snd (measured_v2v3_fill ar fr is_buy amount token m))"
  using admit_metered [of m "fr_clock fr"]
  by (auto simp: measured_v2v3_fill_def Let_def split: option.split bool.split prod.split)

lemma swaps_metered: "metered m \<Longrightarrow> metered (snd (swap_prices ph ar swap token decimals is_buy hs m))"
proof (induction hs arbitrary: m)
  case (Cons h hs)
  show ?case
    using Cons.IH [OF price_metered [OF Cons.prems, of ar "swap h" token decimals is_buy]] Cons.IH [OF Cons.prems]
    by (simp add: Let_def split_def split: option.split)
qed simp

lemma chain_metered: "metered m \<Longrightarrow> metered (snd (measured_chain_swap_price ph ar cr is_buy token decimals m))"
  using admit_metered [of m "hr_clock cr"] swaps_metered
  by (auto simp: measured_chain_swap_price_def Let_def split_def split: option.split bool.split prod.split)

lemma entry_metered:
  assumes "metered m"
  shows "metered (snd (raw_entry_quote ar er a token d m))" "metered (snd (entry_fill ph ar cs er a token d q m))"
    "metered (snd (entry_mcaps ar er a token d q m))"
  subgoal
    using assms price_metered [OF assms, of ar "er_exec er" token d True]
    by (auto simp: raw_entry_quote_def split: option.split prod.split)
  subgoal
    using fill_metered [OF assms, of ar "er_fill er" True a token] chain_metered [OF assms, of ph ar "er_chain er" True token d]
    by (auto simp: entry_fill_def split: option.split prod.split)
  subgoal
    using assms price_metered [OF assms, of ar "er_exec2 er" token d True]
    by (auto simp: entry_mcaps_def Let_def split_def split: option.split)
  done

lemma exit_metered:
  assumes "metered m"
  shows "metered (snd (exit_value ph ar cs cl p sl r tr m))" "metered (snd (exit_mcaps ar cl p tk out tr m))"
proof -
  note f = fill_metered [OF assms, of ar "cl_fill cl" False "sl_tokens sl" "op_token_address p"]
  note c = chain_metered [OF f, of ph ar "cl_chain cl" False "op_token_address p" "op_token_decimals p"]
  note x = price_metered [OF c, of ar "cl_exec cl" "op_token_address p" "op_token_decimals p" False]
  show "metered (snd (exit_value ph ar cs cl p sl r tr m))"
    using assms f c x by (cases tr) (auto simp: exit_value_def Let_def split_def split: option.splits)
  show "metered (snd (exit_mcaps ar cl p tk out tr m))"
    using assms price_metered [OF assms] by (auto simp: exit_mcaps_def Let_def split_def split: option.split)
qed

lemma pp_meter_simps [simp]:
  "pp_meter (save_book ok s) = pp_meter s" "pp_meter (settle cl key p sl tr s) = pp_meter s"
  "pp_meter (book_entry er kol token info a tk tx mc s) = pp_meter s"
  by (simp_all add: save_book_def settle_def book_entry_def Let_def)

lemma close_metered: "metered (pp_meter s) \<Longrightarrow> metered (pp_meter (close_one pl cl key r tr f s))"
  using exit_metered
  by (simp add: close_one_def close_taken_def Let_def split_def split: option.split)

lemma closes_metered:
  "metered (pp_meter s) \<Longrightarrow> metered (pp_meter (foldl (\<lambda>s key. close_one pl (cls key) key r tr f s) s keys))"
  by (induction keys arbitrary: s) (simp_all add: close_metered)

lemma enter_metered: "metered (pp_meter s) \<Longrightarrow> metered (pp_meter (handle_enter pl er kol token cd a tx s))"
proof -
  assume m: "metered (pp_meter s)"
  have 1: "pp_meter (snd (entry_stake n kol a s)) = pp_meter s" for n
    by (simp add: entry_stake_def split: option.split prod.split)
  show ?thesis
    using m 1 [of "er_budget_ns er"] entry_metered
    by (fastforce simp: handle_enter_def Let_def split_def split: option.split prod.splits dest: arg_cong [where f = snd])
qed

lemma step_metered: "metered (pp_meter s) \<Longrightarrow> metered (pp_meter (paper_step pl s e))"
  by (cases e) (auto simp: paper_execute_def handle_exit_def sweep_timeouts_def Let_def closes_metered enter_metered
      split: decision.split)

interpretation meter: stateful "paper_step pl" "\<lambda>s. metered (pp_meter s)" for pl
  by unfold_locales (rule step_metered)

text \<open>
  The archive node is called at most 800 times in the life of the process: over any
  history of entries, exits and sweeps, whatever the node answers and the clocks say, the
  counter of the meter never passes the cap.
\<close>

lemma archive_calls_capped:
  "am_calls (pp_meter (foldl (paper_step pl) (paper_new order loaded budgets costs has_archive) es)) \<le> 800"
proof -
  have "metered (pp_meter (paper_new order loaded budgets costs has_archive))"
    by (simp add: paper_new_def Let_def metered_def ARCHIVE_DAILY_CAP_def)
  from meter.run_inv [OF this, of pl es] show ?thesis by (simp add: metered_def ARCHIVE_DAILY_CAP_def)
qed

section \<open>The held set\<close>

definition held_exact :: "paper \<Rightarrow> bool" where
  "held_exact s \<longleftrightarrow> book_inv (pp_book s) \<and> dom (pp_held s) = pk_token ` dom (pp_book s)"

lemma pp_simps [simp]:
  "pp_book (save_book ok s) = pp_book s" "pp_held (save_book ok s) = pp_held s"
  "pp_budgets (save_book ok s) = pp_budgets s" "pp_rows (save_book ok s) = pp_rows s"
  by (simp_all add: save_book_def)

text \<open>A close is a settlement of the position as it stands, or nothing.\<close>

lemma close_one_cases:
  obtains "close_one pl cl key r tr f s = s"
  | p m t where "pp_book s key = Some p" "sl_tokens (close_slice p f) \<noteq> 0"
    "close_one pl cl key r tr f s = settle cl key p (close_slice p f) t (s\<lparr>pp_meter := m\<rparr>)"
    "ct_bnb_in_wei t = sl_bnb_in (close_slice p f)"
proof (cases "pp_book s key")
  case None
  then have "close_one pl cl key r tr f s = s" by (simp add: close_one_def book_get_def)
  then show ?thesis by (rule that(1))
next
  case (Some p)
  show ?thesis
  proof (cases "sl_tokens (close_slice p f) = 0")
    case True
    with Some have "close_one pl cl key r tr f s = s"
      by (simp add: close_one_def close_taken_def book_get_def Let_def)
    then show ?thesis by (rule that(1))
  next
    case False
    let ?ev = "exit_value (pl_parse_hash pl) (pp_has_archive s) (pp_costs s) cl p (close_slice p f) r tr (pp_meter s)"
    let ?mc = "exit_mcaps (pp_has_archive s) cl p (sl_tokens (close_slice p f)) (fst (fst ?ev)) tr (snd ?ev)"
    have "close_one pl cl key r tr f s = settle cl key p (close_slice p f)
        (trade_of cl p (close_slice p f) (fst (fst ?ev)) (snd (fst ?ev)) tr (fst ?mc)) (s\<lparr>pp_meter := snd ?mc\<rparr>)"
      using Some False by (simp add: close_one_def close_taken_def book_get_def Let_def split_def)
    then show ?thesis by (rule that(2) [OF Some False]) (simp add: trade_of_def)
  qed
qed

text \<open>The book after a settlement.\<close>

definition settled_book :: "position_key \<Rightarrow> slice_of \<Rightarrow> position_book \<Rightarrow> position_book" where
  "settled_book key sl b =
     (if sl_full sl then snd (book_remove b key) else shrink b key (sl_rest_tokens sl) (sl_rest_bnb sl))"

lemma settle_simps [simp]:
  "pp_book (settle cl key p sl t s) = settled_book key sl (pp_book s)"
  "pp_budgets (settle cl key p sl t s) = map_option (\<lambda>bk. credit_close (cl_budget_ns cl) bk (op_kol_name p)
     (sl_bnb_in sl) (ct_bnb_out_wei t)) (pp_budgets s)"
  "pp_held (settle cl key p sl t s) = (if pk_token key \<in> pk_token ` dom (settled_book key sl (pp_book s))
     then pp_held s else (pp_held s)(pk_token key := None))"
  "pp_rows (settle cl key p sl t s) = (if cl_append_ok cl then pp_rows s @ [t] else pp_rows s)"
  by (simp_all add: settle_def settled_book_def Let_def held_remove_def)

lemma settled_book_inv: "book_inv b \<Longrightarrow> book_inv (settled_book key sl b)"
  using book_step_inv [of b "Close key"] book_step_inv [of b "PartialClose key (sl_rest_tokens sl) (sl_rest_bnb sl)"]
  by (simp add: settled_book_def)

lemma dom_settled_book: "b key = Some p \<Longrightarrow> dom (settled_book key sl b) = (if sl_full sl then dom b - {key} else dom b)"
  by (auto simp: settled_book_def book_remove_def shrink_def)

lemma image_drop: "a \<in> A \<Longrightarrow> (if f a \<in> f ` (A - {a}) then f ` A else f ` A - {f a}) = f ` (A - {a})"
proof -
  assume "a \<in> A"
  then have "f ` A = insert (f a) (f ` (A - {a}))" by auto
  then show ?thesis by (simp add: insert_absorb)
qed

lemma close_held_exact:
  assumes "held_exact s"
  shows "held_exact (close_one pl cl key r tr f s)"
proof (cases rule: close_one_cases [of pl cl key r tr f s])
  case (2 p m t)
  let ?sl = "close_slice p f"
  have inv: "book_inv (settled_book key ?sl (pp_book s))"
    using assms settled_book_inv by (simp add: held_exact_def)
  have "dom (pp_held s) = pk_token ` dom (pp_book s)" using assms by (simp add: held_exact_def)
  then have held: "dom (pp_held (close_one pl cl key r tr f s))
      = (if pk_token key \<in> pk_token ` dom (settled_book key ?sl (pp_book s)) then pk_token ` dom (pp_book s)
         else pk_token ` dom (pp_book s) - {pk_token key})"
    by (simp add: 2(3))
  have "key \<in> dom (pp_book s)" using 2(1) by blast
  then have "dom (pp_held (close_one pl cl key r tr f s)) = pk_token ` dom (settled_book key ?sl (pp_book s))"
    unfolding held dom_settled_book [where b = "pp_book s" and sl = ?sl, OF 2(1)]
    using image_drop [of key "dom (pp_book s)" pk_token] by (cases "sl_full ?sl") simp_all
  with inv show ?thesis by (simp add: held_exact_def 2(3))
qed (use assms in simp)

lemma closes_held_exact:
  "held_exact s \<Longrightarrow> held_exact (foldl (\<lambda>s key. close_one pl (cls key) key r tr f s) s keys)"
  by (induction keys arbitrary: s) (simp_all add: close_held_exact)

text \<open>The book after an entry: one fill in the only portfolio in use, with its market caps.\<close>

definition entered_book :: "u64 \<Rightarrow> fill \<Rightarrow> f64 \<times> f64 \<Rightarrow> position_book \<Rightarrow> position_book" where
  "entered_book now_ns f mc b = set_entry_mcaps (open_or_add now_ns b f) (fill_key f) (fst mc) (snd mc)"

text \<open>An entry ends before its stake is set, gives up with the stake reserved, or is booked.\<close>

lemma enter_cases:
  obtains "handle_enter pl er kol token cd a tx s = s"
  | "handle_enter pl er kol token cd a tx s = snd (entry_stake (er_budget_ns er) kol a s)"
    "fst (entry_stake (er_budget_ns er) kol a s) = None"
  | stake m where "fst (entry_stake (er_budget_ns er) kol a s) = Some stake"
    "handle_enter pl er kol token cd a tx s = (snd (entry_stake (er_budget_ns er) kol a s))\<lparr>pp_meter := m\<rparr>"
  | stake tok info tokens mc m where "fst (entry_stake (er_budget_ns er) kol a s) = Some stake"
    "handle_enter pl er kol token cd a tx s = book_entry er kol tok info stake tokens tx mc
       ((snd (entry_stake (er_budget_ns er) kol a s))\<lparr>pp_meter := m\<rparr>)"
proof (cases "\<exists>tok. entry_token token cd = Some tok \<and> \<not> is_blacklisted tok")
  case False
  then show ?thesis by (intro that(1)) (auto simp: handle_enter_def split: option.split)
next
  case True
  then obtain tok where tok: "entry_token token cd = Some tok" "\<not> is_blacklisted tok" by blast
  obtain r s1 where es: "entry_stake (er_budget_ns er) kol a s = (r, s1)" by (cases "entry_stake (er_budget_ns er) kol a s")
  note h = handle_enter_def [of pl er kol token cd a tx s]
  show ?thesis
  proof (cases r)
    case None
    then show ?thesis using tok es by (intro that(2)) (simp_all add: h)
  next
    case (Some stake)
    show ?thesis
    proof (cases "er_info er")
      case None
      have "handle_enter pl er kol token cd a tx s = s1\<lparr>pp_meter := pp_meter s1\<rparr>"
        using tok es Some None by (simp add: h)
      then show ?thesis using es Some by (intro that(3) [of stake "pp_meter s1"]) simp_all
    next
      case info: (Some info)
      obtain q m where q: "raw_entry_quote (pp_has_archive s1) er stake tok (ti_decimals info) (pp_meter s1) = (q, m)"
        by (cases "raw_entry_quote (pp_has_archive s1) er stake tok (ti_decimals info) (pp_meter s1)")
      show ?thesis
      proof (cases q)
        case None
        then show ?thesis using tok es Some info q by (intro that(3) [of stake m]) (simp_all add: h)
      next
        case raw: (Some raw)
        show ?thesis
          using tok es Some info q raw by (intro that(4)) (simp_all add: h Let_def split_def)
      qed
    qed
  qed
qed

lemma entry_stake_simps [simp]:
  "pp_book (snd (entry_stake n kol a s)) = pp_book s" "pp_held (snd (entry_stake n kol a s)) = pp_held s"
  by (simp_all add: entry_stake_def split: option.split prod.split)

lemma book_entry_simps:
  fixes er info stake tokens tx kol tok
  defines "f \<equiv> entry_fill_of kol tok info stake tokens
    (case paper_head_of (er_head er) of Some b \<Rightarrow> b | None \<Rightarrow> 0) tx FastTip"
  shows "pp_book (book_entry er kol tok info stake tokens tx mc s) = entered_book (er_open_ns er) f mc (pp_book s)"
    "dom (pp_held (book_entry er kol tok info stake tokens tx mc s)) = insert tok (dom (pp_held s))"
    "pp_budgets (book_entry er kol tok info stake tokens tx mc s) = pp_budgets s"
  by (auto simp: book_entry_def Let_def portfolio_ALL_def entered_book_def f_def held_insert_def)

lemma entered_book_inv: "book_inv b \<Longrightarrow> book_inv (entered_book n f mc b)"
  using book_step_inv [of "open_or_add n b f" "EntryMcaps (fill_key f) (fst mc) (snd mc)"] book_step_inv [of b "Fill n f"]
  by (simp add: entered_book_def)

lemma dom_entered_book: "dom (entered_book n f mc b) = insert (fill_key f) (dom b)"
  by (auto simp: entered_book_def open_or_add_def set_entry_mcaps_def Let_def split: option.splits)

lemma enter_held_exact:
  assumes "held_exact s"
  shows "held_exact (handle_enter pl er kol token cd a tx s)"
  by (cases rule: enter_cases [of pl er kol token cd a tx s])
    (use assms in \<open>simp_all add: held_exact_def book_entry_simps entered_book_inv dom_entered_book fill_key_def
       entry_fill_of_def\<close>)

lemma step_held_exact: "held_exact s \<Longrightarrow> held_exact (paper_step pl s e)"
  by (cases e) (auto simp: paper_execute_def handle_exit_def sweep_timeouts_def Let_def closes_held_exact enter_held_exact
      split: decision.split)

interpretation held: stateful "paper_step pl" held_exact for pl
  by unfold_locales (rule step_held_exact)

lemma rehydrate_dom:
  assumes "book_inv b" and "set (order (dom b)) = dom b"
  shows "dom (rehydrate order b) = pk_token ` dom b"
proof -
  let ?meta = "\<lambda>p. \<lparr>hm_kol_name = op_kol_name p, hm_symbol = op_token_symbol p, hm_entered_block = op_opened_at_block p,
       hm_entered_unix_ns = op_opened_at_unix_ns p, hm_bnb_in_wei = u128_of_u256 (op_bnb_in p)\<rparr>"
  have tok: "op_token_address p = pk_token k" if "b k = Some p" for k p
    using book_inv_D [OF assms(1) that] by (auto simp: op_key_def)
  have "dom (foldl (\<lambda>h k. case b k of None \<Rightarrow> h | Some p \<Rightarrow> held_insert (op_token_address p) (?meta p) h) h ks)
      = dom h \<union> pk_token ` set ks" if "set ks \<subseteq> dom b" for h ks
    using that
  proof (induction ks arbitrary: h)
    case (Cons k ks)
    then obtain p where "b k = Some p" by auto
    with Cons tok [OF this] show ?case by (auto simp: held_insert_def)
  qed simp
  from this [of "order (dom b)" Map.empty] assms(2) show ?thesis by (simp add: rehydrate_def)
qed


section \<open>Budgets cover stakes\<close>

text \<open>What a KOL has committed, and what is staked in his open positions.\<close>

definition committed_of :: "paper \<Rightarrow> string \<Rightarrow> int" where
  "committed_of s kol = (case pp_budgets s of None \<Rightarrow> 0
     | Some bk \<Rightarrow> (case kbb_inner bk kol of None \<Rightarrow> 0 | Some e \<Rightarrow> uint (kb_committed_wei e)))"

definition amount_at :: "position_book \<Rightarrow> position_key \<Rightarrow> int" where
  "amount_at b k = (case b k of None \<Rightarrow> 0 | Some p \<Rightarrow> uint (op_bnb_in p))"

definition stake_of :: "position_book \<Rightarrow> string \<Rightarrow> int" where
  "stake_of b kol = (\<Sum>k \<in> {k \<in> dom b. pk_kol_name k = kol}. amount_at b k)"

definition slack :: "paper \<Rightarrow> string \<Rightarrow> int" where
  "slack s kol = committed_of s kol - stake_of (pp_book s) kol"

definition covered :: "paper \<Rightarrow> bool" where
  "covered s \<longleftrightarrow> book_inv (pp_book s) \<and> (\<forall>kol. 0 \<le> slack s kol)
     \<and> (\<exists>bk. pp_budgets s = Some bk \<and> kbb_position_pct_bps bk \<le> 10000)"

text \<open>No account near the end of the integers: \<open>2 ^ 126\<close> wei are \<open>8 * 10 ^ 19\<close> BNB.\<close>

definition solvent :: "paper \<Rightarrow> bool" where
  "solvent s \<longleftrightarrow> (\<forall>bk kol. pp_budgets s = Some bk \<longrightarrow>
     uint (kb_cash_wei (entry_or_new bk kol)) + uint (kb_committed_wei (entry_or_new bk kol)) < 2 ^ 126)"

lemma amount_nonneg [simp]: "0 \<le> amount_at b k"
  by (simp add: amount_at_def split: option.split)

lemma finite_keys: "book_inv b \<Longrightarrow> finite {k \<in> dom b. pk_kol_name k = kol}"
  by (simp add: book_inv_def)

lemma stake_upd:
  assumes "finite (dom b)"
  shows "stake_of (b(k \<mapsto> p)) kol =
    (if pk_kol_name k = kol then stake_of b kol - amount_at b k + uint (op_bnb_in p) else stake_of b kol)"
proof (cases "pk_kol_name k = kol")
  case True
  let ?S = "{k \<in> dom b. pk_kol_name k = kol}"
  have fin: "finite ?S" using assms by simp
  have dom: "{x \<in> dom (b(k \<mapsto> p)). pk_kol_name x = kol} = insert k (?S - {k})" using True by auto
  have "(\<Sum>x \<in> ?S - {k}. amount_at (b(k \<mapsto> p)) x) = (\<Sum>x \<in> ?S - {k}. amount_at b x)"
    by (intro sum.cong) (auto simp: amount_at_def)
  moreover have "amount_at (b(k \<mapsto> p)) k = uint (op_bnb_in p)" by (simp add: amount_at_def)
  moreover have "stake_of b kol = amount_at b k + (\<Sum>x \<in> ?S - {k}. amount_at b x)"
  proof (cases "k \<in> ?S")
    case True
    then show ?thesis unfolding stake_of_def using sum.remove [OF fin True, of "amount_at b"] by simp
  next
    case False
    then have "b k = None" using True by auto
    then show ?thesis using False by (simp add: stake_of_def amount_at_def)
  qed
  moreover have "stake_of (b(k \<mapsto> p)) kol
      = amount_at (b(k \<mapsto> p)) k + (\<Sum>x \<in> ?S - {k}. amount_at (b(k \<mapsto> p)) x)"
    unfolding stake_of_def dom using fin by (intro sum.insert) auto
  ultimately show ?thesis using True by simp
next
  case False
  then have "{x \<in> dom (b(k \<mapsto> p)). pk_kol_name x = kol} = {x \<in> dom b. pk_kol_name x = kol}" by auto
  moreover have "amount_at (b(k \<mapsto> p)) x = amount_at b x" if "pk_kol_name x = kol" for x
    using False that by (auto simp: amount_at_def)
  ultimately show ?thesis using False by (simp add: stake_of_def)
qed

lemma stake_del:
  assumes "finite (dom b)"
  shows "stake_of (b(k := None)) kol = (if pk_kol_name k = kol then stake_of b kol - amount_at b k else stake_of b kol)"
proof -
  have "stake_of (b(k := None)) kol = stake_of ((b(k := None))(k \<mapsto> p)) kol - uint (op_bnb_in p)"
    if "pk_kol_name k = kol" for p
    using stake_upd [of "b(k := None)" k p kol] assms that by (simp add: amount_at_def)
  moreover have "stake_of (b(k \<mapsto> p)) kol = stake_of b kol - amount_at b k + uint (op_bnb_in p)"
    if "pk_kol_name k = kol" for p
    using stake_upd [OF assms] that by simp
  moreover have "stake_of (b(k := None)) kol = stake_of b kol" if "pk_kol_name k \<noteq> kol"
    using stake_upd [of "b(k := None)" k _ kol] stake_upd [OF assms, of k _ kol] assms that by simp
  ultimately show ?thesis by simp
qed

lemma amount_le_stake:
  assumes "finite (dom b)"
  shows "amount_at b k \<le> stake_of b (pk_kol_name k)"
proof (cases "k \<in> dom b")
  case True
  then show ?thesis unfolding stake_of_def using assms by (intro member_le_sum) auto
next
  case False
  then have "amount_at b k = 0" by (simp add: amount_at_def domIff)
  then show ?thesis unfolding stake_of_def by (simp add: sum_nonneg)
qed

lemma stake_cong: "dom b' = dom b \<Longrightarrow> (\<And>k. amount_at b' k = amount_at b k) \<Longrightarrow> stake_of b' kol = stake_of b kol"
  by (simp add: stake_of_def)

lemma stake_entry_mcaps: "stake_of (set_entry_mcaps b key x y) kol = stake_of b kol"
  by (rule stake_cong) (auto simp: set_entry_mcaps_def amount_at_def Let_def split: option.splits)

lemma slice_amounts:
  "uint (sl_bnb_in (close_slice p f)) \<le> uint (op_bnb_in p)"
  "\<not> sl_full (close_slice p f) \<Longrightarrow>
     uint (sl_rest_bnb (close_slice p f)) = uint (op_bnb_in p) - uint (sl_bnb_in (close_slice p f))"
proof -
  have le: "sl_bnb_in (close_slice p f) \<le> op_bnb_in p"
    by (simp add: close_slice_def Let_def scale_le)
  then show "uint (sl_bnb_in (close_slice p f)) \<le> uint (op_bnb_in p)" by (simp add: word_le_def)
  have "sl_rest_bnb (close_slice p f) = op_bnb_in p - sl_bnb_in (close_slice p f)" if "\<not> sl_full (close_slice p f)"
    using that le by (simp add: close_slice_def Let_def saturating_sub_u256_def)
  then show "\<not> sl_full (close_slice p f) \<Longrightarrow>
     uint (sl_rest_bnb (close_slice p f)) = uint (op_bnb_in p) - uint (sl_bnb_in (close_slice p f))"
    using le by (simp add: uint_sub_lem [THEN iffD1] word_le_def)
qed

lemma settled_stake:
  assumes "finite (dom b)" and "b key = Some p"
  shows "stake_of (settled_book key (close_slice p f) b) kol =
    stake_of b kol - (if pk_kol_name key = kol then uint (sl_bnb_in (close_slice p f)) else 0)"
proof (cases "sl_full (close_slice p f)")
  case True
  then have "sl_bnb_in (close_slice p f) = op_bnb_in p" by (simp add: close_slice_def Let_def)
  then show ?thesis
    using True assms by (simp add: settled_book_def book_remove_def stake_del amount_at_def)
next
  case False
  then show ?thesis
    using assms slice_amounts(2) [OF False] by (simp add: settled_book_def shrink_def stake_upd amount_at_def)
qed

lemma credit_committed:
  assumes "pp_budgets s = Some bk" and "uint bnb_in \<le> committed_of s kol"
  shows "committed_of (s\<lparr>pp_budgets := Some (credit_close n bk kol bnb_in out)\<rparr>) kol'
    = committed_of s kol' - (if kol = kol' then uint bnb_in else 0)"
proof (cases "kbb_inner bk kol")
  case None
  then have "uint bnb_in = 0" using assms by (simp add: committed_of_def)
  then show ?thesis using None assms by (simp add: committed_of_def credit_close_def)
next
  case (Some e)
  then have le: "uint bnb_in \<le> uint (kb_committed_wei e)" using assms by (simp add: committed_of_def)
  moreover have "uint (kb_committed_wei e) < 2 ^ 128" using uint_lt2p [of "kb_committed_wei e"] by simp
  ultimately have u: "uint (u128_of_u256 bnb_in) = uint bnb_in" by (intro uint_u128_of_u256) linarith
  then have "uint (sat_sub (kb_committed_wei e) (u128_of_u256 bnb_in)) = uint (kb_committed_wei e) - uint bnb_in"
    using le by (subst uint_sat_sub) (simp_all add: word_le_def)
  then show ?thesis
    using Some assms(1) by (cases "kol = kol'") (simp_all add: committed_of_def credit_close_def credit_entry_def Let_def)
qed

lemma close_slack:
  assumes "covered s"
  shows "slack (close_one pl cl key r tr f s) kol = slack s kol \<and> covered (close_one pl cl key r tr f s)"
proof (cases rule: close_one_cases [of pl cl key r tr f s])
  case 1
  then show ?thesis using assms by simp
next
  case (2 p m t)
  let ?sl = "close_slice p f" and ?s' = "close_one pl cl key r tr f s"
  from assms obtain bk where bk: "pp_budgets s = Some bk" "kbb_position_pct_bps bk \<le> 10000"
    by (auto simp: covered_def)
  have inv: "book_inv (pp_book s)" using assms by (simp add: covered_def)
  then have fin: "finite (dom (pp_book s))" by (simp add: book_inv_def)
  have name: "op_kol_name p = pk_kol_name key" using book_inv_D [OF inv 2(1)] by (auto simp: op_key_def)
  have "uint (sl_bnb_in ?sl) \<le> amount_at (pp_book s) key"
    using slice_amounts(1) [of p f] 2(1) by (simp add: amount_at_def)
  also have "\<dots> \<le> stake_of (pp_book s) (pk_kol_name key)" by (rule amount_le_stake [OF fin])
  also have "\<dots> \<le> committed_of s (pk_kol_name key)"
    using assms unfolding covered_def slack_def by (simp only: diff_ge_0_iff_ge)
  finally have le: "uint (sl_bnb_in ?sl) \<le> committed_of s (op_kol_name p)" by (simp add: name)
  have "committed_of ?s' kol'
      = committed_of (s\<lparr>pp_budgets := Some (credit_close (cl_budget_ns cl) bk (op_kol_name p) (sl_bnb_in ?sl) (ct_bnb_out_wei t))\<rparr>) kol'"
    for kol' by (simp add: committed_of_def 2(3) bk(1))
  then have c: "committed_of ?s' kol' = committed_of s kol' - (if op_kol_name p = kol' then uint (sl_bnb_in ?sl) else 0)" for kol'
    using credit_committed [OF bk(1) le] by simp
  have st: "stake_of (pp_book ?s') kol' = stake_of (pp_book s) kol' - (if pk_kol_name key = kol' then uint (sl_bnb_in ?sl) else 0)" for kol'
    using settled_stake [OF fin 2(1)] by (simp add: 2(3))
  have same: "slack ?s' kol' = slack s kol'" for kol'
    by (simp add: slack_def c st name)
  have pct: "\<exists>bk'. pp_budgets ?s' = Some bk' \<and> kbb_position_pct_bps bk' \<le> 10000"
    using bk by (simp add: 2(3) credit_close_def split: option.split)
  have "covered ?s'"
    using assms pct settled_book_inv [OF inv] unfolding covered_def same by (simp add: 2(3))
  with same show ?thesis by simp
qed

lemma closes_slack:
  "covered s \<Longrightarrow> slack (foldl (\<lambda>s key. close_one pl (cls key) key r tr f s) s keys) kol = slack s kol
     \<and> covered (foldl (\<lambda>s key. close_one pl (cls key) key r tr f s) s keys)"
  by (induction keys arbitrary: s) (simp_all add: close_slack)

lemma reserve_committed:
  assumes "pp_budgets s = Some bk" and "kbb_position_pct_bps bk \<le> 10000" and "solvent s"
    and "try_reserve n bk kol = (r, bk')"
  shows "committed_of (s\<lparr>pp_budgets := Some bk'\<rparr>) kol'
      = committed_of s kol' + (if kol = kol' then (case r of Some w \<Rightarrow> uint w | None \<Rightarrow> 0) else 0)
    \<and> kbb_position_pct_bps bk' = kbb_position_pct_bps bk \<and> (\<forall>w. r = Some w \<longrightarrow> uint w < 2 ^ 126)"
proof -
  let ?e = "entry_or_new bk kol" and ?want = "position_want (kbb_position_pct_bps bk) (kb_cash_wei (entry_or_new bk kol))"
  have le: "?want \<le> kb_cash_wei ?e" by (rule position_want_le [OF assms(2)])
  have small: "uint (kb_cash_wei ?e) + uint (kb_committed_wei ?e) < 2 ^ 126"
    using assms(1,3) by (simp add: solvent_def)
  have w: "uint ?want \<le> uint (kb_cash_wei ?e)" using le by (simp add: word_le_def)
  have "0 \<le> uint (kb_committed_wei ?e)" "0 \<le> uint (kb_cash_wei ?e)" by simp_all
  then have b: "uint ?want < 2 ^ 126" "uint (kb_committed_wei ?e) + uint ?want < 2 ^ 126" using w small by linarith+
  then have "uint (kb_committed_wei ?e) + uint ?want < 2 ^ 128" by simp
  note add = uint_sat_add [OF this]
  have cast: "uint (ucast ?want :: u256) = uint ?want" by (simp add: uint_up_ucast is_up_def source_size_def target_size_def)
  have e: "committed_of s kol = uint (kb_committed_wei ?e)"
    using assms(1) by (simp add: committed_of_def entry_or_new_def kol_budget_new_def split: option.split)
  show ?thesis
    using assms(1,4) add cast e b(1) by (cases "kol = kol'") (auto simp: try_reserve_def Let_def committed_of_def split: if_splits)
qed

lemma entry_stake_slack:
  assumes "covered s" and "solvent s" and "entry_stake n kol a s = (r, s1)"
  shows "slack s1 kol' = slack s kol' + (if kol = kol' then (case r of Some w \<Rightarrow> uint w | None \<Rightarrow> 0) else 0)
    \<and> pp_book s1 = pp_book s \<and> (\<exists>bk. pp_budgets s1 = Some bk \<and> kbb_position_pct_bps bk \<le> 10000)
    \<and> (\<forall>w. r = Some w \<longrightarrow> uint w < 2 ^ 126)"
proof -
  obtain bk where bk: "pp_budgets s = Some bk" "kbb_position_pct_bps bk \<le> 10000"
    using assms(1) by (auto simp: covered_def)
  obtain bk' where t: "try_reserve n bk kol = (r, bk')" "s1 = s\<lparr>pp_budgets := Some bk'\<rparr>"
    using assms(3) bk(1) by (auto simp: entry_stake_def split: prod.splits)
  from reserve_committed [OF bk assms(2) t(1)] bk(2) show ?thesis by (simp add: slack_def t(2))
qed

lemma entered_stake:
  assumes "finite (dom b)" and "amount_at b (fill_key f) + uint (fl_bnb_in f) < 2 ^ 256"
  shows "stake_of (entered_book n f mc b) kol = stake_of b kol + (if fl_kol_name f = kol then uint (fl_bnb_in f) else 0)"
proof (cases "b (fill_key f)")
  case None
  have k: "pk_kol_name (fill_key f) = fl_kol_name f" by (simp add: fill_key_def)
  have "amount_at b (fill_key f) = 0" using None by (simp add: amount_at_def)
  then show ?thesis
    using None assms(1) by (simp add: entered_book_def stake_entry_mcaps open_or_add_def stake_upd first_fill_def k)
next
  case (Some p)
  have "int (unat (op_bnb_in p) + unat (fl_bnb_in f)) < int (2 ^ 256)" using assms(2) Some by (simp add: amount_at_def)
  then have "unat (op_bnb_in p) + unat (fl_bnb_in f) < 2 ^ 256" by (simp only: of_nat_less_iff)
  then have "unat (sat_add (op_bnb_in p) (fl_bnb_in f)) = unat (op_bnb_in p) + unat (fl_bnb_in f)"
    by (simp add: unat_sat_add)
  then have "int (unat (sat_add (op_bnb_in p) (fl_bnb_in f))) = int (unat (op_bnb_in p) + unat (fl_bnb_in f))"
    by (simp only:)
  then have "uint (sat_add (op_bnb_in p) (fl_bnb_in f)) = uint (op_bnb_in p) + uint (fl_bnb_in f)" by simp
  moreover have "amount_at b (fill_key f) = uint (op_bnb_in p)" using Some by (simp add: amount_at_def)
  moreover have "pk_kol_name (fill_key f) = fl_kol_name f" by (simp add: fill_key_def)
  ultimately show ?thesis
    using Some assms(1) by (simp add: entered_book_def stake_entry_mcaps open_or_add_def stake_upd add_fill_def)
qed

text \<open>A booked entry turns its reservation into a stake; any other one keeps it as slack.\<close>

lemma enter_slack:
  assumes "covered s" and "solvent s"
  shows "slack s kol' \<le> slack (handle_enter pl er kol token cd a tx s) kol' \<and> covered (handle_enter pl er kol token cd a tx s)"
proof -
  obtain r s1 where es: "entry_stake (er_budget_ns er) kol a s = (r, s1)" by (cases "entry_stake (er_budget_ns er) kol a s")
  note sl = entry_stake_slack [OF assms es]
  have inv: "book_inv (pp_book s)" "\<forall>kol. 0 \<le> slack s kol" using assms(1) by (simp_all add: covered_def)
  have grow: "slack s k \<le> slack s1 k" for k
    using sl [of k] by (auto split: option.split)
  have c1: "covered (s1\<lparr>pp_meter := m\<rparr>) \<and> slack (s1\<lparr>pp_meter := m\<rparr>) k = slack s1 k" for m k
  proof -
    have "slack (s1\<lparr>pp_meter := m\<rparr>) k = slack s1 k" for k by (simp add: slack_def committed_of_def)
    then show ?thesis using inv grow sl by (auto simp: covered_def intro: order_trans)
  qed
  show ?thesis
  proof (cases rule: enter_cases [of pl er kol token cd a tx s])
    case 1
    then show ?thesis using assms(1) by simp
  next
    case 2
    then have h: "handle_enter pl er kol token cd a tx s = s1\<lparr>pp_meter := pp_meter s1\<rparr>" by (simp add: es)
    show ?thesis unfolding h using c1 [of "pp_meter s1"] grow by simp
  next
    case (3 stake m)
    then have h: "handle_enter pl er kol token cd a tx s = s1\<lparr>pp_meter := m\<rparr>" by (simp add: es)
    show ?thesis unfolding h using c1 [of m] grow by simp
  next
    case (4 stake tok info tokens mc m)
    let ?s' = "handle_enter pl er kol token cd a tx s"
    define f where "f = entry_fill_of kol tok info stake tokens
      (case paper_head_of (er_head er) of Some b \<Rightarrow> b | None \<Rightarrow> 0) tx FastTip"
    have h: "?s' = book_entry er kol tok info stake tokens tx mc (s1\<lparr>pp_meter := m\<rparr>)" and r: "r = Some stake"
      using 4 by (simp_all add: es)
    have b: "pp_book ?s' = entered_book (er_open_ns er) f mc (pp_book s)" "pp_budgets ?s' = pp_budgets s1"
      using sl by (simp_all add: h book_entry_simps f_def)
    have fk: "pk_kol_name (fill_key f) = kol" "fl_bnb_in f = stake" "fl_kol_name f = kol"
      by (simp_all add: f_def entry_fill_of_def fill_key_def)
    have fin: "finite (dom (pp_book s))" using inv by (simp add: book_inv_def)
    have small: "uint stake < 2 ^ 126" using sl r by blast
    obtain bk where bk: "pp_budgets s = Some bk" using assms(1) by (auto simp: covered_def)
    have "amount_at (pp_book s) (fill_key f) \<le> stake_of (pp_book s) kol"
      using amount_le_stake [OF fin, of "fill_key f"] by (simp add: fk)
    also have "\<dots> \<le> committed_of s kol" using inv(2) unfolding slack_def by (simp only: diff_ge_0_iff_ge)
    also have "\<dots> = uint (kb_committed_wei (entry_or_new bk kol))"
      using bk by (simp add: committed_of_def entry_or_new_def kol_budget_new_def split: option.split)
    also have "\<dots> < 2 ^ 126"
    proof -
      have "uint (kb_cash_wei (entry_or_new bk kol)) + uint (kb_committed_wei (entry_or_new bk kol)) < 2 ^ 126"
        using assms(2) bk by (simp add: solvent_def)
      moreover have "0 \<le> uint (kb_cash_wei (entry_or_new bk kol))" by simp
      ultimately show ?thesis by linarith
    qed
    finally have "amount_at (pp_book s) (fill_key f) + uint (fl_bnb_in f) < 2 ^ 256" using small by (simp add: fk)
    note st = entered_stake [OF fin this, of "er_open_ns er" mc, unfolded fk]
    have "slack ?s' k = slack s k" for k
    proof -
      have "committed_of ?s' k = committed_of s1 k" by (simp add: committed_of_def b)
      moreover have "committed_of s1 k - stake_of (pp_book s) k
          = committed_of s k - stake_of (pp_book s) k + (if kol = k then uint stake else 0)"
        using sl [of k, THEN conjunct1] r sl [of k, THEN conjunct2, THEN conjunct1]
        by (cases "kol = k") (simp_all add: slack_def)
      ultimately show ?thesis by (simp add: slack_def b(1) st)
    qed
    then show ?thesis
      using inv sl entered_book_inv [OF inv(1)] b by (simp add: covered_def)
  qed
qed

lemma step_slack:
  assumes "covered s" and "solvent s"
  shows "slack s kol \<le> slack (paper_step pl s e) kol \<and> covered (paper_step pl s e)"
proof (cases e)
  case (PaperDecision er xs d cd)
  show ?thesis
  proof (cases d)
    case (Enter k token amount kol_bnb blk tx)
    then show ?thesis using enter_slack [OF assms] by (simp add: PaperDecision paper_execute_def)
  next
    case (Exit k token blk tx addr)
    then show ?thesis
      using closes_slack [OF assms(1)] by (simp add: PaperDecision paper_execute_def handle_exit_def Let_def)
  qed (use assms in \<open>simp add: PaperDecision paper_execute_def\<close>)
next
  case (PaperSweep cls now hold)
  then show ?thesis using closes_slack [OF assms(1)] by (simp add: sweep_timeouts_def Let_def)
qed

text \<open>Histories in which no account comes near the end of the integers.\<close>

inductive solvent_run :: "paper_platform \<Rightarrow> paper \<Rightarrow> paper \<Rightarrow> bool" for pl :: paper_platform and s0 :: paper where
  here: "solvent_run pl s0 s0"
| event: "solvent_run pl s0 s \<Longrightarrow> solvent s \<Longrightarrow> solvent_run pl s0 (paper_step pl s e)"

lemma run_slack: "solvent_run pl s0 s \<Longrightarrow> covered s0 \<Longrightarrow> slack s0 kol \<le> slack s kol \<and> covered s"
proof (induction rule: solvent_run.induct)
  case (event s e)
  then show ?case using step_slack [of s kol pl e] by (auto intro: order_trans)
qed simp


text \<open>
  An entry that reserves its stake and then finds no token metadata, or no price, never
  gives the stake back: the positions are unchanged, the stake has left the cash, and in
  every later state, whatever is entered and closed, at least that much of the commitment is
  backed by no position. Cash lost this way is not available for a trade again.
\<close>

lemma failed_entry_leaks_stake:
  assumes "covered s" and "solvent s" and "entry_token token cd = Some tok" and "\<not> is_blacklisted tok"
    and "entry_stake (er_budget_ns er) kol a s = (Some stake, s1)"
    and "er_info er = None \<or> (\<exists>info. er_info er = Some info
      \<and> fst (raw_entry_quote (pp_has_archive s1) er stake tok (ti_decimals info) (pp_meter s1)) = None)"
    and "solvent_run pl (handle_enter pl er kol token cd a tx s) s'"
  shows "pp_book (handle_enter pl er kol token cd a tx s) = pp_book s
    \<and> uint stake \<le> committed_of s' kol - stake_of (pp_book s') kol"
proof -
  have "\<exists>m. handle_enter pl er kol token cd a tx s = s1\<lparr>pp_meter := m\<rparr>"
  proof (cases "er_info er")
    case None
    then have "handle_enter pl er kol token cd a tx s = s1\<lparr>pp_meter := pp_meter s1\<rparr>"
      using assms(3-5) by (simp add: handle_enter_def)
    then show ?thesis ..
  next
    case (Some info)
    then obtain m where "raw_entry_quote (pp_has_archive s1) er stake tok (ti_decimals info) (pp_meter s1) = (None, m)"
      using assms(6) by (cases "raw_entry_quote (pp_has_archive s1) er stake tok (ti_decimals info) (pp_meter s1)") auto
    then have "handle_enter pl er kol token cd a tx s = s1\<lparr>pp_meter := m\<rparr>"
      using assms(3-5) Some by (simp add: handle_enter_def)
    then show ?thesis ..
  qed
  then obtain m where h: "handle_enter pl er kol token cd a tx s = s1\<lparr>pp_meter := m\<rparr>" ..
  note sl = entry_stake_slack [OF assms(1,2,5)]
  have "0 \<le> slack s kol" using assms(1) by (simp add: covered_def)
  moreover have "slack (handle_enter pl er kol token cd a tx s) kol = slack s kol + uint stake"
    using sl [of kol, THEN conjunct1] by (simp add: h slack_def [of s1] slack_def [of "s1\<lparr>pp_meter := m\<rparr>"] committed_of_def)
  moreover have "covered (handle_enter pl er kol token cd a tx s)"
    by (rule conjunct2 [OF enter_slack [OF assms(1,2)]])
  ultimately have "uint stake \<le> slack s' kol" using run_slack [OF assms(7), of kol] by simp
  then show ?thesis using sl by (simp add: h slack_def [of s'])
qed

section \<open>Overlapping closes\<close>

lemma close_taken_settles:
  assumes "sl_tokens (close_slice p f) \<noteq> 0"
  obtains m t where "close_taken pl cl key p r tr f s = settle cl key p (close_slice p f) t (s\<lparr>pp_meter := m\<rparr>)"
    "ct_bnb_in_wei t = sl_bnb_in (close_slice p f)" "ct_tokens_traded t = sl_tokens (close_slice p f)"
proof -
  let ?ev = "exit_value (pl_parse_hash pl) (pp_has_archive s) (pp_costs s) cl p (close_slice p f) r tr (pp_meter s)"
  let ?mc = "exit_mcaps (pp_has_archive s) cl p (sl_tokens (close_slice p f)) (fst (fst ?ev)) tr (snd ?ev)"
  have "close_taken pl cl key p r tr f s = settle cl key p (close_slice p f)
      (trade_of cl p (close_slice p f) (fst (fst ?ev)) (snd (fst ?ev)) tr (fst ?mc)) (s\<lparr>pp_meter := snd ?mc\<rparr>)"
    using assms by (simp add: close_taken_def Let_def split_def)
  then show ?thesis by (rule that) (simp_all add: trade_of_def)
qed

lemma full_slice: "sl_full (close_slice p (Fin 1))" "sl_tokens (close_slice p (Fin 1)) = op_tokens_held p"
  "sl_bnb_in (close_slice p (Fin 1)) = op_bnb_in p"
proof -
  have "fle (flit (99 / 100)) (Fin 1)" using rnd_mono [of "99 / 100" 1] by (simp add: flit_def)
  then show "sl_full (close_slice p (Fin 1))" "sl_tokens (close_slice p (Fin 1)) = op_tokens_held p"
    "sl_bnb_in (close_slice p (Fin 1)) = op_bnb_in p"
    by (simp_all add: close_slice_def Let_def fclamp_def)
qed

text \<open>
  C26: A close copies the position and unlocks the book while it prices the sale. When the
  timeout sweep and a KOL sell close the same position at the same time, each with its copy,
  both settle: the ledger gets two rows that each sell all the tokens of the position, and the
  KOL's budget is credited twice, its cash with both proceeds and its commitment reduced
  twice.
\<close>

theorem double_close_pays_twice:
  assumes "pp_book s key = Some p" and "op_tokens_held p \<noteq> 0" and "pp_budgets s = Some bk"
    and "kbb_inner bk (op_kol_name p) = Some e" and "cl_append_ok cl1" and "cl_append_ok cl2"
  shows "\<exists>t1 t2 bk' e'.
      (let s' = close_taken pl cl2 key p KolSell (Some tx) (Fin 1) (close_taken pl cl1 key p HoldTimeout None (Fin 1) s)
       in pp_rows s' = pp_rows s @ [t1, t2] \<and> pp_budgets s' = Some bk')
    \<and> ct_tokens_traded t1 = op_tokens_held p \<and> ct_tokens_traded t2 = op_tokens_held p
    \<and> kbb_inner bk' (op_kol_name p) = Some e'
    \<and> kb_cash_wei e' = sat_add (sat_add (kb_cash_wei e) (u128_of_u256 (ct_bnb_out_wei t1))) (u128_of_u256 (ct_bnb_out_wei t2))
    \<and> kb_committed_wei e' = sat_sub (sat_sub (kb_committed_wei e) (u128_of_u256 (op_bnb_in p))) (u128_of_u256 (op_bnb_in p))"
proof -
  have nz: "sl_tokens (close_slice p (Fin 1)) \<noteq> 0" using assms(2) by (simp add: full_slice)
  let ?s1 = "close_taken pl cl1 key p HoldTimeout None (Fin 1) s"
  obtain m1 t1 where 1: "?s1 = settle cl1 key p (close_slice p (Fin 1)) t1 (s\<lparr>pp_meter := m1\<rparr>)"
    "ct_tokens_traded t1 = sl_tokens (close_slice p (Fin 1))"
    by (rule close_taken_settles [OF nz, of pl cl1 key HoldTimeout None s])
  obtain m2 t2 where 2: "close_taken pl cl2 key p KolSell (Some tx) (Fin 1) ?s1
      = settle cl2 key p (close_slice p (Fin 1)) t2 (?s1\<lparr>pp_meter := m2\<rparr>)"
    "ct_tokens_traded t2 = sl_tokens (close_slice p (Fin 1))"
    by (rule close_taken_settles [OF nz, of pl cl2 key KolSell "Some tx" ?s1])
  have "credit_close n' (credit_close n bk kol i o1) kol i o2
      = bk\<lparr>kbb_inner := (kbb_inner bk)(kol \<mapsto> credit_entry n' i o2 (credit_entry n i o1 e))\<rparr>"
    if "kol = op_kol_name p" for n n' kol i o1 o2
    using assms(4) that by (simp add: credit_close_def)
  then show ?thesis
    using assms(3,5,6) 1 2
    by (intro exI [of _ t1] exI [of _ t2]) (simp add: full_slice credit_entry_def Let_def)
qed

text \<open>A position without tokens is never closed: neither its stake nor its token is given back.\<close>

lemma empty_position_never_closes:
  assumes "pp_book s key = Some p" and "op_tokens_held p = 0"
  shows "close_one pl cl key r tr f s = s"
proof -
  have "scale_u256_by_fraction 0 f = 0" for f by (simp add: scale_u256_by_fraction_def Let_def)
  then have "sl_tokens (close_slice p f) = 0" using assms(2) by (simp add: close_slice_def Let_def)
  then show ?thesis using assms(1) by (simp add: close_one_def close_taken_def book_get_def Let_def)
qed

section \<open>Concrete runs\<close>

text \<open>Nodes that do not answer, and a pool that gives half the input.\<close>

definition dead :: http where
  "dead req = (False, SendFailed)"

definition no_exec :: exec_reads where
  "no_exec = \<lparr>xr_receipt = \<lambda>_. SendFailed, xr_tx = SendFailed, xr_balance = \<lambda>_. SendFailed,
     xr_archive = \<lambda>_. SendFailed, xr_clock = \<lambda>_. 0\<rparr>"

definition no_fill :: fill_reads where
  "no_fill = \<lparr>fr_receipt = \<lambda>_. SendFailed, fr_local = dead, fr_archive = dead, fr_clock = 0\<rparr>"

definition no_chain :: chain_reads where
  "no_chain = \<lparr>hr_receipt = \<lambda>_. SendFailed, hr_clock = 0, hr_logs = SendFailed, hr_swap = \<lambda>_. no_exec\<rparr>"

definition no_close :: close_reads where
  "no_close = \<lparr>cl_head = SendFailed, cl_fill = no_fill, cl_sell = dead, cl_bnb_usd = None, cl_chain = no_chain,
     cl_exec = no_exec, cl_supply = \<lambda>_. SendFailed, cl_exec2 = no_exec, cl_closed_ns = 9, cl_budget_ns = 9,
     cl_append_ok = True, cl_save_ok = True\<rparr>"

definition example_enter :: "token_info option \<Rightarrow> enter_reads" where
  "example_enter info = \<lparr>er_budget_ns = 1, er_info = info, er_quote = node (pancake example_router example_quoter),
     er_exec = no_exec, er_fill = no_fill, er_chain = no_chain, er_bnb_usd = None, er_mcap = \<lambda>_. SendFailed,
     er_exec2 = no_exec, er_head = SendFailed, er_open_ns = 2, er_held_ns = 3, er_save_ok = True\<rparr>"

definition example_costs :: costs where
  "example_costs = \<lparr>co_slip_v2_bps = 100, co_slip_bonding_bps = 200, co_gas_per_trade_usd = Fin 0\<rparr>"

definition example_key :: position_key where
  "example_key = \<lparr>pk_portfolio = FastTip, pk_kol_name = ''D'', pk_token = 9\<rparr>"

definition example_position :: open_position where
  "example_position = first_fill 2 (entry_fill_of ''D'' 9 \<lparr>ti_symbol = ''MEME'', ti_decimals = 18\<rparr> 100 50 0 77 FastTip)"

definition example_platform_paper :: paper_platform where
  "example_platform_paper = \<lparr>pl_parse_hash = \<lambda>_. None, pl_parse_u256 = \<lambda>_. None, pl_order = \<lambda>_. [example_key]\<rparr>"

definition example_paper :: "position_book option \<Rightarrow> paper" where
  "example_paper b = paper_new (\<lambda>_. [example_key]) b (Some (load_or_new None 1000 1000 50)) example_costs False"

lemma dead_quotes [simp]: "simulate_buy dead a token blk = None" "simulate_sell dead a token blk = None"
  by (simp_all add: simulate_buy_def simulate_sell_def try_quote_def quote_single_hop_def quote_path_def v2_eth_call_def
      quote_best_tier_def PANCAKE_V3_FEE_TIERS_def quote_one_tier_def better_tier_def dead_def Let_def)

lemma silent [simp]:
  "first_receipt (\<lambda>_. SendFailed) is = None" "kol_block_of (\<lambda>_. SendFailed) is = None"
  by (induction "is") (simp_all add: rpc_result_def not_null_def)

lemma dead_close:
  "exit_value ph False cs no_close p sl r tr m = ((sl_bnb_in sl, PriceUnavailable), m)"
  "exit_mcaps False no_close p tk out tr m = ((Fin 0, Fin 0), m)"
  by (auto simp: exit_value_def exit_mcaps_def no_close_def no_fill_def no_chain_def no_exec_def Let_def
      measured_v2v3_fill_def measured_chain_swap_price_def kol_exec_price_def total_supply_whole_def mcap_eth_call_def
      result_str_def split: option.split)

lemma example_position_simps: "op_key example_position = example_key" "op_tokens_held example_position = 50"
  "op_bnb_in example_position = 100" "op_buy_tx_hashes example_position = [77]" "op_kol_name example_position = ''D''"
  "op_opened_at_unix_ns example_position = 2"
  by (simp_all add: example_position_def first_fill_def entry_fill_of_def op_key_def example_key_def)


lemma example_quote: "simulate_buy (node (pancake example_router example_quoter)) 100 9 None
    = Some \<lparr>qr_amount_out = 50, qr_venue = quote_venue.PancakeV2, qr_fee_tier = None\<rparr>"
  unfolding simulate_buy_def
  by (subst try_quote_pancake) (auto simp: example_router_def venue_quote_def WBNB_def)

lemma example_stake: "entry_stake 1 ''D'' a (example_paper None) = (Some 100, (example_paper None)
    \<lparr>pp_budgets := Some ((load_or_new None 1000 1000 50)\<lparr>kbb_inner := [''D'' \<mapsto> (kol_budget_new 1000)\<lparr>kb_cash_wei := 900,
       kb_committed_wei := 100, kb_trades_taken := 1, kb_last_updated_ns := 1\<rparr>]\<rparr>)\<rparr>)"
  by (simp add: entry_stake_def example_paper_def paper_new_def load_or_new_def try_reserve_def entry_or_new_def
      kol_budget_new_def position_want_def sat_mul_def sat_sub_def sat_add_def Let_def)

lemma example_paper_start: "covered (example_paper None)" "solvent (example_paper None)"
  by (auto simp: covered_def solvent_def example_paper_def paper_new_def load_or_new_def book_new_inv slack_def
      committed_of_def stake_of_def book_new_def entry_or_new_def kol_budget_new_def book_inv_def
      Let_def)

lemma not_blacklisted_9: "\<not> is_blacklisted 9"
  by (simp add: is_blacklisted_def FALLBACK_BLACKLISTED_def)

text \<open>An entry of a tenth of the budget, filled from the pool less one per cent.\<close>

abbreviation example_entry :: "token_info option \<Rightarrow> paper" where
  "example_entry info \<equiv>
     handle_enter example_platform_paper (example_enter info) ''D'' 9 [] 5 77 (example_paper None)"

lemma example_entry_booked:
  "\<exists>p. pp_book (example_entry (Some \<lparr>ti_symbol = ''MEME'', ti_decimals = 18\<rparr>)) example_key = Some p
     \<and> op_bnb_in p = 100 \<and> op_tokens_held p = 49"
proof -
  let ?info = "\<lparr>ti_symbol = ''MEME'', ti_decimals = 18\<rparr>" and ?v2 = "quote_venue.PancakeV2"
  let ?er = "example_enter (Some ?info)"
  have er: "er_budget_ns ?er = 1" "er_info ?er = Some ?info" "er_quote ?er = node (pancake example_router example_quoter)"
    "er_fill ?er = no_fill" "er_head ?er = SendFailed" "er_mcap ?er = (\<lambda>_. SendFailed)" "er_save_ok ?er"
    by (simp_all add: example_enter_def)
  have s: "pp_book (example_paper None) = Map.empty" "\<not> pp_has_archive (example_paper None)"
    "pp_costs (example_paper None) = example_costs"
    by (simp_all add: example_paper_def paper_new_def book_new_def Let_def)
  have b: "bps_haircut_u256 50 100 = 49" by (simp add: bps_haircut_u256_def sat_mul_def Let_def)
  have raw: "raw_entry_quote False ?er 100 9 d m = (Some \<lparr>qr_amount_out = 50, qr_venue = ?v2, qr_fee_tier = None\<rparr>, m)"
    for d m by (simp add: raw_entry_quote_def er example_quote)
  have fill: "entry_fill ph False example_costs ?er 100 9 d \<lparr>qr_amount_out = 50, qr_venue = ?v2, qr_fee_tier = None\<rparr> m
      = (\<lparr>qr_amount_out = 49, qr_venue = ?v2, qr_fee_tier = None\<rparr>, m)" for ph d m
    by (simp add: entry_fill_def er no_fill_def measured_v2v3_fill_def example_costs_def b)
  have caps: "entry_mcaps False ?er 100 9 d \<lparr>qr_amount_out = 49, qr_venue = ?v2, qr_fee_tier = None\<rparr> m
      = ((Fin 0, Fin 0), m)" for d m
    by (simp add: entry_mcaps_def er pool_spot_and_supply_def mcap_eth_call_def result_str_def Let_def)
  have tok: "entry_token 9 [] = Some 9" by (simp add: entry_token_def)
  show ?thesis
    by (simp add: handle_enter_def tok not_blacklisted_9 er example_stake s raw fill caps)
      (simp add: book_entry_def portfolio_ALL_def Let_def entry_fill_of_def open_or_add_def set_entry_mcaps_def
        fill_key_def example_key_def first_fill_def s)
qed


theorem double_close_pays_twice_witness:
  "let s = (example_paper (Some [example_key \<mapsto> example_position]))\<lparr>pp_budgets := Some ((load_or_new None 1000 1000 50)
             \<lparr>kbb_inner := [''D'' \<mapsto> (kol_budget_new 1000)\<lparr>kb_cash_wei := 900, kb_committed_wei := 100\<rparr>]\<rparr>)\<rparr>;
       s' = close_taken example_platform_paper no_close example_key example_position KolSell (Some 5) (Fin 1)
              (close_taken example_platform_paper no_close example_key example_position HoldTimeout None (Fin 1) s)
   in length (pp_rows s') = length (pp_rows s) + 2 \<and> (\<forall>t \<in> set (pp_rows s'). t \<in> set (pp_rows s) \<or> ct_tokens_traded t = 50)"
proof -
  let ?e = "(kol_budget_new 1000)\<lparr>kb_cash_wei := 900, kb_committed_wei := 100\<rparr>"
  let ?bk = "(load_or_new None 1000 1000 50)\<lparr>kbb_inner := [''D'' \<mapsto> ?e]\<rparr>"
  let ?s = "(example_paper (Some [example_key \<mapsto> example_position]))\<lparr>pp_budgets := Some ?bk\<rparr>"
  have "pp_book ?s example_key = Some example_position" by (simp add: example_paper_def paper_new_def Let_def)
  moreover have "op_tokens_held example_position \<noteq> 0" by (simp add: example_position_simps)
  moreover have "pp_budgets ?s = Some ?bk" by simp
  moreover have "kbb_inner ?bk (op_kol_name example_position) = Some ?e" by (simp add: example_position_simps)
  moreover have "cl_append_ok no_close" by (simp add: no_close_def)
  ultimately obtain t1 t2 where
    "pp_rows (close_taken example_platform_paper no_close example_key example_position KolSell (Some 5) (Fin 1)
       (close_taken example_platform_paper no_close example_key example_position HoldTimeout None (Fin 1) ?s)) = pp_rows ?s @ [t1, t2]"
    "ct_tokens_traded t1 = 50" "ct_tokens_traded t2 = 50"
    using double_close_pays_twice [of ?s example_key example_position ?bk ?e no_close no_close example_platform_paper 5]
    unfolding Let_def example_position_simps by blast
  then show ?thesis unfolding Let_def by auto
qed

end
