(* ===== verification/PaperTrader.thy ===== *)
theory PaperTrader
  imports Trader Telegram PaperSafety
begin

text \<open>
  The paper trader of \<open>crates/bsc-runner/src/trader/mod.rs\<close> (\<open>start\<close> and its three tasks): what it
  starts with under which configuration, the consumer of KOL hits over the paper executor with
  the optional live executor in its shadow, the sweeper and the daily summary. Files, the node,
  the oracle and the clocks are arguments; the snapshot's order is that of its list.
\<close>

section \<open>Start\<close>

record telegram_config =
  tg_enabled :: bool
  tg_bot_token :: string
  tg_chat_id :: int

text \<open>The fields that decide; the addresses of the nodes and the directory are the environment, and
  \<open>min_buy_bnb_wei\<close> and \<open>dex\<close> are read nowhere.\<close>

record trader_config =
  tr_enabled :: bool
  tr_mode :: string
  tr_kol_filter :: "string list"
  tr_min_buy_usd :: f64
  tr_size_fraction :: f64
  tr_archive_rpc_url :: string
  tr_hold_timeout_secs :: u64
  tr_sweep_interval_secs :: u64
  tr_daily_summary_utc_hour :: u8
  tr_slippage_bps_v2 :: u32
  tr_slippage_bps_bonding :: u32
  tr_gas_per_trade_usd :: f64
  tr_per_kol_budget_bnb_wei :: string
  tr_position_pct_bps :: u32
  tr_dust_floor_wei :: string
  tr_telegram :: telegram_config

text \<open>What the start reads: whether the ledger opens, the saved positions and budgets, the map order.\<close>

record paper_boot =
  pb_ledger_ok :: bool
  pb_positions :: "position_book option"
  pb_budgets :: "(string \<rightharpoonup> kol_budget) option"
  pb_order :: "position_key set \<Rightarrow> position_key list"

definition alerts_on :: "telegram_config \<Rightarrow> bool" where
  "alerts_on tg \<longleftrightarrow> tg_enabled tg \<and> tg_bot_token tg \<noteq> [] \<and> tg_chat_id tg \<noteq> 0"

definition costs_of :: "trader_config \<Rightarrow> costs" where
  "costs_of cfg = \<lparr>co_slip_v2_bps = tr_slippage_bps_v2 cfg, co_slip_bonding_bps = tr_slippage_bps_bonding cfg,
     co_gas_per_trade_usd = tr_gas_per_trade_usd cfg\<rparr>"

definition budgets_of :: "trader_config \<Rightarrow> paper_boot \<Rightarrow> kol_budget_book option" where
  "budgets_of cfg b =
     (let budget_wei = (case parse_u128 10 (tr_per_kol_budget_bnb_wei cfg) of Some v \<Rightarrow> v | None \<Rightarrow> 0) in
      if 0 < budget_wei
      then Some (load_or_new (pb_budgets b) budget_wei (tr_position_pct_bps cfg)
             (case parse_u128 10 (tr_dust_floor_wei cfg) of Some v \<Rightarrow> v | None \<Rightarrow> 1000000000000000))
      else None)"

definition paper_strategy :: "trader_config \<Rightarrow> strategy_config" where
  "paper_strategy cfg = \<lparr>sc_kol_filter = tr_kol_filter cfg, sc_min_buy_usd = tr_min_buy_usd cfg,
     sc_min_buy_bnb = Fin 0, sc_size_fraction = tr_size_fraction cfg\<rparr>"

record paper_trader =
  pt_strategy :: strategy_config
  pt_paper :: paper
  pt_live :: "executor option"
  pt_alerts :: bool
  pt_hold_ns :: u64
  pt_sweep_secs :: u64
  pt_summary_hour :: "u8 option"

text \<open>\<open>as_nanos() as u64\<close> of the hold time wraps like the product of words.\<close>

definition start_paper :: "trader_config \<Rightarrow> paper_boot \<Rightarrow> boot \<Rightarrow> bool \<Rightarrow> paper_trader option" where
  "start_paper cfg b live_boot live_enabled =
     (if \<not> tr_enabled cfg then None
      else if tr_mode cfg \<noteq> ''paper'' then None
      else if \<not> pb_ledger_ok b then None
      else Some \<lparr>pt_strategy = paper_strategy cfg,
        pt_paper = paper_new (pb_order b) (pb_positions b) (budgets_of cfg b) (costs_of cfg) (tr_archive_rpc_url cfg \<noteq> []),
        pt_live = (if live_enabled then build_live_executor live_boot else None),
        pt_alerts = alerts_on (tr_telegram cfg),
        pt_hold_ns = tr_hold_timeout_secs cfg * 1000000000,
        pt_sweep_secs = max (tr_sweep_interval_secs cfg) 60,
        pt_summary_hour = (if tr_daily_summary_utc_hour cfg < 24 then Some (tr_daily_summary_utc_hour cfg) else None)\<rparr>)"

section \<open>The tasks\<close>

record paper_reads =
  pd_parse_hash :: "string \<Rightarrow> b256 option"
  pd_parse_addr :: "string \<Rightarrow> address option"
  pd_bnb_usd :: "f64 option"
  pd_enter :: enter_reads
  pd_exit :: exit_reads
  pd_live_platform :: platform
  pd_live :: readings

definition paper_decision :: "paper_reads \<Rightarrow> kol_hit \<Rightarrow> paper_trader \<Rightarrow> decision" where
  "paper_decision rd hit t = evaluate (pd_parse_hash rd) (pd_parse_addr rd) (pt_strategy t) hit
     (case pd_bnb_usd rd of Some p \<Rightarrow> p | None \<Rightarrow> Fin 0)"

text \<open>The paper side first; the live executor, when attached, sees the decision and the paper book's size.\<close>

definition run_consumer :: "paper_platform \<Rightarrow> paper_reads \<Rightarrow> kol_hit \<Rightarrow> paper_trader \<Rightarrow> paper_trader" where
  "run_consumer pl rd hit t =
     (case paper_decision rd hit t of
        Skip _ \<Rightarrow> t
      | d \<Rightarrow>
          let paper = paper_execute pl (pd_enter rd) (pd_exit rd) d (kh_calldata hit) (pt_paper t)
          in t\<lparr>pt_paper := paper,
               pt_live := map_option (\<lambda>le. snd (execute (pd_live_platform rd) (pd_live rd) d ''public''
                 (of_nat (book_len (pp_book paper))) le)) (pt_live t)\<rparr>)"

definition run_sweeper :: "paper_platform \<Rightarrow> (position_key \<Rightarrow> close_reads) \<Rightarrow> u64 \<Rightarrow> paper_trader \<Rightarrow> paper_trader" where
  "run_sweeper pl cls now_ns t = t\<lparr>pt_paper := sweep_timeouts pl cls now_ns (pt_hold_ns t) (pt_paper t)\<rparr>"

definition summary_wait :: "u64 \<Rightarrow> u8 \<Rightarrow> u64" where
  "summary_wait now utc_hour =
     (let seconds_today = now mod 86400;
          target = sat_mul (ucast utc_hour) 3600
      in if seconds_today < target then target - seconds_today else 86400 - seconds_today + target)"

definition format_bnb_short :: "float_printer \<Rightarrow> u256 \<Rightarrow> string" where
  "format_bnb_short pf wei = pf 3 (fdiv (f64_of_word wei) (flit (10 ^ 18))) @ '' BNB''"

definition summary_line :: "float_printer \<Rightarrow> open_position \<Rightarrow> string" where
  "summary_line pf p = ''  '' @ utf8 [0xE2, 0x80, 0xA2] @ '' <b>'' @ html_escape (op_token_symbol p) @ ''</b> (''
     @ portfolio_label (op_portfolio p) @ '') '' @ utf8 [0xE2, 0x80, 0x94] @ '' in '' @ format_bnb_short pf (op_bnb_in p)
     @ newline"

definition format_daily_summary :: "float_printer \<Rightarrow> open_position list \<Rightarrow> string" where
  "format_daily_summary pf ps =
     utf8 [0xF0, 0x9F, 0x93, 0x8A] @ '' <b>TRADER DAILY SUMMARY</b>'' @ newline @ newline
     @ (if ps = [] then ''(no open positions)'' @ newline
        else utf8 [0xF0, 0x9F, 0x93, 0x82] @ '' '' @ show_nat (length ps) @ '' open positions:'' @ newline
          @ concat (List.map (summary_line pf) (take 10 ps))
          @ (if 10 < length ps
             then ''  '' @ utf8 [0xE2, 0x80, 0xA6] @ ''and '' @ show_nat (length ps - 10) @ '' more'' @ newline else []))"

text \<open>The message of a summary tick, if alerts are on.\<close>

definition run_daily_summary :: "float_printer \<Rightarrow> (open_position set \<Rightarrow> open_position list) \<Rightarrow> paper_trader \<Rightarrow> string option" where
  "run_daily_summary pf order t =
     (if pt_alerts t then Some (format_daily_summary pf (order (book_snapshot (pp_book (pt_paper t))))) else None)"

section \<open>The trader over its events\<close>

datatype paper_trader_event =
    PaperHit paper_platform paper_reads kol_hit
  | SweepTick paper_platform "position_key \<Rightarrow> close_reads" u64

fun paper_trader_step :: "paper_trader \<Rightarrow> paper_trader_event \<Rightarrow> paper_trader" where
  "paper_trader_step t (PaperHit pl rd hit) = run_consumer pl rd hit t"
| "paper_trader_step t (SweepTick pl cls now_ns) = run_sweeper pl cls now_ns t"

text \<open>The live executor in its shadow has no influence on the paper side.\<close>

definition same_paper :: "paper_trader \<Rightarrow> paper_trader \<Rightarrow> bool" where
  "same_paper t t' \<longleftrightarrow> pt_paper t = pt_paper t' \<and> pt_strategy t = pt_strategy t' \<and> pt_hold_ns t = pt_hold_ns t'"

lemma same_paper_step: "same_paper t t' \<Longrightarrow> same_paper (paper_trader_step t e) (paper_trader_step t' e)"
  by (cases e) (auto simp: same_paper_def run_consumer_def run_sweeper_def paper_decision_def Let_def split: decision.split)

lemma same_paper_run: "same_paper t t' \<Longrightarrow> same_paper (foldl paper_trader_step t es) (foldl paper_trader_step t' es)"
proof (induction es arbitrary: t t')
  case (Cons e es)
  show ?case using Cons.IH [OF same_paper_step [OF Cons.prems]] by simp
qed simp

lemma shadow_is_silent:
  "pt_paper (foldl paper_trader_step (t\<lparr>pt_live := le\<rparr>) es) = pt_paper (foldl paper_trader_step (t\<lparr>pt_live := le'\<rparr>) es)"
  using same_paper_run [of "t\<lparr>pt_live := le\<rparr>" "t\<lparr>pt_live := le'\<rparr>" es] by (simp add: same_paper_def)

section \<open>What the trader holds\<close>

text \<open>A hit that the strategy takes as a buy of the KOL in the token.\<close>

definition copied_buy :: "strategy_config \<Rightarrow> string \<Rightarrow> address \<Rightarrow> paper_trader_event \<Rightarrow> bool" where
  "copied_buy sc kol token e =
     (case e of PaperHit pl rd hit \<Rightarrow>
        kh_kol_name hit = kol \<and> (sc_kol_filter sc = [] \<or> kol \<in> set (sc_kol_filter sc))
        \<and> kh_side hit = Some ''BUY'' \<and> \<not> fle (kh_value_bnb hit) (Fin 0)
        \<and> (\<exists>t. kh_token hit = Some t \<and> entry_token t (kh_calldata hit) = Some token) \<and> \<not> is_blacklisted token
      | _ \<Rightarrow> False)"

lemma close_dom: "dom (pp_book (close_one pl cl key r tr f s)) \<subseteq> dom (pp_book s)"
  by (cases rule: close_one_cases [of pl cl key r tr f s]) (auto simp: dom_settled_book split: if_splits)

lemma closes_dom: "dom (pp_book (foldl (\<lambda>s key. close_one pl (cls key) key r tr f s) s keys)) \<subseteq> dom (pp_book s)"
proof (induction keys arbitrary: s)
  case (Cons key keys)
  show ?case using Cons.IH [of "close_one pl (cls key) key r tr f s"] close_dom by (simp del: pp_simps) blast
qed simp

lemma enter_dom:
  assumes "k \<in> dom (pp_book (handle_enter pl er kol token cd a tx s))"
  shows "k \<in> dom (pp_book s)
    \<or> (pk_kol_name k = kol \<and> entry_token token cd = Some (pk_token k) \<and> \<not> is_blacklisted (pk_token k))"
proof -
  obtain r s1 where st: "entry_stake (er_budget_ns er) kol a s = (r, s1)" by (cases "entry_stake (er_budget_ns er) kol a s")
  then have "pp_book s1 = pp_book s" using entry_stake_simps(1) [of "er_budget_ns er" kol a s] by simp
  then show ?thesis
    using assms
    by (auto simp: handle_enter_def st Let_def split_def book_entry_simps dom_entered_book fill_key_def entry_fill_of_def
        split: option.splits if_splits prod.splits)
qed

text \<open>One event: a position that was not there comes from a copied buy of its KOL and token.\<close>

lemma trader_step_dom:
  assumes "k \<in> dom (pp_book (pt_paper (paper_trader_step t e)))"
  shows "k \<in> dom (pp_book (pt_paper t)) \<or> copied_buy (pt_strategy t) (pk_kol_name k) (pk_token k) e"
proof (cases e)
  case (SweepTick pl cls now_ns)
  then show ?thesis using assms closes_dom
    by (fastforce simp: run_sweeper_def sweep_timeouts_def Let_def)
next
  case (PaperHit pl rd hit)
  show ?thesis
  proof (cases "paper_decision rd hit t")
    case (Skip r)
    then show ?thesis using assms PaperHit by (simp add: run_consumer_def)
  next
    case (Exit kol token blk tx addr)
    then have "k \<in> dom (pp_book (handle_exit pl (pd_exit rd) kol token tx blk addr (pt_paper t)))"
      using assms PaperHit by (simp add: run_consumer_def paper_execute_def Let_def)
    then show ?thesis using closes_dom by (fastforce simp: handle_exit_def Let_def)
  next
    case (Enter kol token amount kol_bnb blk tx)
    then have "k \<in> dom (pp_book (handle_enter pl (pd_enter rd) kol token (kh_calldata hit) amount tx (pt_paper t)))"
      using assms PaperHit by (simp add: run_consumer_def paper_execute_def Let_def)
    then have "k \<in> dom (pp_book (pt_paper t))
       \<or> (pk_kol_name k = kol \<and> entry_token token (kh_calldata hit) = Some (pk_token k) \<and> \<not> is_blacklisted (pk_token k))"
      by (rule enter_dom)
    then show ?thesis
      using evaluate_enter_gates [OF Enter [unfolded paper_decision_def]] by (auto simp: copied_buy_def PaperHit)
  qed
qed

lemma strategy_stays [simp]: "pt_strategy (paper_trader_step t e) = pt_strategy t"
  by (cases e) (simp_all add: run_consumer_def run_sweeper_def Let_def split: decision.split)

text \<open>
  C27: The paper trader holds only what it was told to copy. Started without saved positions,
  after any history of hits and sweeps and whatever the node, the pools and the oracle answer,
  every open position is of a KOL and a token for which a hit arrived that was a decoded BUY of
  positive value by that KOL, who passes the configured filter, in that token (or, when the hit
  names the zero token, the one its calldata names), and the token is not blacklisted.
\<close>

theorem paper_holds_only_copies:
  assumes "start_paper cfg b live_boot live_enabled = Some t" and "pb_positions b = None"
    and "k \<in> dom (pp_book (pt_paper (foldl paper_trader_step t es)))"
  shows "\<exists>e. e \<in> set es \<and> copied_buy (paper_strategy cfg) (pk_kol_name k) (pk_token k) e"
proof -
  have run: "k \<in> dom (pp_book (pt_paper (foldl paper_trader_step t es))) \<Longrightarrow>
      k \<in> dom (pp_book (pt_paper t)) \<or> (\<exists>e. e \<in> set es \<and> copied_buy (pt_strategy t) (pk_kol_name k) (pk_token k) e)" for t
  proof (induction es arbitrary: t)
    case (Cons e es)
    from Cons.IH [of "paper_trader_step t e"] Cons.prems trader_step_dom [of k t e] show ?case by (auto simp: strategy_stays)
  qed simp
  have "pt_strategy t = paper_strategy cfg" "pp_book (pt_paper t) = Map.empty"
    using assms(1,2) by (auto simp: start_paper_def paper_new_def book_new_def Let_def split: if_splits)
  with run [OF assms(3)] show ?thesis by auto
qed

section \<open>The daily summary\<close>

lemma summary_wait_nat:
  assumes "h < 24"
  shows "unat (summary_wait now h) = (if unat now mod 86400 < unat h * 3600 then unat h * 3600 - unat now mod 86400
      else 86400 - unat now mod 86400 + unat h * 3600)"
proof -
  have h: "unat h < 24" using assms by (simp add: word_less_nat_alt)
  have u: "unat (ucast h :: u64) = unat h" by (simp add: unat_ucast_up)
  have t: "unat (sat_mul (ucast h :: u64) 3600) = unat h * 3600"
    using h by (simp add: unat_sat_mul u)
  have m: "unat (now mod 86400) = unat now mod 86400" by (simp add: unat_mod)
  have l: "unat now mod 86400 < 86400" "86400 + unat h * 3600 - unat now mod 86400 < 18446744073709551616"
    using h by (simp, linarith)
  show ?thesis
    using h l
    by (simp add: summary_wait_def Let_def word_less_nat_alt t m unat_sub word_le_nat_alt unat_plus_if')
qed

text \<open>
  The summary comes once a day at its hour. For an hour the start accepts, the wait is
  between one second and a day, and ends when the UTC clock shows the hour; and however late
  within the day the task wakes up after a summary that was due at the hour, it waits for the
  rest of that day: lateness never accumulates and no day is skipped or served twice.
\<close>

lemma summary_once_a_day:
  assumes "h < 24" and "unat due mod 86400 = unat h * 3600" and "late < 86400" and "unat due + late < 2 ^ 64"
  shows "0 < unat (summary_wait now h) \<and> unat (summary_wait now h) \<le> 86400
    \<and> (unat now + unat (summary_wait now h)) mod 86400 = unat h * 3600
    \<and> unat (summary_wait (due + of_nat late) h) = 86400 - late"
proof -
  have h: "unat h < 24" using assms(1) by (simp add: word_less_nat_alt)
  have "unat (due + of_nat late) = unat due + late"
    using assms(3,4) by (simp add: unat_word_ariths unat_of_nat)
  then have late_day: "unat (due + of_nat late) mod 86400 = (unat h * 3600 + late) mod 86400"
    using assms(2) mod_add_left_eq [of "unat due" 86400 late] by simp
  have whole: "(unat now + w) mod 86400 = (unat now mod 86400 + w) mod 86400" for w by (simp add: mod_add_left_eq)
  have "(unat now + unat (summary_wait now h)) mod 86400 = unat h * 3600"
    unfolding whole using h by (auto simp: summary_wait_nat [OF assms(1)] simp del: mod_add_left_eq)
  moreover have "unat (summary_wait (due + of_nat late) h) = 86400 - late"
  proof (cases "unat h * 3600 + late < 86400")
    case True
    then show ?thesis by (simp add: summary_wait_nat [OF assms(1)] late_day)
  next
    case False
    then have "(unat h * 3600 + late) mod 86400 = unat h * 3600 + late - 86400"
      using h assms(3) by (simp add: mod_if)
    then show ?thesis using False assms(3) h by (simp add: summary_wait_nat [OF assms(1)] late_day)
  qed
  moreover have "0 < unat (summary_wait now h) \<and> unat (summary_wait now h) \<le> 86400"
    using h mod_less_divisor [of 86400 "unat now"] unfolding summary_wait_nat [OF assms(1)] by (simp, linarith)
  ultimately show ?thesis by blast
qed

text \<open>Token symbols cannot add markup to the summary.\<close>

lemma summary_line_markup:
  "markup (summary_line pf (p\<lparr>op_token_symbol := symbol\<rparr>)) = markup (summary_line pf (p\<lparr>op_token_symbol := symbol'\<rparr>))"
  by (cases p) (simp only: summary_line_def open_position.simps markup_append markup_none)

section \<open>An entry through the whole trader\<close>

definition example_trader_config :: trader_config where
  "example_trader_config = \<lparr>tr_enabled = True, tr_mode = ''paper'', tr_kol_filter = [''D''], tr_min_buy_usd = Fin 400,
     tr_size_fraction = flit (5 / 100), tr_archive_rpc_url = [], tr_hold_timeout_secs = 3600, tr_sweep_interval_secs = 60,
     tr_daily_summary_utc_hour = 24, tr_slippage_bps_v2 = 100, tr_slippage_bps_bonding = 200,
     tr_gas_per_trade_usd = Fin 0, tr_per_kol_budget_bnb_wei = ''1000'', tr_position_pct_bps = 1000,
     tr_dust_floor_wei = ''50'', tr_telegram = \<lparr>tg_enabled = False, tg_bot_token = [], tg_chat_id = 0\<rparr>\<rparr>"

definition example_paper_boot :: paper_boot where
  "example_paper_boot = \<lparr>pb_ledger_ok = True, pb_positions = None, pb_budgets = None, pb_order = \<lambda>_. [example_key]\<rparr>"

definition example_paper_reads :: paper_reads where
  "example_paper_reads = \<lparr>pd_parse_hash = \<lambda>_. Some 77, pd_parse_addr = \<lambda>_. None, pd_bnb_usd = Some (Fin 600),
     pd_enter = example_enter (Some \<lparr>ti_symbol = ''MEME'', ti_decimals = 18\<rparr>),
     pd_exit = \<lparr>xs_local = \<lambda>_. SendFailed, xs_archive = \<lambda>_. SendFailed, xs_close = \<lambda>_. no_close\<rparr>,
     pd_live_platform = undefined, pd_live = undefined\<rparr>"

theorem paper_holds_only_copies_witness:
  "\<forall>b. \<exists>t. start_paper example_trader_config example_paper_boot b False = Some t
     \<and> example_key \<in> dom (pp_book (pt_paper (foldl paper_trader_step t
          [PaperHit example_platform_paper example_paper_reads (example_hit\<lparr>kh_token := Some 9\<rparr>)])))
     \<and> copied_buy (paper_strategy example_trader_config) ''D'' 9
          (PaperHit example_platform_paper example_paper_reads (example_hit\<lparr>kh_token := Some 9\<rparr>))"
proof
  fix b
  let ?e = "PaperHit example_platform_paper example_paper_reads (example_hit\<lparr>kh_token := Some 9\<rparr>)"
  obtain t where t: "start_paper example_trader_config example_paper_boot b False = Some t"
    and start: "pt_paper t = example_paper None" "pt_strategy t = paper_strategy example_trader_config"
    by (simp add: start_paper_def example_trader_config_def example_paper_boot_def example_paper_def example_costs_def
        costs_of_def budgets_of_def parse_u128_def from_str_radix_def digit_val_def)
  obtain a k where d: "paper_decision example_paper_reads (example_hit\<lparr>kh_token := Some 9\<rparr>) t = Enter ''D'' 9 a k 0 77"
    by (simp add: paper_decision_def start paper_strategy_def example_trader_config_def example_paper_reads_def
        evaluate_def evaluate_buy_def example_hit_def Let_def)
  have any: "handle_enter pl er ''D'' 9 [] a tx (example_paper None) = handle_enter pl er ''D'' 9 [] 5 tx (example_paper None)"
    if "er_budget_ns er = 1" for pl er tx
    by (simp add: handle_enter_def that example_stake entry_token_def not_blacklisted_9)
  have reads: "pd_enter example_paper_reads = example_enter (Some \<lparr>ti_symbol = ''MEME'', ti_decimals = 18\<rparr>)"
      "er_budget_ns (example_enter (Some \<lparr>ti_symbol = ''MEME'', ti_decimals = 18\<rparr>)) = 1"
      "kh_calldata (example_hit\<lparr>kh_token := Some 9\<rparr>) = []"
    by (simp_all add: example_paper_reads_def example_enter_def example_hit_def)
  have "pt_paper (paper_trader_step t ?e) = example_entry (Some \<lparr>ti_symbol = ''MEME'', ti_decimals = 18\<rparr>)"
    using any by (simp add: run_consumer_def d Let_def paper_execute_def start reads)
  with example_entry_booked have held: "example_key \<in> dom (pp_book (pt_paper (foldl paper_trader_step t [?e])))"
    by auto
  from paper_holds_only_copies [OF t _ held]
  have "copied_buy (paper_strategy example_trader_config) ''D'' 9 ?e"
    by (simp add: example_paper_boot_def example_key_def)
  with t held show "\<exists>t. start_paper example_trader_config example_paper_boot b False = Some t
     \<and> example_key \<in> dom (pp_book (pt_paper (foldl paper_trader_step t [?e])))
     \<and> copied_buy (paper_strategy example_trader_config) ''D'' 9 ?e"
    by blast
qed

end
