(* ===== verification/Tokens.thy ===== *)
theory Tokens
  imports Dex
begin

text \<open>
  The token metadata of \<open>crates/bsc-runner/src/token_resolver.rs\<close>: reading \<open>symbol()\<close>, \<open>name()\<close>
  and \<open>decimals()\<close> from the node, the cache of the answers, and the printed form of token
  amounts. The replies and the clock (milliseconds) come with the calls.
\<close>

section \<open>Strings of the chain\<close>

text \<open>\<open>String::from_utf8_lossy\<close>: for a leading byte the number of continuation bytes and the
  range of the first of them; what does not fit becomes U+FFFD.\<close>

definition utf8_lead :: "u8 \<Rightarrow> (nat \<times> u8 \<times> u8) option" where
  "utf8_lead b =
     (if 0xC2 \<le> b \<and> b \<le> 0xDF then Some (1, 0x80, 0xBF)
      else if b = 0xE0 then Some (2, 0xA0, 0xBF)
      else if b = 0xED then Some (2, 0x80, 0x9F)
      else if 0xE1 \<le> b \<and> b \<le> 0xEF then Some (2, 0x80, 0xBF)
      else if b = 0xF0 then Some (3, 0x90, 0xBF)
      else if 0xF1 \<le> b \<and> b \<le> 0xF3 then Some (3, 0x80, 0xBF)
      else if b = 0xF4 then Some (3, 0x80, 0x8F) else None)"

fun utf8_conts :: "nat \<Rightarrow> u8 \<Rightarrow> u8 \<Rightarrow> u8 list \<Rightarrow> nat" where
  "utf8_conts 0 lo hi bs = 0"
| "utf8_conts (Suc n) lo hi [] = 0"
| "utf8_conts (Suc n) lo hi (b # bs) = (if lo \<le> b \<and> b \<le> hi then Suc (utf8_conts n 0x80 0xBF bs) else 0)"

definition byte_char :: "u8 \<Rightarrow> char" where
  "byte_char b = char_of (unat b)"

definition replacement :: string where
  "replacement = map byte_char [0xEF, 0xBF, 0xBD]"

function from_utf8_lossy :: "u8 list \<Rightarrow> string" where
  "from_utf8_lossy [] = []"
| "from_utf8_lossy (b # bs) =
     (if b < 0x80 then byte_char b # from_utf8_lossy bs
      else case utf8_lead b of
        None \<Rightarrow> replacement @ from_utf8_lossy bs
      | Some (n, lo, hi) \<Rightarrow>
          let k = utf8_conts n lo hi bs
          in (if k = n then map byte_char (b # take k bs) else replacement) @ from_utf8_lossy (drop k bs))"
  by pat_completeness auto
termination
  by (relation "measure length") auto

definition trim_end_nul :: "string \<Rightarrow> string" where
  "trim_end_nul s = rev (dropWhile (\<lambda>c. c = CHR 0x00) (rev s))"

text \<open>The bytes after the length word, two digits each; \<open>None\<close> as soon as one does not parse.\<close>

fun hex_run :: "nat \<Rightarrow> string \<Rightarrow> u8 list option" where
  "hex_run 0 s = Some []"
| "hex_run (Suc n) s =
     (case from_str_radix 16 256 (take 2 s) of
        None \<Rightarrow> None
      | Some b \<Rightarrow> map_option (\<lambda>bs. of_nat b # bs) (hex_run n (drop 2 s)))"

definition eth_call_string :: "reply \<Rightarrow> string option" where
  "eth_call_string r = Option.bind (result_str r) (\<lambda>res.
     Option.bind (strip_prefix ''0x'' res) (\<lambda>h.
       if length h < 128 then None
       else case from_str_radix 16 (2 ^ 64) (slice 64 128 h) of
         None \<Rightarrow> None
       | Some len \<Rightarrow>
           if len = 0 \<or> 256 < len then None
           else if length h < 128 + len * 2 then None
           else case hex_run len (drop 128 h) of
             None \<Rightarrow> None
           | Some bytes \<Rightarrow>
               let s = trim_end_nul (from_utf8_lossy bytes)
               in if s = [] \<or> 64 < length s then None else Some s))"

definition eth_call_u8 :: "reply \<Rightarrow> nat option" where
  "eth_call_u8 r = Option.bind (result_str r) (\<lambda>res.
     Option.bind (strip_prefix ''0x'' res) (\<lambda>h.
       if h = [] then None else from_str_radix 16 256 (drop (length h - 2) h)))"

section \<open>The resolver and its cache\<close>

record token_meta =
  tm_address :: address
  tm_symbol :: string
  tm_name :: string
  tm_decimals :: nat

text \<open>Nothing is asked after a symbol that does not decode.\<close>

definition fetch_token :: "address \<Rightarrow> reply \<Rightarrow> reply \<Rightarrow> reply \<Rightarrow> token_meta option" where
  "fetch_token addr symbol_reply name_reply decimals_reply =
     (case eth_call_string symbol_reply of
        None \<Rightarrow> None
      | Some symbol \<Rightarrow> Some \<lparr>tm_address = addr, tm_symbol = symbol,
          tm_name = (case eth_call_string name_reply of Some n \<Rightarrow> n | None \<Rightarrow> symbol),
          tm_decimals = (case eth_call_u8 decimals_reply of Some d \<Rightarrow> d | None \<Rightarrow> 18)\<rparr>)"

datatype cache_entry = CacheOk token_meta | CacheFailed nat

type_synonym token_cache = "address \<rightharpoonup> cache_entry"

definition FAILED_TTL :: nat where
  "FAILED_TTL = 120000"

text \<open>A hit answers at once, also with a recent failure; otherwise the node is asked.\<close>

definition cache_get :: "nat \<Rightarrow> address \<Rightarrow> token_cache \<Rightarrow> token_meta option option" where
  "cache_get now addr c =
     (case c addr of
        Some (CacheOk info) \<Rightarrow> Some (Some info)
      | Some (CacheFailed t0) \<Rightarrow> if now - t0 < FAILED_TTL then Some None else None
      | None \<Rightarrow> None)"

definition cache_put :: "nat \<Rightarrow> address \<Rightarrow> token_meta option \<Rightarrow> token_cache \<Rightarrow> token_cache" where
  "cache_put done_at addr fetched c =
     c(addr \<mapsto> (case fetched of Some info \<Rightarrow> CacheOk info | None \<Rightarrow> CacheFailed done_at))"

definition lookup :: "nat \<Rightarrow> nat \<Rightarrow> address \<Rightarrow> token_meta option \<Rightarrow> token_cache \<Rightarrow> token_meta option \<times> token_cache" where
  "lookup now done_at addr fetched c =
     (case cache_get now addr c of
        Some res \<Rightarrow> (res, c)
      | None \<Rightarrow> (fetched, cache_put done_at addr fetched c))"

section \<open>Printed amounts\<close>

fun thousands_loop :: "bool \<Rightarrow> string \<Rightarrow> string" where
  "thousands_loop started [] = []"
| "thousands_loop started (c # cs) =
     (if started \<and> (length cs + 1) mod 3 = 0 then [CHR '','', c] else [c]) @ thousands_loop True cs"

definition thousands :: "string \<Rightarrow> string" where
  "thousands n = thousands_loop False n"

definition trim_end_zeros :: "string \<Rightarrow> string" where
  "trim_end_zeros s = rev (dropWhile (\<lambda>c. c = CHR ''0'') (rev s))"

definition f64_of_digits :: "string \<Rightarrow> f64" where
  "f64_of_digits s = (case parse_digits 10 0 s of Some n \<Rightarrow> f64_of_int (int n) | None \<Rightarrow> Fin 0)"

definition split_amount :: "string \<Rightarrow> nat \<Rightarrow> string \<times> string" where
  "split_amount s dec =
     (if length s \<le> dec then (''0'', replicate (dec - length s) CHR ''0'' @ s)
      else (take (length s - dec) s, drop (length s - dec) s))"

definition frac_digits_of :: "f64 \<Rightarrow> bool \<Rightarrow> nat" where
  "frac_digits_of whole_num no_frac =
     (if fle (flit 1000000) whole_num then 0 else if fle (flit 1000) whole_num then 1
      else if fle (flit 1) whole_num then 3 else if no_frac then 0 else 6)"

definition format_amount :: "u256 \<Rightarrow> nat \<Rightarrow> string" where
  "format_amount raw dec =
     (if raw = 0 then ''0''
      else let s = show_nat (unat raw) in
        if dec = 0 then s
        else let (whole, frac) = split_amount s dec;
                 frac_trim = trim_end_zeros frac;
                 frac_digits = frac_digits_of (f64_of_digits whole) (frac_trim = [])
             in if frac_digits = 0 \<or> frac_trim = [] then thousands whole
                else thousands whole @ CHR ''.'' # take frac_digits frac_trim)"

definition format_token_amount :: "token_meta \<Rightarrow> u256 \<Rightarrow> string" where
  "format_token_amount info raw = format_amount raw (tm_decimals info)"

section \<open>Metadata is read as the contract encodes it\<close>

definition result_reply :: "u8 list \<Rightarrow> reply" where
  "result_reply bytes = Reply (JObj [(''result'', JStr (''0x'' @ hex_encode bytes))])"

definition abi_string :: "u8 list \<Rightarrow> u8 list" where
  "abi_string s = uint_word 32 @ uint_word (length s) @ s @ replicate ((32 - length s mod 32) mod 32) 0"

definition plain_text :: "u8 list \<Rightarrow> bool" where
  "plain_text s \<longleftrightarrow> s \<noteq> [] \<and> length s \<le> 64 \<and> (\<forall>b \<in> set s. 0 < b \<and> b < 0x80)"

lemma result_str_reply [simp]: "result_str (result_reply bytes) = Some (''0x'' @ hex_encode bytes)"
  by (simp add: result_str_def result_reply_def)

lemma unat_u8_less: "unat (b :: u8) < 256"
  using unsigned_less [of b] by simp

lemma byte_div_mod: "unat (b :: u8) div 16 < 16" "unat b mod 16 < 16" "unat b div 16 * 16 + unat b mod 16 = unat b"
proof -
  have "unat b < 256" using unat_u8_less [of b] by simp
  then show "unat b div 16 < 16" "unat b mod 16 < 16" "unat b div 16 * 16 + unat b mod 16 = unat b" by simp_all
qed

lemma hex_encode_Cons: "hex_encode (b # bs) = digit_char (unat b div 16) # digit_char (unat b mod 16) # hex_encode bs"
  by (simp add: hex_encode_def hex_byte_def)

lemma parse_hex_byte: "from_str_radix 16 256 [digit_char (unat b div 16), digit_char (unat b mod 16)] = Some (unat (b :: u8))"
  using byte_div_mod [of b] unat_u8_less [of b] by (simp add: from_str_radix_def)

lemma hex_run_encode: "hex_run (length bs) (hex_encode bs @ rest) = Some bs"
proof (induction bs)
  case (Cons b bs)
  then show ?case
    by (simp add: hex_encode_Cons numeral_2_eq_2 parse_hex_byte [simplified])
qed (simp add: hex_encode_def)

lemma parse_digits_hex: "parse_digits 16 a (hex_encode bs) = Some (a * 256 ^ length bs + be_val bs)"
proof (induction bs arbitrary: a)
  case Nil
  show ?case by (simp add: hex_encode_def be_val_def)
next
  case (Cons b bs)
  have "(a * 16 + unat b div 16) * 16 + unat b mod 16 = a * 256 + unat b" using byte_div_mod(3) [of b] by simp
  then show ?case
    using byte_div_mod [of b] by (simp add: hex_encode_Cons Cons be_val_Cons algebra_simps)
qed

lemma from_str_radix_hex:
  assumes "bs \<noteq> []"
  shows "from_str_radix 16 bound (hex_encode bs) = (if be_val bs < bound then Some (be_val bs) else None)"
proof -
  obtain b cs where bs: "bs = b # cs" using assms by (cases bs) auto
  have "digit_char (unat b div 16) \<noteq> CHR ''+''" using byte_div_mod [of b] by simp
  then show ?thesis using parse_digits_hex [of 0 bs] by (simp add: from_str_radix_def bs hex_encode_Cons)
qed

lemma drop_hex_encode: "drop (2 * n) (hex_encode bs) = hex_encode (drop n bs)"
proof -
  have "hex_encode bs = hex_encode (take n bs) @ hex_encode (drop n bs)"
    unfolding hex_encode_append [symmetric] by simp
  then show ?thesis
    by (cases "n \<le> length bs") (simp_all add: hex_encode_def [of "[]"])
qed

lemma from_utf8_ascii: "\<forall>b \<in> set bs. b < 0x80 \<Longrightarrow> from_utf8_lossy bs = map byte_char bs"
  by (induction bs) simp_all

lemma byte_char_not_nul: "0 < b \<Longrightarrow> byte_char b \<noteq> CHR 0x00"
proof
  assume "0 < b" "byte_char b = CHR 0x00"
  then have "of_char (byte_char b) = (of_char (CHR 0x00) :: nat)" by simp
  moreover have "unat b < 256" using unat_u8_less [of b] by simp
  ultimately have "unat b = 0" by (simp add: byte_char_def)
  with \<open>0 < b\<close> show False by (simp add: unat_eq_zero)
qed

lemma trim_end_nul_text: "\<forall>b \<in> set bs. 0 < b \<Longrightarrow> trim_end_nul (map byte_char bs) = map byte_char bs"
  by (cases bs rule: rev_cases) (simp_all add: trim_end_nul_def byte_char_not_nul)

lemma eth_call_string_abi:
  assumes "plain_text s"
  shows "eth_call_string (result_reply (abi_string s)) = Some (map byte_char s)"
proof -
  let ?h = "hex_encode (abi_string s)" and ?pad = "replicate ((32 - length s mod 32) mod 32) 0 :: u8 list"
  have parts: "?h = hex_encode (uint_word 32) @ hex_encode (uint_word (length s)) @ hex_encode s @ hex_encode ?pad"
    by (simp add: abi_string_def hex_encode_append)
  have lenword: "slice 64 128 ?h = hex_encode (uint_word (length s))" by (simp add: parts slice_def)
  have body: "drop 128 ?h = hex_encode s @ hex_encode ?pad" by (simp add: parts)
  have small: "length s \<le> 64" "s \<noteq> []" "\<forall>b \<in> set s. 0 < b" "\<forall>b \<in> set s. b < 0x80"
    using assms by (auto simp: plain_text_def)
  have "uint_word (length s) \<noteq> []" using length_uint_word [of "length s"] by fastforce
  then have "from_str_radix 16 (2 ^ 64) (slice 64 128 ?h) = Some (length s)"
    using small(1) by (simp add: lenword from_str_radix_hex be_val_uint_word)
  moreover have "\<not> length ?h < 128 + length s * 2" "\<not> length ?h < 128" by (simp_all add: parts)
  moreover have "hex_run (length s) (drop 128 ?h) = Some s" unfolding body by (rule hex_run_encode)
  moreover have "trim_end_nul (from_utf8_lossy s) = map byte_char s"
    using small by (simp add: from_utf8_ascii trim_end_nul_text)
  ultimately show ?thesis using small by (simp add: eth_call_string_def)
qed

lemma drop_be_bytes: "drop k (be_bytes (k + n) v) = be_bytes n v"
  by (induction k) simp_all

lemma eth_call_u8_word:
  assumes "d < 256"
  shows "eth_call_u8 (result_reply (uint_word d)) = Some d"
proof -
  have "drop 62 (hex_encode (uint_word d)) = hex_encode (drop 31 (uint_word d))"
    using drop_hex_encode [of 31 "uint_word d"] by simp
  moreover have "drop 31 (uint_word d) = [of_nat d]"
    using drop_be_bytes [of 31 1 d] assms by (simp add: uint_word_def)
  ultimately have "drop 62 (hex_encode (uint_word d)) = hex_encode [of_nat d]" by simp
  moreover have "be_val [of_nat d] = d" using assms by (simp add: be_val_def unat_of_nat)
  moreover have "hex_encode (uint_word d) \<noteq> []" using length_hex_encode [of "uint_word d"] by fastforce
  ultimately show ?thesis using assms by (simp add: eth_call_u8_def from_str_radix_hex)
qed

text \<open>C39: Metadata round trip. When a contract answers with the ABI encodings of its symbol, its
  name (both of 1 to 64 ASCII characters) and its decimals, the resolver returns exactly these.\<close>
theorem token_metadata_decoded:
  assumes "plain_text sym_bytes" and "plain_text name_bytes" and "d < 256"
  shows "fetch_token addr (result_reply (abi_string sym_bytes)) (result_reply (abi_string name_bytes)) (result_reply (uint_word d))
    = Some \<lparr>tm_address = addr, tm_symbol = map byte_char sym_bytes, tm_name = map byte_char name_bytes, tm_decimals = d\<rparr>"
  using assms by (simp add: fetch_token_def eth_call_string_abi eth_call_u8_word)

lemma byte_chars: "byte_char 66 = CHR ''B''" "byte_char 79 = CHR ''O''"
  by code_simp+

theorem token_metadata_decoded_witness:
  "fetch_token 7 (result_reply (abi_string [66, 79, 66])) (result_reply (abi_string [66])) (result_reply (uint_word 9))
    = Some \<lparr>tm_address = 7, tm_symbol = ''BOB'', tm_name = ''B'', tm_decimals = 9\<rparr>"
  using token_metadata_decoded [of "[66, 79, 66]" "[66]" 9 7]
  by (simp add: plain_text_def byte_chars)

section \<open>What is known stays known\<close>

text \<open>A lookup: its time, the end of its requests, the token and what they would fetch.\<close>

type_synonym token_event = "nat \<times> nat \<times> address \<times> token_meta option"

fun token_step :: "token_cache \<Rightarrow> token_event \<Rightarrow> token_cache" where
  "token_step c (now, done_at, addr, fetched) = snd (lookup now done_at addr fetched c)"

definition known_below :: "token_cache \<Rightarrow> token_cache \<Rightarrow> bool" where
  "known_below c c' \<longleftrightarrow> (\<forall>a info. c a = Some (CacheOk info) \<longrightarrow> c' a = Some (CacheOk info))"

interpretation tokens: monotone_stateful token_step "\<lambda>_. True" known_below
proof unfold_locales
  fix c e
  show "known_below c (token_step c e)"
    by (cases e) (auto simp: known_below_def lookup_def cache_get_def cache_put_def split: option.splits cache_entry.splits)
qed (auto simp: known_below_def)

text \<open>A guess for good. When the symbol of a token decodes but the request for its decimals
  fails, even for a moment, the resolver takes 18 and every later lookup answers 18, whatever
  the node would say by then.\<close>
lemma guessed_decimals_stay:
  assumes "cache_get now addr c = None" and "eth_call_string symbol_reply = Some symbol" and "eth_call_u8 decimals_reply = None"
    and "c' = token_step c (now, done_at, addr, fetch_token addr symbol_reply name_reply decimals_reply)"
  shows "\<exists>info. fst (lookup now' done_at' addr fetched (foldl token_step c' es)) = Some info
    \<and> tm_symbol info = symbol \<and> tm_decimals info = 18"
proof -
  obtain info where info: "fetch_token addr symbol_reply name_reply decimals_reply = Some info"
      "tm_symbol info = symbol" "tm_decimals info = 18"
    using assms(2,3) by (simp add: fetch_token_def)
  have "c' addr = Some (CacheOk info)" using assms(1,4) info(1) by (simp add: lookup_def cache_put_def)
  moreover have "known_below c' (foldl token_step c' es)" by (rule tokens.run_below) simp
  ultimately have "foldl token_step c' es addr = Some (CacheOk info)" by (simp add: known_below_def)
  with info show ?thesis by (simp add: lookup_def cache_get_def)
qed

text \<open>Two lookups that overlap both ask the node; the failure of the slower one forgets the token.\<close>

lemma overlapping_lookup_forgets:
  "cache_get t addr (cache_put t addr None (cache_put t' addr (Some info) c)) = Some None"
  by (simp add: cache_put_def cache_get_def FAILED_TTL_def)

section \<open>Printed amounts are truncated, never rounded up\<close>

lemma parse_digits_add:
  "parse_digits r (a + b) ys = map_option (\<lambda>v. a * r ^ length ys + v) (parse_digits r b ys)"
proof (induction ys arbitrary: a b)
  case (Cons y ys)
  have "parse_digits r ((a + b) * r + d) ys = map_option (\<lambda>v. a * r * r ^ length ys + v) (parse_digits r (b * r + d) ys)" for d
    using Cons [of "a * r" "b * r + d"] by (simp add: distrib_right add.assoc)
  then show ?case by (simp add: mult.assoc split: option.split)
qed simp

lemma parse_digits_append:
  "parse_digits r a (xs @ ys) = (case parse_digits r a xs of None \<Rightarrow> None | Some m \<Rightarrow> parse_digits r m ys)"
  by (induction xs arbitrary: a) (auto split: option.splits)

lemma parse_digits_split:
  assumes "parse_digits r 0 (xs @ ys) = Some n"
  obtains a b where "parse_digits r 0 xs = Some a" "parse_digits r 0 ys = Some b" "n = a * r ^ length ys + b"
proof -
  obtain a where a: "parse_digits r 0 xs = Some a" "parse_digits r a ys = Some n"
    using assms by (auto simp: parse_digits_append split: option.splits)
  then obtain b where "parse_digits r 0 ys = Some b" "n = a * r ^ length ys + b"
    using parse_digits_add [of r a 0 ys] by (cases "parse_digits r 0 ys") auto
  with a that show thesis by blast
qed

lemma parse_digits_bound: "parse_digits r a s = Some v \<Longrightarrow> v < (a + 1) * r ^ length s"
proof (induction s arbitrary: a)
  case (Cons c cs)
  then obtain d where d: "d < r" "parse_digits r (a * r + d) cs = Some v" by (auto split: option.splits if_splits)
  have "v < (a * r + d + 1) * r ^ length cs" using Cons.IH [OF d(2)] .
  also have "\<dots> \<le> ((a + 1) * r) * r ^ length cs" using d(1) by (intro mult_le_mono1) simp
  finally show ?case by (simp add: algebra_simps)
qed simp

lemma parse_digits_no_comma: "parse_digits r a s = Some v \<Longrightarrow> CHR '','' \<notin> set s"
proof (induction s arbitrary: a)
  case (Cons c cs)
  have "digit_val CHR '','' = None" by (simp add: digit_val_def)
  with Cons show ?case by (auto split: option.splits if_splits)
qed simp

lemma parse_digits_zeros: "parse_digits 10 a (replicate k CHR ''0'') = Some (a * 10 ^ k)"
proof (induction k arbitrary: a)
  case (Suc k)
  have "digit_val CHR ''0'' = Some 0" by (simp add: digit_val_def)
  with Suc show ?case by (simp add: mult.assoc)
qed simp

lemma parse_show: "parse_digits 10 0 (show_nat n) = Some n"
proof -
  obtain d ds where "show_radix_acc 10 n [] = d # ds" "parse_digits 10 0 (d # ds) = Some n"
    by (rule show_radix_digits [of 10 n]) simp_all
  then show ?thesis by (simp add: show_nat_def)
qed

lemma filter_thousands: "CHR '','' \<notin> set s \<Longrightarrow> filter (\<lambda>c. c \<noteq> CHR '','') (thousands_loop b s) = s"
  by (induction s arbitrary: b) auto

lemma split_amount_values:
  assumes "split_amount (show_nat n) dec = (w, f)"
  shows "parse_digits 10 0 w = Some (n div 10 ^ dec) \<and> parse_digits 10 0 f = Some (n mod 10 ^ dec) \<and> length f = dec"
proof (cases "length (show_nat n) \<le> dec")
  case True
  have "n < 10 ^ length (show_nat n)" using parse_digits_bound [OF parse_show [of n]] by simp
  also have "(10::nat) ^ length (show_nat n) \<le> 10 ^ dec" using True by (intro power_increasing) simp_all
  finally have "n < 10 ^ dec" .
  moreover have "digit_val CHR ''0'' = Some 0" by (simp add: digit_val_def)
  ultimately show ?thesis
    using True assms by (auto simp: split_amount_def parse_digits_append parse_digits_zeros parse_show)
next
  case False
  let ?k = "length (show_nat n) - dec"
  have "parse_digits 10 0 (take ?k (show_nat n) @ drop ?k (show_nat n)) = Some n" by (simp add: parse_show)
  then obtain a b where ab: "parse_digits 10 0 (take ?k (show_nat n)) = Some a"
      "parse_digits 10 0 (drop ?k (show_nat n)) = Some b" "n = a * 10 ^ length (drop ?k (show_nat n)) + b"
    by (rule parse_digits_split)
  have "length (drop ?k (show_nat n)) = dec" using False by simp
  moreover have "b < 10 ^ length (drop ?k (show_nat n))" using parse_digits_bound [OF ab(2)] by simp
  ultimately have "n = a * 10 ^ dec + b" "b < 10 ^ dec" using ab(3) by simp_all
  then have "n div 10 ^ dec = a" "n mod 10 ^ dec = b" by simp_all
  moreover have "w = take ?k (show_nat n)" "f = drop ?k (show_nat n)" using False assms by (simp_all add: split_amount_def)
  ultimately show ?thesis using ab(1,2) \<open>length (drop ?k (show_nat n)) = dec\<close> by simp
qed

lemma trim_end_zeros_split: "\<exists>j. s = trim_end_zeros s @ replicate j CHR ''0''"
proof -
  have "rev s = takeWhile (\<lambda>c. c = CHR ''0'') (rev s) @ dropWhile (\<lambda>c. c = CHR ''0'') (rev s)" by simp
  then have "s = trim_end_zeros s @ rev (takeWhile (\<lambda>c. c = CHR ''0'') (rev s))"
    by (metis rev_append rev_rev_ident trim_end_zeros_def)
  moreover have "takeWhile (\<lambda>c. c = CHR ''0'') (rev s) = replicate (length (takeWhile (\<lambda>c. c = CHR ''0'') (rev s))) CHR ''0''"
    by (rule replicate_length_same [symmetric]) (auto dest: set_takeWhileD)
  ultimately show ?thesis by (metis rev_replicate)
qed

definition shown_digits :: "nat \<Rightarrow> nat" where
  "shown_digits w = (if 1000000 \<le> w then 0 else if 1000 \<le> w then 1 else if 1 \<le> w then 3 else 6)"

lemma fle_f64_of_nat: "(c :: nat) < 2 ^ 53 \<Longrightarrow> fle (flit (of_nat c)) (f64_of_int (int w)) \<longleftrightarrow> c \<le> w"
proof
  assume c: "c < 2 ^ 53"
  have fc: "flit (of_nat c) = f64_of_int (int c)" by (simp add: flit_def f64_of_int_def)
  show "c \<le> w \<Longrightarrow> fle (flit (of_nat c)) (f64_of_int (int w))" unfolding fc by (rule f64_of_int_mono) simp
  have small: "f64_of_int (int n) = Fin (of_nat n)" if "n < 2 ^ 53" for n
    using that f64_of_int_small [of "int n"] by simp
  show "c \<le> w" if "fle (flit (of_nat c)) (f64_of_int (int w))"
  proof (rule ccontr)
    assume "\<not> c \<le> w"
    with that c show False unfolding fc by (simp add: small)
  qed
qed

lemma frac_digits_of_nat:
  "frac_digits_of (f64_of_int (int w)) b = (if w = 0 \<and> b then 0 else shown_digits w)"
proof -
  have "fle (flit 1000000) (f64_of_int (int w)) \<longleftrightarrow> 1000000 \<le> w" "fle (flit 1000) (f64_of_int (int w)) \<longleftrightarrow> 1000 \<le> w"
    "fle (flit 1) (f64_of_int (int w)) \<longleftrightarrow> 1 \<le> w"
    using fle_f64_of_nat [of 1000000 w] fle_f64_of_nat [of 1000 w] fle_f64_of_nat [of 1 w] by simp_all
  then show ?thesis by (cases "w = 0") (auto simp: frac_digits_of_def shown_digits_def)
qed

lemma take_truncates:
  assumes "parse_digits 10 0 t = Some tv" and "length t \<le> dec" and "v = tv * 10 ^ (dec - length t)"
  obtains m where "parse_digits 10 0 (take k t) = Some m" "m * 10 ^ dec \<le> v * 10 ^ length (take k t)"
    "v * 10 ^ length (take k t) < (m + 1) * 10 ^ dec"
    "length (take k t) = k \<or> m * 10 ^ dec = v * 10 ^ length (take k t)"
proof (cases "k \<le> length t")
  case True
  from assms(1) have "parse_digits 10 0 (take k t @ drop k t) = Some tv" by simp
  then obtain m r where m: "parse_digits 10 0 (take k t) = Some m" "parse_digits 10 0 (drop k t) = Some r"
      "tv = m * 10 ^ length (drop k t) + r" by (rule parse_digits_split)
  let ?e = "dec - length t + k"
  have r: "r < 10 ^ (length t - k)" using parse_digits_bound [OF m(2)] by simp
  have pow: "(10::nat) ^ (length t - k) * 10 ^ ?e = 10 ^ dec"
    using True assms(2) by (simp add: power_add [symmetric])
  have "v * 10 ^ k = tv * 10 ^ ?e" by (simp add: assms(3) power_add)
  also have "\<dots> = m * (10 ^ (length t - k) * 10 ^ ?e) + r * 10 ^ ?e" by (simp add: m(3) distrib_right)
  finally have eq: "v * 10 ^ k = m * 10 ^ dec + r * 10 ^ ?e" unfolding pow .
  have "r * 10 ^ ?e < 10 ^ (length t - k) * 10 ^ ?e" using r by simp
  then have "r * 10 ^ ?e < 10 ^ dec" unfolding pow .
  with that [OF m(1)] eq True show thesis by simp
next
  case False
  have "tv * 10 ^ dec = v * 10 ^ length t"
    using assms(2) by (simp add: assms(3) power_add [symmetric])
  with that [of tv] assms(1) False show thesis by simp
qed

text \<open>C40: Printed amounts. Read without its thousands separators, the text of a token amount is the
  whole part in full and the decimal part cut to none, one, three or six digits depending on
  the size (fewer when the rest are zeros): never rounded up, and off by less than one unit of
  the last digit shown.\<close>
theorem amount_is_truncated:
  "\<exists>wd fd m. filter (\<lambda>c. c \<noteq> CHR '','') (format_amount raw dec) = wd @ (if fd = [] then [] else CHR ''.'' # fd)
    \<and> parse_digits 10 0 wd = Some (unat raw div 10 ^ dec) \<and> parse_digits 10 0 fd = Some m
    \<and> length fd \<le> shown_digits (unat raw div 10 ^ dec)
    \<and> m * 10 ^ dec \<le> (unat raw mod 10 ^ dec) * 10 ^ length fd
    \<and> (unat raw mod 10 ^ dec) * 10 ^ length fd < (m + 1) * 10 ^ dec
    \<and> (length fd = shown_digits (unat raw div 10 ^ dec) \<or> m * 10 ^ dec = (unat raw mod 10 ^ dec) * 10 ^ length fd)"
proof -
  let ?n = "unat raw"
  consider "raw = 0" | "raw \<noteq> 0" "dec = 0" | "raw \<noteq> 0" "dec \<noteq> 0" by blast
  then show ?thesis
  proof cases
    case 1
    have "digit_val CHR ''0'' = Some 0" by (simp add: digit_val_def)
    with 1 show ?thesis by (intro exI [of _ "''0''"] exI [of _ "[]"] exI [of _ 0]) (simp add: format_amount_def)
  next
    case 2
    have "filter (\<lambda>c. c \<noteq> CHR '','') (show_nat ?n) = show_nat ?n"
      using parse_digits_no_comma [OF parse_show] by (auto simp: filter_id_conv)
    with 2 show ?thesis
      by (intro exI [of _ "show_nat ?n"] exI [of _ "[]"] exI [of _ 0]) (simp add: format_amount_def parse_show)
  next
    case 3
    obtain w f where split: "split_amount (show_nat ?n) dec = (w, f)" by fastforce
    let ?t = "trim_end_zeros f" and ?v = "?n mod 10 ^ dec" and ?k = "shown_digits (?n div 10 ^ dec)"
    have vals: "parse_digits 10 0 w = Some (?n div 10 ^ dec)" "parse_digits 10 0 f = Some ?v" "length f = dec"
      using split_amount_values [OF split] by simp_all
    obtain j where j: "f = ?t @ replicate j CHR ''0''" using trim_end_zeros_split by blast
    with vals(2) have "parse_digits 10 0 (?t @ replicate j CHR ''0'') = Some ?v" by simp
    then obtain tv z where tv: "parse_digits 10 0 ?t = Some tv" "parse_digits 10 0 (replicate j CHR ''0'') = Some z"
        "?v = tv * 10 ^ length (replicate j CHR ''0'') + z" by (rule parse_digits_split)
    have len: "length ?t + j = dec" using j vals(3) by (metis length_append length_replicate)
    have v: "?v = tv * 10 ^ (dec - length ?t)" using tv(2,3) len by (auto simp: parse_digits_zeros)
    obtain m where m: "parse_digits 10 0 (take ?k ?t) = Some m" "m * 10 ^ dec \<le> ?v * 10 ^ length (take ?k ?t)"
        "?v * 10 ^ length (take ?k ?t) < (m + 1) * 10 ^ dec"
        "length (take ?k ?t) = ?k \<or> m * 10 ^ dec = ?v * 10 ^ length (take ?k ?t)"
      using take_truncates [OF tv(1) _ v, of ?k] len by auto
    have out: "format_amount raw dec = thousands w @ (if take ?k ?t = [] then [] else CHR ''.'' # take ?k ?t)"
      using 3 by (auto simp: format_amount_def split f64_of_digits_def vals(1) frac_digits_of_nat Let_def)
    have "CHR '','' \<notin> set w" "CHR '','' \<notin> set (take ?k ?t)"
      using parse_digits_no_comma vals(1) m(1) by blast+
    then have "filter (\<lambda>c. c \<noteq> CHR '','') (format_amount raw dec) = w @ (if take ?k ?t = [] then [] else CHR ''.'' # take ?k ?t)"
      unfolding out by (auto simp: thousands_def filter_thousands filter_id_conv)
    with vals(1) m show ?thesis by (intro exI [of _ w] exI [of _ "take ?k ?t"] exI [of _ m]) simp
  qed
qed

end
