(* ===== verification/Venus.thy ===== *)
theory Venus
  imports Tokens TrailWatcher
begin

text \<open>
  The liquidation watcher of \<open>crates/bsc-runner/src/venus.rs\<close>: the vToken list, the scan of
  borrow events in windows of blocks, and the health poll over the known borrowers. The
  replies are arguments; \<open>sel\<close> and the topic of the events (Keccak of the signatures) come
  with the configuration. The shutdown token is left out.
\<close>

section \<open>Reading words\<close>

definition venus_f64 :: "string \<Rightarrow> f64" where
  "venus_f64 h = (case parse_u128 16 (trim_start_matches ''0x'' h) of Some v \<Rightarrow> f64_of_word v | None \<Rightarrow> Fin 0)"

definition venus_addr_arg :: "address \<Rightarrow> string" where
  "venus_addr_arg a = (let s = hex_encode (be_bytes 20 (unat a)) in replicate (64 - length s) CHR ''0'' @ s)"

definition addr_from_word :: "string \<Rightarrow> address option" where
  "addr_from_word w =
     (let s = (case strip_prefix ''0x'' w of Some t \<Rightarrow> t | None \<Rightarrow> w)
      in if length s < 40 then None
         else map_option address_of_bytes (hex_run 20 (drop (length s - 40) s)))"

text \<open>The result of a reply, as a JSON value.\<close>

definition venus_result :: "reply \<Rightarrow> json option" where
  "venus_result r = Option.bind (reply_json r) (\<lambda>v. jget v ''result'')"

definition venus_eth_call :: "reply \<Rightarrow> string option" where
  "venus_eth_call r = Option.bind (venus_result r) as_str"

definition venus_block_number :: "reply \<Rightarrow> u64 option" where
  "venus_block_number r = Option.bind (venus_eth_call r) (\<lambda>s. parse_u64 16 (trim_start_matches ''0x'' s))"

section \<open>Start\<close>

text \<open>The fields the watcher reads; no code reads the others.\<close>

record liquidator_config =
  lq_enabled :: bool
  lq_protocol :: string
  lq_rpc_url :: string
  lq_comptroller :: string
  lq_poll_interval_secs :: u64
  lq_min_alert_bounty_usd :: f64

definition venus_starts :: "liquidator_config \<Rightarrow> bool" where
  "venus_starts cfg \<longleftrightarrow> lq_enabled cfg \<and> lq_protocol cfg = ''venus''"

text \<open>A node that does not say its chain is accepted.\<close>

definition chain_accepted :: "reply \<Rightarrow> bool" where
  "chain_accepted r = (case venus_eth_call r of
       None \<Rightarrow> True
     | Some cid \<Rightarrow> (case from_str_radix 16 (2 ^ 64) (trim_start_matches ''0x'' cid) of Some n \<Rightarrow> n | None \<Rightarrow> 0) = 56)"

definition venus_markets :: "reply \<Rightarrow> string list option" where
  "venus_markets r = (case venus_eth_call r of
       None \<Rightarrow> None
     | Some h \<Rightarrow>
         if length h \<le> 130 then None
         else let body = drop 2 h;
                  n = (case from_str_radix 16 (2 ^ 64) (slice 64 128 body) of Some n \<Rightarrow> n | None \<Rightarrow> 0)
              in Some (List.map_filter
                   (\<lambda>i. if 128 + i * 64 + 64 \<le> length body
                        then map_option addr_text (addr_from_word (slice (128 + i * 64) (128 + i * 64 + 64) body)) else None)
                   [0..<n]))"

definition venus_ratio :: "f64 \<Rightarrow> reply \<Rightarrow> f64" where
  "venus_ratio dflt r = (case venus_eth_call r of
       Some h \<Rightarrow> fdiv (venus_f64 h) (flit (10 ^ 18)) | None \<Rightarrow> dflt)"

definition poll_period :: "liquidator_config \<Rightarrow> u64" where
  "poll_period cfg = max (lq_poll_interval_secs cfg) 10"

section \<open>Windows of blocks\<close>

text \<open>Block numbers stay far below the width; the seed loop stops before the head, the loop of a
  poll at it.\<close>

definition SEED_BLOCKS :: nat where
  "SEED_BLOCKS = 100000"

definition CHUNK :: nat where
  "CHUNK = 5000"

function seed_windows :: "nat \<Rightarrow> nat \<Rightarrow> (nat \<times> nat) list" where
  "seed_windows head from =
     (if from < head then let to = min (from + CHUNK) head in (from, to) # seed_windows head (to + 1) else [])"
  by pat_completeness auto
termination
  by (relation "measure (\<lambda>(head, from). head - from)") (auto simp: CHUNK_def)

declare seed_windows.simps [simp del]

function poll_windows :: "nat \<Rightarrow> nat \<Rightarrow> (nat \<times> nat) list" where
  "poll_windows h f =
     (if f \<le> h then let t = min (f + CHUNK) h in (f, t) # poll_windows h (t + 1) else [])"
  by pat_completeness auto
termination
  by (relation "measure (\<lambda>(h, f). h + 1 - f)") (auto simp: CHUNK_def)

declare poll_windows.simps [simp del]

section \<open>Borrowers\<close>

definition scan_request :: "string list \<Rightarrow> string \<Rightarrow> nat \<times> nat \<Rightarrow> json" where
  "scan_request markets topic window =
     JArr [JObj [(''fromBlock'', JStr (show_hex (fst window))), (''toBlock'', JStr (show_hex (snd window))),
       (''address'', JArr (map JStr markets)), (''topics'', JArr [JStr topic])]]"

definition borrower_of_log :: "json \<Rightarrow> address option" where
  "borrower_of_log lg = Option.bind (Option.bind (jget lg ''data'') as_str) (\<lambda>d.
     let body = (case strip_prefix ''0x'' d of Some t \<Rightarrow> t | None \<Rightarrow> d) in
     if length body < 64 then None
     else (case addr_from_word (take 64 body) of Some a \<Rightarrow> if a = 0 then None else Some a | None \<Rightarrow> None))"

definition borrowers_of :: "reply \<Rightarrow> address set" where
  "borrowers_of r = (case Option.bind (venus_result r) as_array of
       None \<Rightarrow> {} | Some logs \<Rightarrow> set (List.map_filter borrower_of_log logs))"

definition scan_borrows :: "(nat \<times> nat \<Rightarrow> reply) \<Rightarrow> nat \<times> nat \<Rightarrow> address set \<Rightarrow> address set" where
  "scan_borrows get_logs window found = found \<union> borrowers_of (get_logs window)"

section \<open>The watcher\<close>

record venus =
  vn_borrowers :: "address set"
  vn_last_scanned :: nat
  vn_requested :: "(nat \<times> nat) list"

definition scan_windows :: "(nat \<times> nat \<Rightarrow> reply) \<Rightarrow> (nat \<times> nat) list \<Rightarrow> venus \<Rightarrow> venus" where
  "scan_windows get_logs ws v = v\<lparr>vn_borrowers := foldl (\<lambda>b w. scan_borrows get_logs w b) (vn_borrowers v) ws,
     vn_requested := vn_requested v @ ws\<rparr>"

definition venus_seed :: "reply \<Rightarrow> (nat \<times> nat \<Rightarrow> reply) \<Rightarrow> venus" where
  "venus_seed head_reply get_logs =
     (let head = (case venus_block_number head_reply of Some h \<Rightarrow> unat h | None \<Rightarrow> 0)
      in scan_windows get_logs (seed_windows head (head - SEED_BLOCKS))
           \<lparr>vn_borrowers = {}, vn_last_scanned = head, vn_requested = []\<rparr>)"

definition venus_discover :: "reply \<Rightarrow> (nat \<times> nat \<Rightarrow> reply) \<Rightarrow> venus \<Rightarrow> venus" where
  "venus_discover head_reply get_logs v =
     (case venus_block_number head_reply of
        None \<Rightarrow> v
      | Some h \<Rightarrow>
          if vn_last_scanned v < unat h
          then (scan_windows get_logs (poll_windows (unat h) (vn_last_scanned v + 1)) v)\<lparr>vn_last_scanned := unat h\<rparr>
          else v)"

text \<open>An account: its bounty when it can be liquidated.\<close>

definition account_bounty :: "f64 \<Rightarrow> reply \<Rightarrow> f64 option" where
  "account_bounty liq_incentive r = (case venus_eth_call r of
       None \<Rightarrow> None
     | Some h \<Rightarrow>
         let b = trim_start_matches ''0x'' h in
         if length b < 192 then None
         else let err = venus_f64 (take 64 b); shortfall = fdiv (venus_f64 (slice 128 192 b)) (flit (10 ^ 18))
              in if feq err (Fin 0) \<and> flt (Fin 0) shortfall
                 then Some (fmul shortfall (fsub liq_incentive (Fin 1))) else None)"

record health =
  he_liquidatable :: nat
  he_best :: "(address \<times> f64) option"
  he_alerts :: "address list"

text \<open>The borrowers in the order of the set's iteration.\<close>

definition health_one :: "liquidator_config \<Rightarrow> f64 \<Rightarrow> (address \<Rightarrow> reply) \<Rightarrow> health \<Rightarrow> address \<Rightarrow> health" where
  "health_one cfg liq_incentive liquidity s acct =
     (case account_bounty liq_incentive (liquidity acct) of
        None \<Rightarrow> s
      | Some bounty \<Rightarrow> \<lparr>he_liquidatable = he_liquidatable s + 1,
          he_best = (case he_best s of
             None \<Rightarrow> Some (acct, bounty) | Some (a, x) \<Rightarrow> if flt x bounty then Some (acct, bounty) else Some (a, x)),
          he_alerts = he_alerts s @ (if fle (lq_min_alert_bounty_usd cfg) bounty then [acct] else [])\<rparr>)"

definition health_poll :: "liquidator_config \<Rightarrow> f64 \<Rightarrow> (address \<Rightarrow> reply) \<Rightarrow> address list \<Rightarrow> health" where
  "health_poll cfg liq_incentive liquidity accts =
     foldl (health_one cfg liq_incentive liquidity) \<lparr>he_liquidatable = 0, he_best = None, he_alerts = []\<rparr> accts"

section \<open>Every block is asked for once\<close>

definition blocks_of :: "(nat \<times> nat) list \<Rightarrow> nat list" where
  "blocks_of ws = concat (map (\<lambda>(f, t). [f..<t + 1]) ws)"

lemma blocks_of_simps [simp]: "blocks_of [] = []" "blocks_of ((f, t) # ws) = [f..<t + 1] @ blocks_of ws"
  "blocks_of (xs @ ys) = blocks_of xs @ blocks_of ys"
  by (simp_all add: blocks_of_def)

lemma upt_join: "a \<le> b \<Longrightarrow> b \<le> c \<Longrightarrow> [a..<b] @ [b..<c] = [a..<c]"
  by (metis le_add_diff_inverse upt_add_eq_append)

lemma poll_windows_blocks: "f \<le> h + 1 \<Longrightarrow> blocks_of (poll_windows h f) = [f..<h + 1]"
proof (induction h f rule: poll_windows.induct)
  case (1 h f)
  show ?case
  proof (cases "f \<le> h")
    case True
    let ?t = "min (f + CHUNK) h"
    have "blocks_of (poll_windows h (?t + 1)) = [?t + 1..<h + 1]" using 1 True by simp
    then show ?thesis using True upt_join [of f "?t + 1" "h + 1"]
      by (subst poll_windows.simps) (simp add: Let_def)
  next
    case False
    then show ?thesis using 1(2) by (subst poll_windows.simps) simp
  qed
qed

text \<open>The seed loop stops a block early when the distance is a multiple of the step, 5001.\<close>

lemma seed_windows_blocks:
  "lo \<le> head \<Longrightarrow> blocks_of (seed_windows head lo)
     = (if (head - lo) mod (CHUNK + 1) = 0 then [lo..<head] else [lo..<head + 1])"
proof (induction head lo rule: seed_windows.induct)
  case (1 head lo)
  show ?case
  proof (cases "lo < head")
    case True
    let ?t = "min (lo + CHUNK) head"
    show ?thesis
    proof (cases "lo + CHUNK < head")
      case far: True
      then have t: "?t + 1 = lo + (CHUNK + 1)" by simp
      have "blocks_of (seed_windows head (?t + 1))
          = (if (head - (?t + 1)) mod (CHUNK + 1) = 0 then [?t + 1..<head] else [?t + 1..<head + 1])"
        using 1(1) [OF True refl] far by simp
      moreover have "(head - (?t + 1)) mod (CHUNK + 1) = (head - lo) mod (CHUNK + 1)"
        unfolding t using far le_mod_geq [of "CHUNK + 1" "head - lo"] by (simp add: CHUNK_def)
      moreover have "blocks_of (seed_windows head lo) = [lo..<?t + 1] @ blocks_of (seed_windows head (?t + 1))"
        using True by (subst seed_windows.simps) (simp add: Let_def)
      ultimately show ?thesis using far upt_join [of lo "?t + 1" head] upt_join [of lo "?t + 1" "head + 1"] by simp
    next
      case False
      then have "blocks_of (seed_windows head lo) = [lo..<head + 1]"
        using True by (subst seed_windows.simps, subst seed_windows.simps) (simp add: Let_def)
      moreover have "(head - lo) mod (CHUNK + 1) = head - lo" using False by simp
      ultimately show ?thesis using True by simp
    qed
  next
    case False
    then show ?thesis using 1(2) by (subst seed_windows.simps) simp
  qed
qed

text \<open>A history over a chain whose logs do not change: what each poll learns of the head.\<close>

definition venus_run :: "(nat \<times> nat \<Rightarrow> reply) \<Rightarrow> reply \<Rightarrow> reply list \<Rightarrow> venus" where
  "venus_run get_logs head_reply heads = foldl (\<lambda>v r. venus_discover r get_logs v) (venus_seed head_reply get_logs) heads"

definition venus_inv :: "(nat \<times> nat \<Rightarrow> reply) \<Rightarrow> nat \<Rightarrow> venus \<Rightarrow> bool" where
  "venus_inv get_logs start v \<longleftrightarrow> start \<le> vn_last_scanned v + 1
     \<and> blocks_of (vn_requested v) = [start..<vn_last_scanned v + 1]
     \<and> vn_borrowers v = (\<Union>w \<in> set (vn_requested v). borrowers_of (get_logs w))"

lemma foldl_scan_borrows: "foldl (\<lambda>b w. scan_borrows get_logs w b) b ws = b \<union> (\<Union>w \<in> set ws. borrowers_of (get_logs w))"
  by (induction ws arbitrary: b) (auto simp: scan_borrows_def)

lemma venus_discover_inv:
  assumes "venus_inv get_logs start v"
  shows "venus_inv get_logs start (venus_discover r get_logs v)"
proof (cases "venus_block_number r")
  case None
  with assms show ?thesis by (simp add: venus_discover_def)
next
  case (Some h)
  show ?thesis
  proof (cases "vn_last_scanned v < unat h")
    case True
    have "blocks_of (poll_windows (unat h) (vn_last_scanned v + 1)) = [vn_last_scanned v + 1..<unat h + 1]"
      using True by (intro poll_windows_blocks) simp
    then show ?thesis
      using assms True Some upt_join [of start "vn_last_scanned v + 1" "unat h + 1"]
      by (auto simp: venus_inv_def venus_discover_def scan_windows_def foldl_scan_borrows)
  qed (use assms Some in \<open>simp add: venus_discover_def\<close>)
qed

interpretation venus_watch: stateful "\<lambda>v r. venus_discover r get_logs v" "venus_inv get_logs start" for get_logs start
  by unfold_locales (rule venus_discover_inv)

lemma venus_seed_inv:
  assumes "venus_block_number head_reply = Some h" and "SEED_BLOCKS \<le> unat h"
  shows "venus_inv get_logs (unat h - SEED_BLOCKS) (venus_seed head_reply get_logs)"
proof -
  have "(unat h - (unat h - SEED_BLOCKS)) mod (CHUNK + 1) \<noteq> 0"
    using assms(2) by (simp add: SEED_BLOCKS_def CHUNK_def)
  then have "blocks_of (seed_windows (unat h) (unat h - SEED_BLOCKS)) = [unat h - SEED_BLOCKS..<unat h + 1]"
    by (simp add: seed_windows_blocks)
  then show ?thesis
    by (simp add: venus_inv_def venus_seed_def scan_windows_def foldl_scan_borrows assms(1) Let_def)
qed


text \<open>When the first head request fails the watcher starts at block 0: the first poll that learns of
  the head asks for the whole chain.\<close>

lemma unknown_head_scans_chain:
  assumes "venus_block_number head_reply = None" and "venus_block_number r = Some h" and "0 < unat h"
  shows "blocks_of (vn_requested (venus_run get_logs head_reply [r])) = [1..<unat h + 1]"
proof -
  have "seed_windows 0 0 = []" by (subst seed_windows.simps) simp
  then show ?thesis
    using assms poll_windows_blocks [of 1 "unat h"]
    by (simp add: venus_run_def venus_seed_def venus_discover_def scan_windows_def Let_def)
qed

text \<open>On a chain shorter than the seed window whose height is a multiple of 5001 the head block is left out.\<close>

lemma seed_misses_head: "blocks_of (seed_windows 5001 (5001 - SEED_BLOCKS)) = [0..<5001]"
  using seed_windows_blocks [of 0 5001] by (simp add: SEED_BLOCKS_def CHUNK_def)

text \<open>A shortfall of more than 128 bits reads as zero.\<close>

lemma huge_shortfall_ignored:
  assumes "venus_eth_call r = Some (''0x'' @ a @ b @ c)" "length a = 64" "length b = 64" "length c = 64"
    and "from_str_radix 16 (2 ^ 128) (trim_start_matches ''0x'' c) = None" and "CHR ''x'' \<notin> set a"
  shows "account_bounty inc r = None"
proof -
  have "take 2 a \<noteq> ''0x''" using assms(6) by (metis in_set_takeD list.set_intros(1) list.set_intros(2))
  then have "take 2 (a @ b @ c) \<noteq> ''0x''" using assms(2) by simp
  then have "trim_start_matches ''0x'' (''0x'' @ a @ b @ c) = a @ b @ c"
    by (subst trim_start_matches.simps, subst trim_start_matches.simps) (simp add: numeral_2_eq_2)
  moreover have "slice 128 192 (a @ b @ c) = c" using assms(2-4) by (simp add: slice_def)
  moreover have "venus_f64 c = Fin 0" using assms(5) by (simp add: venus_f64_def parse_u128_def)
  moreover have "flit (10 ^ 18) = Fin (10 ^ 18)"
    using rnd_dyadic [of "5 ^ 18" 18] by (simp add: flit_def power_int_def)
  ultimately show ?thesis using assms(1-4) by (simp add: account_bounty_def)
qed

definition example_head :: "nat \<Rightarrow> reply" where
  "example_head n = Reply (JObj [(''result'', JStr (show_hex n))])"

lemma example_heads: "venus_block_number (example_head 100005) = Some 100005"
  using parse_show_hex [of 100005 "2 ^ 64"]
  by (simp add: example_head_def venus_block_number_def venus_eth_call_def venus_result_def parse_u64_def)


end
