(* ===== verification/Sources.thy ===== *)
theory Sources
  imports Bus Rpc
begin

text \<open>
  The transaction sources of \<open>bsc-sources\<close>: the backfill of a hash announced by a WebSocket
  provider, the events of the local IPC socket, and the reconnection delays. The answers of
  the provider, the parsed line and its decoding are arguments; durations are milliseconds.
\<close>

section \<open>WebSocket backfill\<close>

record wss_config =
  wc_source_id :: source_id
  wc_url :: string
  wc_backfill_concurrency :: nat
  wc_backfill_retries :: u8
  wc_initial_backoff :: nat
  wc_max_backoff :: nat

definition wss_config_new :: "source_id \<Rightarrow> string \<Rightarrow> wss_config" where
  "wss_config_new sid url = \<lparr>wc_source_id = sid, wc_url = url, wc_backfill_concurrency = 32,
     wc_backfill_retries = 2, wc_initial_backoff = 500, wc_max_backoff = 10000\<rparr>"

text \<open>An answer to \<open>eth_getTransactionByHash\<close>.\<close>

datatype 'tx tx_answer = TxFound 'tx | TxUnknown | TxError

definition backfill_delays :: "nat list" where
  "backfill_delays = [0, 100, 300]"

text \<open>The delays still to try; the answers by number of the attempt. The result is the
  transaction to send, the requests made and the time slept.\<close>

fun backfill_attempts :: "(nat \<Rightarrow> 'tx tx_answer) \<Rightarrow> nat list \<Rightarrow> nat \<Rightarrow> nat \<Rightarrow> 'tx option \<times> nat \<times> nat" where
  "backfill_attempts ask [] k slept = (None, k, slept)"
| "backfill_attempts ask (d # ds) k slept =
     (case ask k of
        TxFound tx \<Rightarrow> (Some tx, k + 1, slept + d)
      | _ \<Rightarrow> backfill_attempts ask ds (k + 1) (slept + d))"

definition backfill_one ::
  "wss_config \<Rightarrow> (nat \<Rightarrow> 'tx tx_answer) \<Rightarrow> b256 \<Rightarrow> u64 \<Rightarrow> 'tx raw_tx option \<times> nat \<times> nat" where
  "backfill_one cfg ask h recv_ns =
     (let max_attempts = min (unat (wc_backfill_retries cfg) + 1) (length backfill_delays);
          (tx, requests, slept) = backfill_attempts ask (take max_attempts backfill_delays) 0 0
      in (map_option (\<lambda>tx. \<lparr>rt_source = wc_source_id cfg, rt_recv_ns = recv_ns, rt_hash = h,
             rt_payload = Decoded tx None\<rparr>) tx, requests, slept))"

text \<open>What reaches the channel of the bus.\<close>

definition wss_announce ::
  "wss_config \<Rightarrow> (nat \<Rightarrow> 'tx tx_answer) \<Rightarrow> b256 \<Rightarrow> u64 \<Rightarrow> 'tx pipeline \<Rightarrow> 'tx pipeline" where
  "wss_announce cfg ask h recv_ns s = (case fst (backfill_one cfg ask h recv_ns) of
       None \<Rightarrow> s | Some raw \<Rightarrow> source_send raw s)"

section \<open>The IPC socket\<close>

definition auto_detect :: "(string \<Rightarrow> bool) \<Rightarrow> string option \<Rightarrow> string option" where
  "auto_detect path_exists home =
     (case filter path_exists [''/data/bsc-meme-mev/bsc-geth/geth.ipc'', ''/tmp/geth.ipc''] of
        c # _ \<Rightarrow> Some c
      | [] \<Rightarrow>
          (case home of
             None \<Rightarrow> None
           | Some h \<Rightarrow> (case filter path_exists (map (\<lambda>s. h @ ''/'' @ s) [''.bnb/geth.ipc'', ''.bsc/geth.ipc'']) of
               p # _ \<Rightarrow> Some p | [] \<Rightarrow> None)))"

text \<open>The subscription acknowledgement: a missing line, bad JSON and an error all end the run.\<close>

definition ipc_ack :: "json option option \<Rightarrow> string option" where
  "ipc_ack line = (case line of
       Some (Some v) \<Rightarrow>
         if jget v ''error'' \<noteq> None then None
         else (case Option.bind (jget v ''result'') as_str of Some s \<Rightarrow> Some s | None \<Rightarrow> Some ''?'')
     | _ \<Rightarrow> None)"

text \<open>A trimmed line, how it parses, and how its body decodes: the hash and the transaction.\<close>

definition ipc_event :: "(string \<Rightarrow> json option) \<Rightarrow> (json \<Rightarrow> (b256 \<times> 'tx) option) \<Rightarrow> u64 \<Rightarrow> string \<Rightarrow> 'tx raw_tx option" where
  "ipc_event parse decode recv_ns line =
     (if line = [] then None
      else case parse line of
        None \<Rightarrow> None
      | Some v \<Rightarrow>
          if Option.bind (jget v ''method'') as_str \<noteq> Some ''eth_subscription'' then None
          else (case Option.bind (jget v ''params'') (\<lambda>p. jget p ''result'') of
             None \<Rightarrow> None
           | Some r \<Rightarrow>
               (case decode r of
                  None \<Rightarrow> None
                | Some (h, tx) \<Rightarrow> Some \<lparr>rt_source = LOCAL_IPC, rt_recv_ns = recv_ns, rt_hash = h,
                    rt_payload = Decoded tx None\<rparr>)))"

definition handle_event ::
  "(string \<Rightarrow> json option) \<Rightarrow> (json \<Rightarrow> (b256 \<times> 'tx) option) \<Rightarrow> u64 \<Rightarrow> string \<Rightarrow> 'tx pipeline \<Rightarrow> 'tx pipeline" where
  "handle_event parse decode recv_ns line s = (case ipc_event parse decode recv_ns line of
       None \<Rightarrow> s | Some raw \<Rightarrow> source_send raw s)"

section \<open>Reconnecting\<close>

text \<open>Both sources sleep and double after every end of a run, however long the run was.\<close>

definition backoff_sleep :: "nat \<Rightarrow> nat \<Rightarrow> nat \<times> nat" where
  "backoff_sleep current most = (current, min (current * 2) most)"

fun reconnect_delays :: "nat \<Rightarrow> nat \<Rightarrow> nat \<Rightarrow> nat list" where
  "reconnect_delays current most 0 = []"
| "reconnect_delays current most (Suc n) =
     (let (d, next) = backoff_sleep current most in d # reconnect_delays next most n)"

definition ipc_reconnect_delays :: "nat \<Rightarrow> nat list" where
  "ipc_reconnect_delays n = reconnect_delays 500 10000 n"

lemma reconnect_delay:
  "k < n \<Longrightarrow> c \<le> most \<Longrightarrow> reconnect_delays c most n ! k = min (c * 2 ^ k) most"
proof (induction n arbitrary: c k)
  case (Suc n)
  show ?case
  proof (cases k)
    case 0
    with Suc.prems show ?thesis by (simp add: backoff_sleep_def)
  next
    case (Suc j)
    have "reconnect_delays (min (c * 2) most) most n ! j = min (min (c * 2) most * 2 ^ j) most"
      using Suc Suc.IH Suc.prems(1) by (simp add: Suc.IH)
    moreover have "min (min (c * 2) most * 2 ^ j) most = min (c * 2 * 2 ^ j) most"
    proof (cases "c * 2 \<le> most")
      case False
      then have below: "most \<le> c * 2" by simp
      also have "c * 2 \<le> c * 2 * 2 ^ j" by simp
      finally have "most \<le> c * 2 * 2 ^ j" .
      with below show ?thesis by (simp add: min_absorb2)
    qed (simp add: min_def)
    ultimately show ?thesis using Suc by (simp add: backoff_sleep_def mult.assoc)
  qed
qed simp

text \<open>The bound on a backfill: three requests, 400 ms of sleep.\<close>

lemma backfill_attempts_bound:
  "fst (snd (backfill_attempts ask ds k slept)) \<le> k + length ds
     \<and> snd (snd (backfill_attempts ask ds k slept)) \<le> slept + sum_list ds"
proof (induction ds arbitrary: k slept)
  case (Cons d ds)
  from Cons [of "k + 1" "slept + d"] show ?case by (auto split: tx_answer.split)
qed simp

lemma backfill_bounded:
  "fst (snd (backfill_one cfg ask h recv_ns)) \<le> 3 \<and> snd (snd (backfill_one cfg ask h recv_ns)) \<le> 400"
proof -
  let ?ds = "take (min (unat (wc_backfill_retries cfg) + 1) (length backfill_delays)) backfill_delays"
  have "sum_list ?ds \<le> 400" by (simp add: backfill_delays_def take_Cons split: nat.split)
  moreover have "length ?ds \<le> 3" by (simp add: backfill_delays_def)
  ultimately show ?thesis
    using backfill_attempts_bound [of ask ?ds 0 0]
    by (auto simp: backfill_one_def Let_def split: prod.splits)
qed

end
