(* ===== verification/Wiring.thy ===== *)
theory Wiring
  imports PaperTrader KolSafety DevSniper Venus Sources
begin

text \<open>
  The composition of \<open>crates/bsc-runner/src/wiring.rs\<close>: what a start-up turns on, which channel
  goes to which trader, and the running whole: the KOL watchers, the two paper traders, the live
  trader and the sniper, stepped in any order. The parts keep their own models; what they read
  comes with the events. The bus, the capture and the feeds to the monitors are theories of
  their own.
\<close>

section \<open>Start-up\<close>

record wss_entry =
  we_name :: string
  we_source_id :: source_id
  we_url :: string
  we_backfill_concurrency :: "nat option"

text \<open>The sections that decide what starts; an IPC section has an optional path.\<close>

record runner_config =
  rc_capture_enabled :: bool
  rc_wss :: "wss_entry list"
  rc_ipc :: "string option option"
  rc_trader :: trader_config
  rc_trader_private :: trader_config
  rc_kol_watch :: kol_watch_config
  rc_liquidator :: liquidator_config
  rc_dev_sniper :: dev_sniper_config
  rc_adaptive_trail :: trail_config
  rc_sniper_trail :: trail_config

text \<open>What the start-up reads; files by their path, and whether the metrics address parses, the
  recorder installs and the capture opens, whose failures end the run.\<close>

record run_boot =
  rb_metrics_ok :: bool
  rb_capture_ok :: bool
  rb_public :: paper_boot
  rb_private :: paper_boot
  rb_live :: boot
  rb_kols :: "string \<Rightarrow> kol list option"
  rb_devs :: "string \<Rightarrow> address set option"
  rb_url_ok :: "string \<Rightarrow> bool"
  rb_path_exists :: "string \<Rightarrow> bool"
  rb_home :: "string option"

datatype started_source = StartedWss wss_config | StartedIpc string

definition wss_source_of :: "wss_entry \<Rightarrow> started_source" where
  "wss_source_of e = StartedWss
     (let cfg = wss_config_new (we_source_id e) (we_url e) in
      case we_backfill_concurrency e of Some c \<Rightarrow> cfg\<lparr>wc_backfill_concurrency := c\<rparr> | None \<Rightarrow> cfg)"

definition spawn_sources :: "runner_config \<Rightarrow> run_boot \<Rightarrow> started_source list" where
  "spawn_sources cfg rb =
     List.map wss_source_of (filter (\<lambda>e. rb_url_ok rb (we_url e)) (rc_wss cfg))
     @ (case rc_ipc cfg of
          None \<Rightarrow> []
        | Some path \<Rightarrow>
            (case (case path of Some p \<Rightarrow> Some p | None \<Rightarrow> auto_detect (rb_path_exists rb) (rb_home rb)) of
               Some p \<Rightarrow> [StartedIpc p] | None \<Rightarrow> []))"

definition kol_file_of :: "kol_watch_config \<Rightarrow> string" where
  "kol_file_of cfg = (if kw_file cfg = [] then ''config/kols.toml'' else kw_file cfg)"

record runtime =
  rt_kol :: "kol_system option"
  rt_public :: "paper_trader option"
  rt_private :: "paper_trader option"
  rt_live :: "live_trader option"
  rt_sniper :: "sniper option"
  rt_monitors :: bool
  rt_venus :: bool
  rt_sources :: "started_source list"

text \<open>
  The watchers get the channels of the traders that started. The confirmation watcher runs on
  its own reading of the list (an empty one when it does not load), also when the pending
  watcher does not start.
\<close>

definition start_watchers :: "kol_watch_config \<Rightarrow> (string \<Rightarrow> kol list option) \<Rightarrow> bool \<Rightarrow> bool \<Rightarrow> bool \<Rightarrow> kol_system option" where
  "start_watchers cfg read_file public private live =
     (if \<not> kw_enabled cfg then None
      else let chan = (\<lambda>on capacity. if on then Some (new_channel capacity) else None);
               started = kol_watch_start cfg read_file (chan public 256) (chan private 256) (chan live 1024) (Some [])
           in Some \<lparr>ks_index = (case started of Some (index, _) \<Rightarrow> index | None \<Rightarrow> []),
                ks_confirm_index = (case kol_index_load (read_file (kol_file_of cfg)) (kw_groups cfg) of
                   Some index \<Rightarrow> index | None \<Rightarrow> []),
                ks_sinks = (case started of Some (_, s) \<Rightarrow> s
                  | None \<Rightarrow> \<lparr>sk_telegram = None, sk_trader = chan public 256, sk_private = chan private 256,
                       sk_live = chan live 1024, sk_confirm = Some [], sk_drops = []\<rparr>),
                ks_lines = []\<rparr>)"

text \<open>Neither paper trader is started with a live executor, and the sniper gets none.\<close>

definition run_startup :: "runner_config \<Rightarrow> run_boot \<Rightarrow> runtime option" where
  "run_startup cfg rb =
     (if \<not> rb_metrics_ok rb then None
      else if rc_capture_enabled cfg \<and> \<not> rb_capture_ok rb then None
      else
        let public = start_paper (rc_trader cfg) (rb_public rb) (rb_live rb) False;
            private = start_paper (rc_trader_private cfg) (rb_private rb) (rb_live rb) False;
            live = start_live_only (rb_live rb) (rc_adaptive_trail cfg) feed_new
        in Some \<lparr>
          rt_kol = start_watchers (rc_kol_watch cfg) (rb_kols rb) (public \<noteq> None) (private \<noteq> None) (live \<noteq> None),
          rt_public = public, rt_private = private, rt_live = live,
          rt_sniper = sniper_start (rc_dev_sniper cfg) (rc_sniper_trail cfg) (rb_devs rb (nc_dev_whitelist_file (rc_dev_sniper cfg))) None,
          rt_monitors = (public \<noteq> None),
          rt_venus = venus_starts (rc_liquidator cfg),
          rt_sources = spawn_sources cfg rb\<rparr>)"

section \<open>The running whole\<close>

definition next_hit :: "channel option \<Rightarrow> kol_hit option" where
  "next_hit c = (case c of Some ch \<Rightarrow> (case ch_queue ch of h # _ \<Rightarrow> Some h | [] \<Rightarrow> None) | None \<Rightarrow> None)"

text \<open>A consumer takes the head of its channel.\<close>

definition deliver ::
  "(sinks \<Rightarrow> channel option) \<Rightarrow> sink_name \<Rightarrow> (kol_hit \<Rightarrow> 't \<Rightarrow> 't) \<Rightarrow> kol_system option \<times> 't option \<Rightarrow> kol_system option \<times> 't option" where
  "deliver chan name consume st =
     (case st of
        (Some ks, Some t) \<Rightarrow>
          (case next_hit (chan (ks_sinks ks)) of
             None \<Rightarrow> st
           | Some hit \<Rightarrow> (Some (kol_step ks (Received name)), Some (consume hit t)))
      | _ \<Rightarrow> st)"

datatype runtime_event =
    Watch kol_event
  | DeliverPublic paper_platform paper_reads
  | DeliverPrivate paper_platform paper_reads
  | DeliverLive platform hit_readings
  | SweepPublic paper_platform "position_key \<Rightarrow> close_reads" u64
  | SweepPrivate paper_platform "position_key \<Rightarrow> close_reads" u64
  | LiveRuns trader_event
  | SniperRuns sniper_event

fun is_hit :: "trader_event \<Rightarrow> bool" where
  "is_hit (Hit pf hr hit) = True"
| "is_hit _ = False"

text \<open>The live trader's other tasks run by themselves; hits reach it by its channel only.\<close>

fun runtime_step :: "runtime \<Rightarrow> runtime_event \<Rightarrow> runtime" where
  "runtime_step rt (Watch e) = rt\<lparr>rt_kol := map_option (\<lambda>ks. kol_step ks e) (rt_kol rt)\<rparr>"
| "runtime_step rt (DeliverPublic pl rd) =
     (let (ks, t) = deliver sk_trader ToTrader (run_consumer pl rd) (rt_kol rt, rt_public rt) in rt\<lparr>rt_kol := ks, rt_public := t\<rparr>)"
| "runtime_step rt (DeliverPrivate pl rd) =
     (let (ks, t) = deliver sk_private ToPrivate (run_consumer pl rd) (rt_kol rt, rt_private rt) in rt\<lparr>rt_kol := ks, rt_private := t\<rparr>)"
| "runtime_step rt (DeliverLive pf hr) =
     (let (ks, t) = deliver sk_live ToLive (consume_hit pf hr) (rt_kol rt, rt_live rt) in rt\<lparr>rt_kol := ks, rt_live := t\<rparr>)"
| "runtime_step rt (SweepPublic pl cls now_ns) = rt\<lparr>rt_public := map_option (run_sweeper pl cls now_ns) (rt_public rt)\<rparr>"
| "runtime_step rt (SweepPrivate pl cls now_ns) = rt\<lparr>rt_private := map_option (run_sweeper pl cls now_ns) (rt_private rt)\<rparr>"
| "runtime_step rt (LiveRuns e) =
     (if is_hit e then rt else rt\<lparr>rt_live := map_option (\<lambda>lt. trader_step lt e) (rt_live rt)\<rparr>)"
| "runtime_step rt (SniperRuns e) = rt\<lparr>rt_sniper := map_option (\<lambda>sn. sniper_step sn e) (rt_sniper rt)\<rparr>"

section \<open>Reconnecting services\<close>

text \<open>
  The delay after each run of a subscription: \<open>True\<close> for a run that ended without an error,
  which resets the backoff before it is slept and doubled. Milliseconds; the head updater,
  the launchpad feed, the trail and the sniper's two loops differ in the cap only.
\<close>

fun service_delays :: "nat \<Rightarrow> nat \<Rightarrow> bool list \<Rightarrow> nat list" where
  "service_delays most backoff [] = []"
| "service_delays most backoff (ok # runs) =
     (let delay = (if ok then 500 else backoff) in delay # service_delays most (min (delay * 2) most) runs)"

definition head_delays :: "bool list \<Rightarrow> nat list" where
  "head_delays runs = service_delays 10000 500 runs"

definition feed_delays :: "bool list \<Rightarrow> nat list" where
  "feed_delays runs = service_delays 15000 500 runs"

definition trail_delays :: "bool list \<Rightarrow> nat list" where
  "trail_delays runs = service_delays 15000 500 runs"

definition detection_delays :: "bool list \<Rightarrow> nat list" where
  "detection_delays runs = service_delays 15000 500 runs"

definition sniper_trail_delays :: "bool list \<Rightarrow> nat list" where
  "sniper_trail_delays runs = service_delays 15000 500 runs"

lemma service_delays_bounded:
  "500 \<le> most \<Longrightarrow> 500 \<le> b \<Longrightarrow> b \<le> most \<Longrightarrow> d \<in> set (service_delays most b runs) \<Longrightarrow> 500 \<le> d \<and> d \<le> most"
proof (induction runs arbitrary: b)
  case (Cons ok runs)
  let ?next = "min ((if ok then 500 else b) * 2) most"
  have "500 \<le> ?next \<and> ?next \<le> most" using Cons.prems(1,2) by simp
  then show ?case using Cons.IH [of ?next] Cons.prems by (auto simp: Let_def)
qed simp

text \<open>A good run is followed by half a second, the k-th failure in a row by a doubled delay up to the cap.\<close>

lemma service_delay_after_good_run: "k < length runs \<Longrightarrow> runs ! k \<Longrightarrow> service_delays most b runs ! k = 500"
  by (induction runs arbitrary: b k) (auto simp: Let_def nth_Cons split: nat.split)

lemma service_delays_failing: "service_delays most b (replicate n False) = reconnect_delays b most n"
  by (induction n arbitrary: b) (simp_all add: Let_def backoff_sleep_def)

lemma service_delay_after_failures:
  "b \<le> most \<Longrightarrow> k < n \<Longrightarrow> service_delays most b (replicate n False) ! k = min (b * 2 ^ k) most"
  by (simp add: service_delays_failing reconnect_delay)

section \<open>Names come from the list\<close>

definition listed_names :: "kol_watch_config \<Rightarrow> (string \<Rightarrow> kol list option) \<Rightarrow> string set" where
  "listed_names cfg read_file = (case read_file (kol_file_of cfg) of
       None \<Rightarrow> {}
     | Some ks \<Rightarrow> kol_name ` {k \<in> set ks. kw_groups cfg = [] \<or> (\<exists>g \<in> set (kol_groups k). g \<in> set (kw_groups cfg))})"

text \<open>The hits waiting in a channel, the entries of the registry and an index name only KOLs of \<open>N\<close>.\<close>

definition channel_names :: "channel option \<Rightarrow> string set" where
  "channel_names c = (case c of None \<Rightarrow> {} | Some ch \<Rightarrow> kh_kol_name ` set (ch_queue ch))"

definition registry_names :: "registry \<Rightarrow> string set" where
  "registry_names reg = pm_kol_name ` snd ` set reg"

definition sinks_named :: "string set \<Rightarrow> sinks \<Rightarrow> bool" where
  "sinks_named N s \<longleftrightarrow> channel_names (sk_trader s) \<subseteq> N \<and> channel_names (sk_private s) \<subseteq> N
     \<and> (\<forall>reg. sk_confirm s = Some reg \<longrightarrow> registry_names reg \<subseteq> N)"

definition index_named :: "string set \<Rightarrow> kol_index \<Rightarrow> bool" where
  "index_named N index \<longleftrightarrow> kol_name ` snd ` set index \<subseteq> N"

lemma channel_names_simps [simp]:
  "channel_names None = {}" "channel_names (Some (new_channel n)) = {}"
  by (simp_all add: channel_names_def new_channel_def)

lemma forwarded_names: "channel_names (fst (forward_or_log sink hit c)) \<subseteq> insert (kh_kol_name hit) (channel_names c)"
  by (auto simp: forward_or_log_def try_send_def channel_names_def split: option.splits if_splits)

lemma counted_names: "channel_names (fst (send_counted counter hit c)) \<subseteq> insert (kh_kol_name hit) (channel_names c)"
  by (auto simp: send_counted_def try_send_def channel_names_def split: option.splits if_splits)

lemma received_names: "channel_names (recv_hit c) \<subseteq> channel_names c"
proof (cases c)
  case (Some ch)
  then show ?thesis by (cases "ch_queue ch") (auto simp: recv_hit_def channel_names_def)
qed (simp add: recv_hit_def)

lemma forwards_named:
  assumes "kh_kol_name hit \<in> N" and "sinks_named N s"
  shows "sinks_named N (forward_trader hit s)" "sinks_named N (forward_private hit s)" "sinks_named N (forward_live hit s)"
  using assms forwarded_names [of "''trader_tx''" hit "sk_trader s"] forwarded_names [of "''private_tx''" hit "sk_private s"]
  by (auto simp: sinks_named_def forward_trader_def forward_private_def forward_live_def split_def Let_def)

lemma fire_named:
  assumes "kh_kol_name hit \<in> N" and "sinks_named N s"
  shows "sinks_named N (fire_hit hit s)"
proof -
  have "sk_private (fire_hit hit s) = sk_private s" "\<exists>c. sk_trader (fire_hit hit s) = fst (send_counted c hit (sk_trader s))"
    by (auto simp: fire_hit_def split_def Let_def)
  then show ?thesis using assms counted_names [of _ hit "sk_trader s"] by (fastforce simp: sinks_named_def)
qed

lemma lookup_named: "index_named N index \<Longrightarrow> kol_lookup index a = Some k \<Longrightarrow> kol_name k \<in> N"
  by (force simp: kol_lookup_def index_named_def dest: map_of_SomeD)

lemma registry_names_simps [simp]:
  "registry_names [] = {}" "registry_names (x # reg) = insert (pm_kol_name (snd x)) (registry_names reg)"
  by (simp_all add: registry_names_def)

lemma registered_names: "registry_names (registry_register h m reg) \<subseteq> insert (pm_kol_name m) (registry_names reg)"
  unfolding registry_register_def by (induction reg) auto

lemma filtered_names: "registry_names (filter P reg) \<subseteq> registry_names reg"
  by (auto simp: registry_names_def)

lemma deleted_names: "registry_names (AList.delete h reg) \<subseteq> registry_names reg"
  unfolding AList.delete_eq by (rule filtered_names)

lemma entry_named: "map_of reg h = Some m \<Longrightarrow> pm_kol_name m \<in> registry_names reg"
  by (force simp: registry_names_def dest: map_of_SomeD)

lemma process_one_named:
  assumes "index_named N index" and "sinks_named N s"
  shows "sinks_named N (process_one index now p s)"
proof (cases "kol_lookup index (pt_from p)")
  case (Some k)
  let ?hit = "from_pending k p"
  have name: "kh_kol_name ?hit \<in> N" using lookup_named [OF assms(1) Some] by (simp add: from_pending_def Let_def)
  have "sinks_named N (s\<lparr>sk_confirm := Some (registry_register h (pending_meta_of ?hit sd p now) reg)\<rparr>)"
    if "sk_confirm s = Some reg" for reg sd h
    using that assms(2) name registered_names [of h "pending_meta_of ?hit sd p now" reg]
    by (auto simp: sinks_named_def pending_meta_of_def)
  then show ?thesis using Some name assms(2)
    by (auto simp: process_one_def Let_def intro!: fire_named split: option.split)
qed (use assms in \<open>simp add: process_one_def\<close>)

lemma process_txn_named:
  assumes "index_named N index" and "sinks_named N (snd st)"
  shows "sinks_named N (snd (process_txn index block recv txn st))"
proof -
  obtain lines s where st: "st = (lines, s)" by (cases st)
  let ?reg = "case sk_confirm s of Some r \<Rightarrow> r | None \<Rightarrow> []"
  have s: "sinks_named N s" and reg: "registry_names ?reg \<subseteq> N"
    using assms(2) by (auto simp: st sinks_named_def split: option.split)
  show ?thesis
  proof (cases "map_of ?reg (mt_hash txn)")
    case (Some m)
    have m: "pm_kol_name m \<in> N" using entry_named [OF Some] reg by blast
    have "sinks_named N (s\<lparr>sk_confirm := Some (AList.delete (mt_hash txn) ?reg)\<rparr>)"
      using s reg deleted_names [of "mt_hash txn" ?reg] by (simp add: sinks_named_def)
    then show ?thesis using Some m
      by (auto simp: process_txn_def st Let_def registry_remove_def process_public_def confirmed_hit_def
          intro!: forwards_named split: option.split)
  next
    case None
    then show ?thesis using s lookup_named [OF assms(1)]
      by (auto simp: process_txn_def st Let_def registry_remove_def process_private_def confirmed_hit_def
          intro!: forwards_named split: option.split side.split)
  qed
qed

definition watchers_named :: "string set \<Rightarrow> kol_system \<Rightarrow> bool" where
  "watchers_named N ks \<longleftrightarrow> index_named N (ks_index ks) \<and> index_named N (ks_confirm_index ks) \<and> sinks_named N (ks_sinks ks)"

lemma block_named:
  assumes "index_named N index" and "sinks_named N (snd st)"
  shows "sinks_named N (snd (foldl (\<lambda>st txn. process_txn index block recv txn st) st txns))"
  using assms(2) by (induction txns arbitrary: st) (simp_all add: process_txn_named [OF assms(1)])

lemma kol_step_named:
  assumes "watchers_named N ks"
  shows "watchers_named N (kol_step ks e)"
proof (cases e)
  case (NewBlock fetched block recv)
  then show ?thesis using assms
    by (auto simp: watchers_named_def process_block_def split_def Let_def intro!: block_named split: option.split)
next
  case (SweepRegistry now)
  show ?thesis
    using assms filtered_names unfolding SweepRegistry
    by (fastforce simp: watchers_named_def sinks_named_def sweep_expired_def)
next
  case (Received name)
  then show ?thesis using assms received_names [of "sk_trader (ks_sinks ks)"] received_names [of "sk_private (ks_sinks ks)"]
    by (cases name) (auto simp: watchers_named_def sinks_named_def)
qed (use assms in \<open>simp add: watchers_named_def process_one_named\<close>)

interpretation watchers: stateful kol_step "watchers_named N" for N
  by unfold_locales (rule kol_step_named)

lemma update_values: "snd ` set (AList.update a v m) \<subseteq> insert v (snd ` set m)"
  by (induction m) auto

lemma loaded_values: "snd ` set (foldl (\<lambda>m k. AList.update (kol_address k) k m) m ks) \<subseteq> snd ` set m \<union> set ks"
proof (induction ks arbitrary: m)
  case (Cons k ks)
  show ?case using Cons.IH [of "AList.update (kol_address k) k m"] update_values [of "kol_address k" k m] by (simp, blast)
qed simp

lemma loaded_names:
  assumes "kol_index_load (read_file (kol_file_of cfg)) (kw_groups cfg) = Some index"
  shows "index_named (listed_names cfg read_file) index"
proof -
  let ?P = "\<lambda>k. kw_groups cfg = [] \<or> (\<exists>g \<in> set (kol_groups k). g \<in> set (kw_groups cfg))"
  obtain ks where ks: "read_file (kol_file_of cfg) = Some ks"
    and index: "index = foldl (\<lambda>m k. AList.update (kol_address k) k m) [] (filter ?P ks)"
    using assms by (auto simp: kol_index_load_def)
  have "snd ` set index \<subseteq> {k \<in> set ks. ?P k}" using loaded_values [of "[]" "filter ?P ks"] by (simp add: index)
  then have "kol_name ` snd ` set index \<subseteq> kol_name ` {k \<in> set ks. ?P k}" by (rule image_mono)
  then show ?thesis by (simp add: index_named_def listed_names_def ks)
qed

lemma start_watchers_named:
  assumes "start_watchers cfg read_file public private live = Some ks"
  shows "watchers_named (listed_names cfg read_file) ks"
proof -
  let ?N = "listed_names cfg read_file"
  let ?load = "kol_index_load (read_file (kol_file_of cfg)) (kw_groups cfg)"
  let ?chan = "\<lambda>on capacity. if on then Some (new_channel capacity) else None"
  let ?start = "kol_watch_start cfg read_file (?chan public 256) (?chan private 256) (?chan live 1024) (Some [])"
  have ks: "ks_index ks = (case ?start of Some (index, _) \<Rightarrow> index | None \<Rightarrow> [])"
    "ks_confirm_index ks = (case ?load of Some index \<Rightarrow> index | None \<Rightarrow> [])"
    "ks_sinks ks = (case ?start of Some (_, s) \<Rightarrow> s
       | None \<Rightarrow> \<lparr>sk_telegram = None, sk_trader = ?chan public 256, sk_private = ?chan private 256,
            sk_live = ?chan live 1024, sk_confirm = Some [], sk_drops = []\<rparr>)"
    using assms by (auto simp: start_watchers_def Let_def split: if_splits)
  have empty: "index_named ?N []" by (simp add: index_named_def)
  have confirm: "index_named ?N (ks_confirm_index ks)"
    using loaded_names [of read_file cfg] empty by (simp add: ks split: option.split)
  have chans: "channel_names (?chan on n) = {}" for on n by simp
  show ?thesis
  proof (cases ?start)
    case None
    then have "sinks_named ?N (ks_sinks ks)" "index_named ?N (ks_index ks)"
      unfolding ks sinks_named_def using chans empty by simp_all
    with confirm show ?thesis by (simp add: watchers_named_def)
  next
    case (Some r)
    obtain index s where r: "r = (index, s)" by (cases r)
    from Some [unfolded r kol_watch_start_def] have load: "?load = Some index"
      and s: "sk_trader s = ?chan public 256" "sk_private s = ?chan private 256" "sk_confirm s = Some []"
      by (auto simp: kol_file_of_def Let_def split: if_splits option.splits)
    have "sinks_named ?N s" unfolding sinks_named_def s using chans by simp
    with load loaded_names [of read_file cfg index] confirm show ?thesis
      by (simp add: watchers_named_def ks(1,3) Some r)
  qed
qed

section \<open>What the whole system guarantees\<close>

definition held_kols :: "paper_trader option \<Rightarrow> string set" where
  "held_kols t = (case t of None \<Rightarrow> {} | Some t \<Rightarrow> pk_kol_name ` dom (pp_book (pt_paper t)))"

definition restored_kols :: "paper_boot \<Rightarrow> string set" where
  "restored_kols b = (case pb_positions b of None \<Rightarrow> {} | Some book \<Rightarrow> pk_kol_name ` dom book)"

lemma held_after: "held_kols (Some (paper_trader_step t e)) \<subseteq> held_kols (Some t) \<union> {kol. \<exists>token. copied_buy (pt_strategy t) kol token e}"
  using trader_step_dom [of _ t e] by (fastforce simp: held_kols_def)

lemma held_consumer: "held_kols (Some (run_consumer pl rd hit t)) \<subseteq> insert (kh_kol_name hit) (held_kols (Some t))"
  using held_after [of t "PaperHit pl rd hit"] by (auto simp: copied_buy_def)

lemma held_sweeper: "held_kols (map_option (run_sweeper pl cls now) t) \<subseteq> held_kols t"
  using held_after [of _ "SweepTick pl cls now"] by (cases t) (auto simp: copied_buy_def)

lemma next_hit_name: "next_hit c = Some hit \<Longrightarrow> kh_kol_name hit \<in> channel_names c"
  by (auto simp: next_hit_def channel_names_def split: option.splits list.splits)

definition watched_by :: "string set \<Rightarrow> kol_system option \<Rightarrow> bool" where
  "watched_by N ko \<longleftrightarrow> (\<forall>ks. ko = Some ks \<longrightarrow> watchers_named N ks)"

lemma deliver_cases:
  obtains "deliver chan name consume (ko, t) = (ko, t)"
  | ks tr hit where "ko = Some ks" "t = Some tr" "next_hit (chan (ks_sinks ks)) = Some hit"
      "deliver chan name consume (ko, t) = (Some (kol_step ks (Received name)), Some (consume hit tr))"
proof (cases "\<exists>ks tr hit. ko = Some ks \<and> t = Some tr \<and> next_hit (chan (ks_sinks ks)) = Some hit")
  case True
  then show ?thesis by (auto intro!: that(2) simp: deliver_def)
qed (auto intro!: that(1) simp: deliver_def split: option.split)

lemma deliver_watched: "watched_by N ko \<Longrightarrow> watched_by N (fst (deliver chan name consume (ko, t)))"
  by (rule deliver_cases [of chan name consume ko t]) (auto simp: watched_by_def intro: kol_step_named simp del: kol_step.simps)

lemma deliver_held:
  assumes "watched_by N ko" and "chan = sk_trader \<or> chan = sk_private" and "held_kols t \<subseteq> N \<union> R"
  shows "held_kols (snd (deliver chan name (run_consumer pl rd) (ko, t))) \<subseteq> N \<union> R"
proof (rule deliver_cases [of chan name "run_consumer pl rd" ko t])
  fix ks tr hit
  assume at: "ko = Some ks" "t = Some tr" "next_hit (chan (ks_sinks ks)) = Some hit"
    "deliver chan name (run_consumer pl rd) (ko, t) = (Some (kol_step ks (Received name)), Some (run_consumer pl rd hit tr))"
  have "kh_kol_name hit \<in> N"
    using next_hit_name [OF at(3)] assms(1,2) at(1) by (auto simp: watched_by_def watchers_named_def sinks_named_def)
  then show ?thesis using held_consumer [of pl rd hit tr] assms(3) at(2,4) by auto
qed (use assms(3) in simp)

definition copies_listed :: "string set \<Rightarrow> string set \<Rightarrow> string set \<Rightarrow> runtime \<Rightarrow> bool" where
  "copies_listed N R R' rt \<longleftrightarrow> watched_by N (rt_kol rt) \<and> held_kols (rt_public rt) \<subseteq> N \<union> R \<and> held_kols (rt_private rt) \<subseteq> N \<union> R'"

lemma copies_listed_step: "copies_listed N R R' rt \<Longrightarrow> copies_listed N R R' (runtime_step rt e)"
proof (cases e)
  case (Watch ke)
  assume "copies_listed N R R' rt"
  then show ?thesis using kol_step_named [of N _ ke]
    by (auto simp: Watch copies_listed_def watched_by_def simp del: kol_step.simps)
qed (auto simp: copies_listed_def split_def Let_def deliver_watched deliver_held dest!: subsetD [OF held_sweeper]
    simp del: kol_step.simps)

interpretation copies: stateful runtime_step "copies_listed N R R'" for N R R'
  by unfold_locales (rule copies_listed_step)

lemma start_held: "start_paper cfg b lb le = t \<Longrightarrow> held_kols t \<subseteq> restored_kols b"
  by (auto simp: start_paper_def held_kols_def restored_kols_def paper_new_def book_new_def Let_def split: if_splits option.splits)

text \<open>
  C15: From the list of wallets to the book. After any interleaving of pending transactions,
  blocks, registry sweeps, deliveries and timeout sweeps, whatever is in the transactions and
  in the blocks and whatever the node, the oracle and the clocks answer, each position of the
  public and of the private paper trader is of a KOL on the list that was loaded (after the
  group filter), or of one with a position restored from that trader's own snapshot.
\<close>

theorem copies_come_from_the_list:
  assumes "run_startup cfg rb = Some rt"
  shows "held_kols (rt_public (foldl runtime_step rt es)) \<subseteq> listed_names (rc_kol_watch cfg) (rb_kols rb) \<union> restored_kols (rb_public rb)
    \<and> held_kols (rt_private (foldl runtime_step rt es)) \<subseteq> listed_names (rc_kol_watch cfg) (rb_kols rb) \<union> restored_kols (rb_private rb)"
proof -
  let ?N = "listed_names (rc_kol_watch cfg) (rb_kols rb)"
  have "watched_by ?N (rt_kol rt)" "held_kols (rt_public rt) \<subseteq> ?N \<union> restored_kols (rb_public rb)"
    "held_kols (rt_private rt) \<subseteq> ?N \<union> restored_kols (rb_private rb)"
    using assms start_watchers_named start_held by (fastforce simp: run_startup_def watched_by_def Let_def split: if_splits)+
  then have "copies_listed ?N (restored_kols (rb_public rb)) (restored_kols (rb_private rb)) rt" by (simp add: copies_listed_def)
  from copies.run_inv [OF this, of es] show ?thesis by (simp add: copies_listed_def)
qed

section \<open>Who can spend\<close>

text \<open>No executor outside the live trader, and a sniper in live mode without positions.\<close>

definition unarmed :: "runtime \<Rightarrow> bool" where
  "unarmed rt \<longleftrightarrow> (\<forall>t. rt_public rt = Some t \<longrightarrow> pt_live t = None) \<and> (\<forall>t. rt_private rt = Some t \<longrightarrow> pt_live t = None)
     \<and> (\<forall>sn. rt_sniper rt = Some sn \<longrightarrow> sn_exec sn = None \<and> (nc_mode (sn_cfg sn) = ''live'' \<longrightarrow> sn_positions sn = Map.empty))"

lemma consumer_unarmed: "pt_live t = None \<Longrightarrow> pt_live (run_consumer pl rd hit t) = None"
  by (simp add: run_consumer_def Let_def split: decision.split)

lemma deliver_unarmed:
  "(\<forall>t. to = Some t \<longrightarrow> pt_live t = None) \<Longrightarrow> snd (deliver chan name (run_consumer pl rd) (ko, to)) = Some t \<Longrightarrow> pt_live t = None"
  by (rule deliver_cases [of chan name "run_consumer pl rd" ko to]) (auto simp: consumer_unarmed)

lemma process_sniper_empty:
  "sn_positions sn = Map.empty \<Longrightarrow> sn_positions (process_sniper_position pf fd trs b token sn) = Map.empty"
  by (rule ext) (simp add: process_sniper_gone)

lemma sniper_unarmed:
  assumes "sn_exec sn = None" and "nc_mode (sn_cfg sn) = ''live'' \<longrightarrow> sn_positions sn = Map.empty"
  shows "sn_exec (sniper_step sn e) = None
    \<and> (nc_mode (sn_cfg (sniper_step sn e)) = ''live'' \<longrightarrow> sn_positions (sniper_step sn e) = Map.empty)"
proof (cases e)
  case (CreationSeen sr fetched lg)
  then show ?thesis using assms
    by (rule_tac handle_log_cases [of sr fetched lg sn]) (auto simp: open_snipe_def)
next
  case (SniperBlock pf fd trs block snapshot)
  let ?P = "\<lambda>s. sn_exec s = None \<and> (nc_mode (sn_cfg s) = ''live'' \<longrightarrow> sn_positions s = Map.empty)"
  have "?P (foldl (\<lambda>sn token. process_sniper_position pf fd trs block token sn) sn snapshot)"
    by (rule sniper_block_induct [where P = ?P]) (use assms process_sniper_empty in auto)
  then show ?thesis using assms SniperBlock by simp
qed (use assms in simp)

lemma unarmed_step: "unarmed rt \<Longrightarrow> unarmed (runtime_step rt e)"
proof (cases e)
  case (SniperRuns se)
  assume "unarmed rt"
  then show ?thesis using sniper_unarmed [of _ se] by (auto simp: SniperRuns unarmed_def simp del: sniper_step.simps)
qed (auto simp: unarmed_def split_def Let_def run_sweeper_def intro: deliver_unarmed)

interpretation unarmed: stateful runtime_step unarmed
  by unfold_locales (rule unarmed_step)

text \<open>
  C16: Only the live trader can spend. As the program is wired, and whatever happens, neither
  paper trader ever has a live executor (their shadow branch never runs) and the sniper never
  has one; so a sniper configured for live mode never even opens a position, although the
  wiring says it can call into the live executor.
\<close>

theorem only_live_trader_spends:
  assumes "run_startup cfg rb = Some rt"
  shows "unarmed (foldl runtime_step rt es)"
proof -
  have "unarmed rt"
    using assms by (auto simp: unarmed_def run_startup_def start_paper_def sniper_start_def Let_def split: if_splits)
  then show ?thesis by (rule unarmed.run_inv)
qed

section \<open>A start\<close>

definition idle_kols :: kol_watch_config where
  "idle_kols = \<lparr>kw_enabled = True, kw_file = [], kw_groups = [], kw_tg_enabled = False, kw_tg_bot_token = [], kw_tg_chat_id = 0\<rparr>"

text \<open>A public paper trader with a position restored, and a sniper in live mode.\<close>

definition example_runner :: runner_config where
  "example_runner = \<lparr>rc_capture_enabled = False, rc_wss = [], rc_ipc = None, rc_trader = example_trader_config,
     rc_trader_private = example_trader_config\<lparr>tr_enabled := False\<rparr>, rc_kol_watch = idle_kols,
     rc_liquidator = \<lparr>lq_enabled = False, lq_protocol = [], lq_rpc_url = [], lq_comptroller = [], lq_poll_interval_secs = 0,
       lq_min_alert_bounty_usd = Fin 0\<rparr>,
     rc_dev_sniper = dev_sniper_section\<lparr>nc_enabled := True, nc_mode := ''live'', nc_trade_size_bnb_wei := ''100''\<rparr>,
     rc_adaptive_trail = undefined, rc_sniper_trail = undefined\<rparr>"

definition example_run_boot :: run_boot where
  "example_run_boot = \<lparr>rb_metrics_ok = True, rb_capture_ok = True,
     rb_public = example_paper_boot\<lparr>pb_positions := Some [example_key \<mapsto> example_position]\<rparr>, rb_private = example_paper_boot,
     rb_live = undefined\<lparr>bo_config := Inl ReadFailed\<rparr>, rb_kols = \<lambda>_. Some [example_kol], rb_devs = \<lambda>_. Some {7},
     rb_url_ok = \<lambda>_. True, rb_path_exists = \<lambda>_. False, rb_home = None\<rparr>"

lemma example_runner_starts:
  obtains rt t sn where "run_startup example_runner example_run_boot = Some rt" "rt_public rt = Some t" "rt_sniper rt = Some sn"
    "pp_book (pt_paper t) = [example_key \<mapsto> example_position]" "nc_mode (sn_cfg sn) = ''live''"
  by (simp add: run_startup_def start_paper_def sniper_start_def example_runner_def example_run_boot_def
      example_trader_config_def example_paper_boot_def dev_sniper_section_def paper_new_def Let_def)

theorem copies_come_from_the_list_witness:
  "\<exists>rt. run_startup example_runner example_run_boot = Some rt
     \<and> held_kols (rt_public (foldl runtime_step rt [Watch (SweepRegistry 5)])) = {''D''}
     \<and> ''D'' \<in> listed_names (rc_kol_watch example_runner) (rb_kols example_run_boot) \<union> restored_kols (rb_public example_run_boot)"
proof -
  obtain rt t sn where s: "run_startup example_runner example_run_boot = Some rt" "rt_public rt = Some t"
    "pp_book (pt_paper t) = [example_key \<mapsto> example_position]"
    by (rule example_runner_starts)
  have "held_kols (rt_public (foldl runtime_step rt [Watch (SweepRegistry 5)])) = {''D''}"
    by (simp add: s held_kols_def example_key_def)
  with copies_come_from_the_list [OF s(1), of "[Watch (SweepRegistry 5)]"] s(1) show ?thesis by auto
qed

theorem only_live_trader_spends_witness:
  "\<exists>rt sn. run_startup example_runner example_run_boot = Some rt \<and> rt_sniper rt = Some sn \<and> nc_mode (sn_cfg sn) = ''live''
     \<and> unarmed (foldl runtime_step rt [SniperRuns (CreationSeen undefined (Some (Some 7))
          \<lparr>cg_tx_hash = Some 1, cg_data = address_word 9, cg_block = Some 2\<rparr>)])"
proof -
  obtain rt t sn where "run_startup example_runner example_run_boot = Some rt" "rt_sniper rt = Some sn"
    "nc_mode (sn_cfg sn) = ''live''"
    by (rule example_runner_starts)
  with only_live_trader_spends show ?thesis by blast
qed

end
