(* ===== verification/Oracles.thy ===== *)
theory Oracles
  imports Tokens Bus PaperExecutor
begin

text \<open>
  The small watchers of \<open>crates/bsc-runner/src\<close> beside the trader: the BNB/USD price with its
  cache (\<open>bnb_price.rs\<close>), the liquidity oracle over the held tokens (\<open>price_oracle.rs\<close>) and the
  flow of foreign transactions on them (\<open>token_flow.rs\<close>). Replies, clock (milliseconds) and the
  accessors of a transaction body are arguments; what is logged is the result.
\<close>

section \<open>The BNB price\<close>

text \<open>A signed 128-bit number in hexadecimal.\<close>

definition parse_i128 :: "string \<Rightarrow> int option" where
  "parse_i128 s =
     (if take 1 s = ''-''
      then (case parse_digits 16 0 (drop 1 s) of
              Some n \<Rightarrow> if drop 1 s \<noteq> [] \<and> n \<le> 2 ^ 127 then Some (- int n) else None
            | None \<Rightarrow> None)
      else map_option int (from_str_radix 16 (2 ^ 127) s))"

definition chainlink_price_of :: "reply \<Rightarrow> f64 option" where
  "chainlink_price_of r = Option.bind (result_str r) (\<lambda>hex.
     case parse_i128 (trim_start_matches ''0x'' hex) of
       None \<Rightarrow> None
     | Some raw \<Rightarrow> if raw \<le> 0 then None else Some (fdiv (f64_of_int raw) (flit (10 ^ 8))))"

definition BNB_TTL :: nat where
  "BNB_TTL = 30000"

type_synonym bnb_cache = "(f64 \<times> nat) option"

text \<open>The first look at the cache; what a finished request leaves and answers.\<close>

definition bnb_fresh :: "nat \<Rightarrow> bnb_cache \<Rightarrow> f64 option" where
  "bnb_fresh now c = (case c of Some (p, t0) \<Rightarrow> if now - t0 < BNB_TTL then Some p else None | None \<Rightarrow> None)"

definition bnb_fetched :: "nat \<Rightarrow> reply \<Rightarrow> bnb_cache \<Rightarrow> f64 option \<times> bnb_cache" where
  "bnb_fetched done_at r c =
     (case chainlink_price_of r of
        Some p \<Rightarrow> (Some p, Some (p, done_at))
      | None \<Rightarrow> (map_option fst c, c))"

definition bnb_get :: "nat \<Rightarrow> nat \<Rightarrow> reply \<Rightarrow> bnb_cache \<Rightarrow> f64 option \<times> bnb_cache" where
  "bnb_get now done_at r c = (case bnb_fresh now c of Some p \<Rightarrow> (Some p, c) | None \<Rightarrow> bnb_fetched done_at r c)"

section \<open>The liquidity oracle\<close>

definition RUG_DROP :: f64 where
  "RUG_DROP = flit (1 / 2)"

definition hex_to_bytes :: "string \<Rightarrow> u8 list option" where
  "hex_to_bytes h =
     (let h = (case strip_prefix ''0x'' h of Some t \<Rightarrow> t | None \<Rightarrow> h)
      in if length h mod 2 \<noteq> 0 then None else hex_run (length h div 2) h)"

definition u128_from :: "string \<Rightarrow> f64" where
  "u128_from hex64 = (case parse_u128 16 (trim_start_matches ''0x'' hex64) of Some v \<Rightarrow> f64_of_word v | None \<Rightarrow> Fin 0)"

definition oracle_addr_arg :: "address \<Rightarrow> string" where
  "oracle_addr_arg a = replicate 24 CHR ''0'' @ hex_encode (be_bytes 20 (unat a))"

text \<open>\<open>Address::from_slice\<close> panics unless the slice has twenty bytes.\<close>

definition address_at_end :: "string \<Rightarrow> address option" where
  "address_at_end h =
     (let bytes = (case hex_to_bytes (drop (length h - 40) h) of Some bs \<Rightarrow> bs | None \<Rightarrow> [])
      in if length bytes = 20 then Some (address_of_bytes bytes) else None)"

definition oracle_call :: "(json \<Rightarrow> reply) \<Rightarrow> string \<Rightarrow> string \<Rightarrow> string option" where
  "oracle_call post to data =
     result_str (post (rpc_request ''eth_call'' [JObj [(''to'', JStr to), (''data'', JStr data)], JStr ''latest'']))"

datatype poll_outcome =
    PollPanic
  | PollSilent
  | PollNoPool
  | PollTick (pt_price: f64) (pt_liquidity: f64) (pt_rug: bool)

definition rug_drop :: "f64 option \<Rightarrow> f64 \<Rightarrow> bool" where
  "rug_drop prev wbnb_res = (case prev of
       None \<Rightarrow> False
     | Some p \<Rightarrow> fle RUG_DROP (if flt (Fin 0) p then fdiv (fsub p wbnb_res) p else Fin 0))"

definition pool_tick :: "address \<Rightarrow> f64 \<Rightarrow> f64 \<Rightarrow> (address \<rightharpoonup> f64) \<Rightarrow> poll_outcome \<times> (address \<rightharpoonup> f64)" where
  "pool_tick token wbnb_res tok_res prev_liq =
     (if feq wbnb_res (Fin 0) \<or> feq tok_res (Fin 0) then (PollSilent, prev_liq)
      else (PollTick (fdiv wbnb_res tok_res) wbnb_res (rug_drop (prev_liq token) wbnb_res), prev_liq(token \<mapsto> wbnb_res)))"

definition poll_one ::
  "(json \<Rightarrow> reply) \<Rightarrow> held_tokens \<Rightarrow> address \<Rightarrow> (address \<rightharpoonup> f64) \<Rightarrow> poll_outcome \<times> (address \<rightharpoonup> f64)" where
  "poll_one post held token prev_liq =
     (if held token = None then (PollSilent, prev_liq)
      else case oracle_call post (addr_text PANCAKE_V2_FACTORY) (''0xe6a43905'' @ oracle_addr_arg WBNB @ oracle_addr_arg token) of
        None \<Rightarrow> (PollSilent, prev_liq)
      | Some h \<Rightarrow>
          if length h < 66 then (PollSilent, prev_liq)
          else case address_at_end h of
            None \<Rightarrow> (PollPanic, prev_liq)
          | Some pair \<Rightarrow>
              if pair = 0 then (PollNoPool, prev_liq)
              else case oracle_call post (addr_text pair) ''0x0dfe1681'' of
                None \<Rightarrow> (PollSilent, prev_liq)
              | Some h0 \<Rightarrow>
                  if length h0 < 66 then (PollSilent, prev_liq)
                  else case address_at_end h0 of
                    None \<Rightarrow> (PollPanic, prev_liq)
                  | Some t0 \<Rightarrow>
                      (case oracle_call post (addr_text pair) ''0x0902f1ac'' of
                         None \<Rightarrow> (PollSilent, prev_liq)
                       | Some res \<Rightarrow>
                           if length res < 2 + 64 * 2 then (PollSilent, prev_liq)
                           else let r0 = u128_from (slice 2 66 res); r1 = u128_from (slice 66 130 res)
                                in pool_tick token (if t0 = WBNB then r0 else r1) (if t0 = WBNB then r1 else r0) prev_liq))"

text \<open>A tick polls the held tokens one after the other; a panic ends the task.\<close>

fun poll_tokens ::
  "(address \<Rightarrow> json \<Rightarrow> reply) \<Rightarrow> held_tokens \<Rightarrow> address list \<Rightarrow> (address \<rightharpoonup> f64) \<Rightarrow> (address \<rightharpoonup> f64) option" where
  "poll_tokens post held [] prev_liq = Some prev_liq"
| "poll_tokens post held (t # ts) prev_liq =
     (case poll_one (post t) held t prev_liq of
        (PollPanic, _) \<Rightarrow> None
      | (_, prev_liq') \<Rightarrow> poll_tokens post held ts prev_liq')"

section \<open>Flow on held tokens\<close>

fun scan_words :: "held_tokens \<Rightarrow> u8 list list \<Rightarrow> address option" where
  "scan_words held [] = None"
| "scan_words held (w # ws) =
     (if addr_like w \<and> held (address_of_bytes (slice 12 32 w)) \<noteq> None
      then Some (address_of_bytes (slice 12 32 w)) else scan_words held ws)"

definition calldata_words :: "u8 list \<Rightarrow> u8 list list" where
  "calldata_words input = words32 (if 4 < length input then drop 4 input else input)"

definition referenced_held :: "held_tokens \<Rightarrow> u8 list \<Rightarrow> u256 \<Rightarrow> (address \<times> side option) option" where
  "referenced_held held input value =
     (let scan = map_option (\<lambda>a. (a, None)) (scan_words held (calldata_words input))
      in case gmgn_decode input value of
           Some (token, s) \<Rightarrow> if held token \<noteq> None then Some (token, Some s) else scan
         | None \<Rightarrow> scan)"

definition flow_bnb :: "u256 \<Rightarrow> f64" where
  "flow_bnb v = fdiv (f64_of_word v) (flit (10 ^ 18))"

record flow_line =
  fw_symbol :: string
  fw_token :: address
  fw_held_kol :: string
  fw_from :: address
  fw_side :: string
  fw_value_bnb :: f64
  fw_tx_hash :: b256

definition process_flow :: "('tx \<Rightarrow> u8 list) \<Rightarrow> ('tx \<Rightarrow> u256) \<Rightarrow> held_tokens \<Rightarrow> 'tx pending_tx \<Rightarrow> flow_line option" where
  "process_flow input value held p =
     (if dom held = {} then None
      else case referenced_held held (input (pt_tx p)) (value (pt_tx p)) of
        None \<Rightarrow> None
      | Some (token, s) \<Rightarrow>
          (case held token of
             None \<Rightarrow> None
           | Some meta \<Rightarrow>
               let bnb = flow_bnb (value (pt_tx p)) in
               Some \<lparr>fw_symbol = hm_symbol meta, fw_token = token, fw_held_kol = hm_kol_name meta,
                 fw_from = pt_from p,
                 fw_side = (case s of Some sd \<Rightarrow> side_str sd | None \<Rightarrow> if flt (Fin 0) bnb then ''BUY?'' else ''?''),
                 fw_value_bnb = bnb, fw_tx_hash = pt_hash p\<rparr>))"

section \<open>The price fails closed\<close>

lemma from_str_radix_bound: "from_str_radix r bound s = Some n \<Longrightarrow> n < bound"
  by (auto simp: from_str_radix_def Let_def split: option.splits if_splits)

lemma parse_i128_bound: "parse_i128 s = Some n \<Longrightarrow> n \<le> 2 ^ 127"
  by (auto simp: parse_i128_def split: option.splits if_splits dest: from_str_radix_bound)

lemma chainlink_price_positive:
  assumes "chainlink_price_of r = Some p"
  obtains q where "p = Fin q" "0 < q"
proof -
  obtain raw x where raw: "0 < raw" "parse_i128 x = Some raw" "p = fdiv (f64_of_int raw) (flit (10 ^ 8))"
    using assms
    by (auto simp: chainlink_price_of_def not_le intro: that split: option.splits if_splits Option.bind_splits)
  note le = parse_i128_bound [OF raw(2)]
  have lit: "flit 100000000 = Fin 100000000" by (simp add: flit_def)
  have "fle (f64_of_int 1) (f64_of_int raw)" "fle (f64_of_int raw) (f64_of_int (2 ^ 127))"
    using raw(1) le by (auto intro: f64_of_int_mono)
  moreover have "f64_of_int 1 = Fin 1" by (simp add: f64_of_int_def)
  moreover have "f64_of_int (2 ^ 127) = Fin (2 ^ 127)"
    unfolding f64_of_int_def using rnd_dyadic [of 1 127] by (simp add: power_int_def)
  ultimately obtain a where a: "f64_of_int raw = Fin a" "1 \<le> a" "a \<le> 2 ^ 127"
    by (cases "f64_of_int raw") auto
  have p: "p = rnd (a / 10 ^ 8)" by (simp add: raw(3) a(1) lit)
  have "(1 :: rat) / 2 ^ 27 \<le> a / 10 ^ 8" using a(2) by simp
  moreover have "a / 10 ^ 8 \<le> 2 ^ 127" using a(3) by simp
  ultimately have "fle (rnd (1 / 2 ^ 27)) p" "fle p (rnd (2 ^ 127))" unfolding p by (simp_all only: rnd_mono)
  moreover have "rnd (1 / 2 ^ 27) = Fin (1 / 2 ^ 27)" using rnd_over_pow2 [of 1 27] by simp
  moreover have "rnd (2 ^ 127) = Fin (2 ^ 127)" using rnd_dyadic [of 1 127] by (simp add: power_int_def)
  ultimately have "\<exists>q. p = Fin q \<and> 0 < q" by (cases p) (auto intro: less_le_trans [of 0 "1 / 2 ^ 27"])
  with that show thesis by blast
qed

text \<open>A call: its time, the end of its request and the reply a request would get.\<close>

fun bnb_step :: "bnb_cache \<Rightarrow> nat \<times> nat \<times> reply \<Rightarrow> bnb_cache" where
  "bnb_step c (now, done_at, r) = snd (bnb_get now done_at r c)"

text \<open>The cache is empty exactly as long as no reply decoded, and holds one that did.\<close>

definition bnb_seen :: "reply set \<Rightarrow> bnb_cache \<Rightarrow> bool" where
  "bnb_seen rs c \<longleftrightarrow> (case c of
       None \<Rightarrow> (\<forall>r \<in> rs. chainlink_price_of r = None)
     | Some (p, t) \<Rightarrow> (\<exists>r \<in> rs. chainlink_price_of r = Some p))"

lemma bnb_get_seen:
  assumes "bnb_seen rs c" and "bnb_get now done_at r c = (res, c')"
  shows "bnb_seen (insert r rs) c' \<and> res = map_option fst c'"
  using assms
  by (auto simp: bnb_seen_def bnb_get_def bnb_fresh_def bnb_fetched_def split: option.splits prod.splits if_splits)

text \<open>The price fails closed. Over any history of calls an answer is a positive finite price that
  some reply gave, and there is none exactly when no reply so far could be read: zero and
  negative answers of the aggregator never pass, a failed request falls back to the last
  price whatever its age.\<close>
lemma bnb_price_fails_closed:
  assumes "bnb_get now done_at r (foldl bnb_step None calls) = (res, c')"
  shows "(res = None) = (\<forall>reply \<in> insert r (snd ` snd ` set calls). chainlink_price_of reply = None)
    \<and> (\<forall>p. res = Some p \<longrightarrow> (\<exists>q. p = Fin q \<and> 0 < q)
        \<and> (\<exists>reply \<in> insert r (snd ` snd ` set calls). chainlink_price_of reply = Some p))"
proof -
  have run: "bnb_seen (rs \<union> snd ` snd ` set calls) (foldl bnb_step c calls)" if "bnb_seen rs c" for rs c
    using that
  proof (induction calls arbitrary: rs c)
    case (Cons e calls)
    obtain now done_at r where e: "e = (now, done_at, r)" by (cases e)
    have "bnb_seen (insert r rs) (bnb_step c e)" using bnb_get_seen [OF Cons.prems] by (simp add: e prod_eq_iff)
    from Cons.IH [OF this] show ?case by (simp add: e insert_commute Un_commute)
  qed simp
  have "bnb_seen (snd ` snd ` set calls) (foldl bnb_step None calls)" using run [of "{}" None] by (simp add: bnb_seen_def)
  from bnb_get_seen [OF this assms] have seen: "bnb_seen (insert r (snd ` snd ` set calls)) c'" "res = map_option fst c'"
    by simp_all
  show ?thesis
  proof (cases c')
    case None
    with seen show ?thesis by (simp add: bnb_seen_def)
  next
    case (Some pt)
    then obtain reply where reply: "reply \<in> insert r (snd ` snd ` set calls)" "chainlink_price_of reply = Some (fst pt)"
      using seen(1) by (auto simp: bnb_seen_def split: prod.splits)
    obtain q where "fst pt = Fin q" "0 < q" using reply(2) by (rule chainlink_price_positive)
    with reply seen(2) Some show ?thesis by (metis option.distinct(1) option.inject option.map(2))
  qed
qed

section \<open>A pulled pool is always flagged\<close>

lemma ulp_exp_double:
  assumes "1 \<le> x"
  shows "ulp_exp (2 * x) = ulp_exp x + 1"
proof -
  have b: "2 powi ilog2 x \<le> x" "x < 2 powi (ilog2 x + 1)" using ilog2_bounds [of x] assms by simp_all
  have "(2 :: rat) powi 0 < 2 powi (ilog2 x + 1)" using b assms by simp
  then have pos: "0 < ilog2 x + 1" by (rule two_powi_less_cancel)
  have "2 powi (ilog2 x + 1) \<le> 2 * x" "2 * x < 2 powi (ilog2 x + 1 + 1)"
    using b by (simp_all add: power_int_add)
  then have "ilog2 (2 * x) = ilog2 x + 1" by (rule ilog2_unique)
  with pos assms show ?thesis by (simp add: ulp_exp_def)
qed

lemma rnd_fin_double:
  assumes "1 \<le> x"
  shows "rnd_fin (2 * x) = 2 * rnd_fin x"
proof -
  have "2 * x / 2 powi (ulp_exp x + 1) = x / 2 powi ulp_exp x" by (simp add: power_int_add)
  then show ?thesis using assms by (simp add: rnd_fin_def ulp_exp_double power_int_add)
qed

lemma rnd_fin_idem:
  assumes "1 \<le> x"
  shows "rnd_fin (rnd_fin x) = rnd_fin x"
proof -
  let ?e = "ulp_exp x" and ?n = "rne (x / 2 powi ulp_exp x)"
  have b: "2 powi ilog2 x \<le> x" "x < 2 powi (ilog2 x + 1)" using ilog2_bounds [of x] assms by simp_all
  have e: "- 1074 \<le> ?e" "ilog2 x - 52 \<le> ?e" using assms by (simp_all add: ulp_exp_def)
  have "(2 :: rat) powi (ilog2 x + 1) \<le> 2 powi (?e + 53)" using e(2) by (intro two_powi_mono) simp
  then have "x < 2 ^ 53 * 2 powi ?e" using b(2) by (simp add: power_int_add mult.commute)
  then have q: "x / 2 powi ?e < 2 ^ 53" by (simp add: divide_less_eq)
  have "of_int ?n \<le> x / 2 powi ?e + 1 / 2" by (rule rne_bounds)
  then have "of_int ?n < (of_int (2 ^ 53 + 1) :: rat)" using q by simp
  then have up: "?n \<le> 2 ^ 53" unfolding of_int_less_iff by simp
  have "0 \<le> rnd_fin x" using assms by (intro rnd_fin_nonneg) simp
  then have low: "0 \<le> ?n" using assms two_powi_pos [of ?e] by (auto simp: rnd_fin_def zero_le_mult_iff not_le [symmetric])
  have r: "rnd_fin x = of_int ?n * 2 powi ?e" using assms by (simp add: rnd_fin_def)
  show ?thesis
  proof (cases "?n = 2 ^ 53")
    case True
    then have "rnd_fin x = of_int (2 ^ 52) * 2 powi (?e + 1)" by (simp add: r power_int_add)
    then show ?thesis using rnd_fin_dyadic [of "2 ^ 52" "?e + 1"] e(1) by simp
  next
    case False
    then show ?thesis unfolding r using up low e(1) by (intro rnd_fin_dyadic) simp_all
  qed
qed

lemma rnd_u128:
  assumes "1 \<le> n" "n \<le> 2 ^ 128"
  shows "f64_of_int n = Fin (rnd_fin (of_int n)) \<and> 1 \<le> rnd_fin (of_int n) \<and> rnd_fin (of_int n) \<le> 2 ^ 128"
proof -
  have "rnd_fin 1 \<le> rnd_fin (of_int n)" "rnd_fin (of_int n) \<le> rnd_fin (of_int (2 ^ 128))"
    using assms by (intro rnd_fin_mono, simp)+
  moreover have "rnd_fin 1 = 1" using rnd_fin_dyadic [of 1 0] by simp
  moreover have "rnd_fin (of_int (2 ^ 128)) = 2 ^ 128" using rnd_fin_dyadic [of 1 128] by (simp add: power_int_def)
  ultimately show ?thesis by (simp add: f64_of_int_def rnd_def Let_def)
qed

lemma halved_pool_flagged:
  assumes "1 \<le> w" and "2 * w \<le> p" and "p \<le> 2 ^ 128"
  shows "rug_drop (Some (f64_of_int p)) (f64_of_int w)"
proof -
  let ?p = "rnd_fin (of_int p)" and ?w = "rnd_fin (of_int w)"
  have P: "f64_of_int p = Fin ?p" "1 \<le> ?p" "?p \<le> 2 ^ 128" and W: "f64_of_int w = Fin ?w" "1 \<le> ?w"
    using rnd_u128 [of p] rnd_u128 [of w] assms by simp_all
  have twice: "2 * ?w = rnd_fin (of_int (2 * w))" using rnd_fin_double [of "of_int w"] assms(1) by simp
  also have "\<dots> \<le> ?p" using assms(2) by (intro rnd_fin_mono) (simp only: of_int_le_iff)
  finally have le2: "2 * ?w \<le> ?p" .
  then have half: "?p / 2 \<le> ?p - ?w" by simp
  have "2 * rnd_fin (?p / 2) = ?p"
  proof (cases "2 \<le> ?p")
    case True
    then show ?thesis using rnd_fin_double [of "?p / 2"] rnd_fin_idem [of "of_int p"] assms by simp
  next
    case False
    with W(2) le2 show ?thesis by simp
  qed
  moreover have "rnd_fin (?p / 2) \<le> rnd_fin (?p - ?w)" using half by (rule rnd_fin_mono)
  ultimately have ge: "?p / 2 \<le> rnd_fin (?p - ?w)" by simp
  have "rnd_fin (?p - ?w) \<le> rnd_fin ?p" using W(2) by (intro rnd_fin_mono) simp
  also have "\<dots> = ?p" using assms by (intro rnd_fin_idem) simp
  finally have le: "rnd_fin (?p - ?w) \<le> ?p" .
  have sub: "fsub (Fin ?p) (Fin ?w) = Fin (rnd_fin (?p - ?w))"
    using ge le P(2,3) by (simp add: fsub_def rnd_def Let_def)
  have "1 / 2 \<le> rnd_fin (?p - ?w) / ?p" using ge P(2) by (simp add: le_divide_eq)
  then have "fle (rnd (1 / 2)) (rnd (rnd_fin (?p - ?w) / ?p))" by (rule rnd_mono)
  then show ?thesis using P(1,2) W(1) sub by (simp add: rug_drop_def RUG_DROP_def flit_def)
qed

text \<open>A node with a pool of the token: what it answers to the three calls of a poll.\<close>

definition pool_node :: "address \<Rightarrow> address \<Rightarrow> nat \<Rightarrow> nat \<Rightarrow> u32 \<Rightarrow> address \<Rightarrow> (json \<Rightarrow> reply) \<Rightarrow> bool" where
  "pool_node pair t0 r0 r1 ts token post \<longleftrightarrow> pair \<noteq> 0
     \<and> oracle_call post (addr_text PANCAKE_V2_FACTORY) (''0xe6a43905'' @ oracle_addr_arg WBNB @ oracle_addr_arg token)
         = Some (''0x'' @ hex_encode (address_word pair))
     \<and> oracle_call post (addr_text pair) ''0x0dfe1681'' = Some (''0x'' @ hex_encode (address_word t0))
     \<and> oracle_call post (addr_text pair) ''0x0902f1ac''
         = Some (''0x'' @ hex_encode (uint_word r0 @ uint_word r1 @ uint_word (unat ts)))"

lemma hex_no_x: "CHR ''x'' \<notin> set (hex_encode bs)"
proof (induction bs)
  case (Cons b bs)
  have "digit_char (unat b div 16) \<noteq> CHR ''x''" "digit_char (unat b mod 16) \<noteq> CHR ''x''"
    using byte_div_mod [of b] by simp_all
  with Cons show ?case unfolding hex_encode_Cons by (metis set_ConsD)
qed (simp add: hex_encode_def)

lemma no_x_no_prefix: "CHR ''x'' \<notin> set s \<Longrightarrow> take (length ''0x'') s \<noteq> ''0x''"
  by (metis in_set_takeD list.set_intros(1) list.set_intros(2))

lemma trim_start_hex [simp]: "trim_start_matches ''0x'' (hex_encode bs) = hex_encode bs"
  using no_x_no_prefix [OF hex_no_x [of bs]] by (subst trim_start_matches.simps) (simp only: if_False simp_thms)

lemma u128_from_word:
  assumes "r < 2 ^ 128"
  shows "u128_from (hex_encode (uint_word r)) = f64_of_int (int r)"
proof -
  have "uint_word r \<noteq> []" using length_uint_word [of r] by fastforce
  then have "parse_u128 16 (hex_encode (uint_word r)) = Some (of_nat r)"
    using assms by (simp add: parse_u128_def from_str_radix_hex be_val_uint_word)
  then show ?thesis using assms by (simp add: u128_from_def f64_of_word_def uint_nat unat_of_nat)
qed

lemma address_at_end_word: "address_at_end (''0x'' @ hex_encode (address_word a)) = Some a"
proof -
  let ?bs = "be_bytes 20 (unat a)"
  have "drop 26 (''0x'' @ hex_encode (address_word a)) = drop (2 * 12) (hex_encode (address_word a))" by simp
  also have "\<dots> = hex_encode ?bs" unfolding drop_hex_encode by (simp add: address_word_def)
  finally have d: "drop 26 (''0x'' @ hex_encode (address_word a)) = hex_encode ?bs" .
  have "strip_prefix ''0x'' (hex_encode ?bs) = None"
    using no_x_no_prefix [OF hex_no_x [of ?bs]] by (simp only: strip_prefix_def if_False)
  moreover have "hex_run 20 (hex_encode ?bs) = Some ?bs" using hex_run_encode [of ?bs "[]"] by simp
  ultimately have "hex_to_bytes (hex_encode ?bs) = Some ?bs" by (simp add: hex_to_bytes_def)
  with d show ?thesis by (simp add: address_at_end_def)
qed

lemma slice_reserves:
  assumes "length a = 64" "length b = 64"
  shows "slice 2 66 (''0x'' @ a @ b @ c) = a" "slice 66 130 (''0x'' @ a @ b @ c) = b"
  using assms by (simp_all add: slice_def)

lemma poll_pool:
  assumes "pool_node pair t0 r0 r1 ts token post" and "held token \<noteq> None" and "r0 < 2 ^ 128" and "r1 < 2 ^ 128"
  shows "poll_one post held token prev_liq =
    pool_tick token (f64_of_int (int (if t0 = WBNB then r0 else r1))) (f64_of_int (int (if t0 = WBNB then r1 else r0))) prev_liq"
proof -
  let ?res = "''0x'' @ hex_encode (uint_word r0 @ uint_word r1 @ uint_word (unat ts))"
  have split: "?res = ''0x'' @ hex_encode (uint_word r0) @ hex_encode (uint_word r1) @ hex_encode (uint_word (unat ts))"
    by (simp only: hex_encode_append)
  have s: "slice 2 66 ?res = hex_encode (uint_word r0)" "slice 66 130 ?res = hex_encode (uint_word r1)"
    unfolding split by (rule slice_reserves; simp)+
  have l: "\<not> length ?res < 2 + 64 * 2" "\<not> length (''0x'' @ hex_encode (address_word a)) < 66" for a by simp_all
  show ?thesis
    using assms(1,2) unfolding poll_one_def pool_node_def
    by (simp only: s l address_at_end_word u128_from_word [OF assms(3)] u128_from_word [OF assms(4)]
        option.case if_False if_True Let_def refl if_distrib [of f64_of_int] if_distrib [of int])
qed

text \<open>A poll: the node's answers, the held tokens at the time and the token.\<close>

fun poll_step :: "(address \<rightharpoonup> f64) \<Rightarrow> (json \<Rightarrow> reply) \<times> held_tokens \<times> address \<Rightarrow> (address \<rightharpoonup> f64)" where
  "poll_step prev (post, held, token) = snd (poll_one post held token prev)"

lemma poll_one_frame: "token' \<noteq> token \<Longrightarrow> snd (poll_one post held token prev) token' = prev token'"
  by (simp add: poll_one_def pool_tick_def Let_def split: option.split)

lemma polls_frame: "token \<notin> (\<lambda>(post, held, token). token) ` set es \<Longrightarrow> foldl poll_step prev es token = prev token"
proof (induction es arbitrary: prev)
  case (Cons e es)
  obtain post held t where e: "e = (post, held, t)" by (cases e)
  have "foldl poll_step (poll_step prev e) es token = poll_step prev e token" using Cons by simp
  then show ?case using Cons.prems by (simp add: e poll_one_frame)
qed simp

lemma f64_of_pos: "0 < n \<Longrightarrow> n < 2 ^ 128 \<Longrightarrow> \<not> feq (f64_of_int (int n)) (Fin 0)"
  using rnd_u128 [of "int n"] by (auto simp: feq_def)


text \<open>A node whose three replies differ by the start of the call data.\<close>

definition example_call_data :: "json \<Rightarrow> string" where
  "example_call_data body = (case jget body ''params'' of
       Some (JArr (x # _)) \<Rightarrow> (case Option.bind (jget x ''data'') as_str of Some d \<Rightarrow> take 10 d | None \<Rightarrow> []) | _ \<Rightarrow> [])"

definition example_pool :: "nat \<Rightarrow> json \<Rightarrow> reply" where
  "example_pool liquidity body =
     (if example_call_data body = ''0xe6a43905'' then result_reply (address_word 5)
      else if example_call_data body = ''0x0dfe1681'' then result_reply (address_word WBNB)
      else result_reply (uint_word liquidity @ uint_word 1000 @ uint_word (unat (0 :: u32))))"

lemma example_pool_node: "pool_node 5 WBNB liquidity 1000 0 token (example_pool liquidity)"
  by (simp add: pool_node_def oracle_call_def example_pool_def example_call_data_def rpc_request_def
      del: hex_encode_append)


section \<open>The flow on held tokens\<close>

lemma scan_words_Some:
  "scan_words held ws = Some a \<Longrightarrow> \<exists>w \<in> set ws. addr_like w \<and> a = address_of_bytes (slice 12 32 w) \<and> held a \<noteq> None"
  by (induction ws) (auto split: if_splits)

lemma scan_words_None:
  "scan_words held ws = None \<Longrightarrow> w \<in> set ws \<Longrightarrow> addr_like w \<Longrightarrow> held (address_of_bytes (slice 12 32 w)) = None"
  by (induction ws) (auto split: if_splits)

text \<open>Flow lines. A line is written exactly for a transaction that refers to a held token: by the
  GMGN decoder, or by an aligned word of the call data that looks like its address. The
  token of the line is held, and a line with a side from the decoder is about the decoded token.\<close>
lemma flow_line_iff_referenced:
  "((process_flow input value held p \<noteq> None)
    = ((\<exists>t s. gmgn_decode (input (pt_tx p)) (value (pt_tx p)) = Some (t, s) \<and> held t \<noteq> None)
       \<or> (\<exists>w \<in> set (calldata_words (input (pt_tx p))). addr_like w \<and> held (address_of_bytes (slice 12 32 w)) \<noteq> None)))
    \<and> (\<forall>l. process_flow input value held p = Some l \<longrightarrow>
      (\<exists>meta. held (fw_token l) = Some meta \<and> fw_held_kol l = hm_kol_name meta \<and> fw_symbol l = hm_symbol meta)
      \<and> fw_from l = pt_from p \<and> fw_tx_hash l = pt_hash p
      \<and> (\<forall>s. gmgn_decode (input (pt_tx p)) (value (pt_tx p)) = Some (fw_token l, s) \<longrightarrow> fw_side l = side_str s))"
proof (rule conjI)
  let ?i = "input (pt_tx p)" and ?v = "value (pt_tx p)"
  let ?g = "\<exists>t s. gmgn_decode ?i ?v = Some (t, s) \<and> held t \<noteq> None"
  let ?w = "\<exists>w \<in> set (calldata_words ?i). addr_like w \<and> held (address_of_bytes (slice 12 32 w)) \<noteq> None"
  have scan: "(scan_words held (calldata_words ?i) \<noteq> None) = ?w"
    using scan_words_Some scan_words_None by (metis option.exhaust)
  have ref: "(referenced_held held ?i ?v \<noteq> None) = (?g \<or> ?w)"
    unfolding scan [symmetric] by (auto simp: referenced_held_def Let_def split: option.splits)
  have held: "held t \<noteq> None" if "referenced_held held ?i ?v = Some (t, s)" for t s
    using that scan_words_Some by (fastforce simp: referenced_held_def Let_def split: option.splits if_splits)
  have "(process_flow input value held p \<noteq> None) = (referenced_held held ?i ?v \<noteq> None)"
    using held by (fastforce simp: process_flow_def Let_def split: option.splits)
  with ref show "(process_flow input value held p \<noteq> None) = (?g \<or> ?w)" by simp
  show "\<forall>l. process_flow input value held p = Some l \<longrightarrow>
      (\<exists>meta. held (fw_token l) = Some meta \<and> fw_held_kol l = hm_kol_name meta \<and> fw_symbol l = hm_symbol meta)
      \<and> fw_from l = pt_from p \<and> fw_tx_hash l = pt_hash p
      \<and> (\<forall>s. gmgn_decode ?i ?v = Some (fw_token l, s) \<longrightarrow> fw_side l = side_str s)"
    by (auto simp: process_flow_def referenced_held_def Let_def split: option.splits if_splits)
qed

definition example_token :: address where
  "example_token = 0x55d398326f99059fF775485246999027B3197955"

definition example_transfer :: "u8 list pending_tx" where
  "example_transfer = \<lparr>pt_hash = 3, pt_from = 8, pt_tx = [1, 2, 3, 4] @ address_word example_token, pt_first_seen_ns = 0,
     pt_source_seen = [], pt_raw = None, pt_block_context = None\<rparr>"

lemma example_transfer_words:
  "calldata_words (pt_tx example_transfer) = [address_word example_token]"
  "address_of_bytes (slice 12 32 (address_word example_token)) = example_token"
  by (simp_all add: calldata_words_def example_transfer_def words32.simps slice_address_word)

lemma example_token_like: "addr_like (address_word example_token)"
proof -
  have "be_bytes 20 (unat example_token) = of_nat (unat example_token div 256 ^ 19 mod 256) # be_bytes 19 (unat example_token)"
    using be_bytes.simps(2) [of 19 "unat example_token"] by simp
  moreover have "unat example_token div 256 ^ 19 mod 256 = 0x55" by (simp add: example_token_def)
  ultimately show ?thesis by (simp add: addr_like_def slice_def address_word_def)
qed

end
