(* ===== verification/Monitors.thy ===== *)
theory Monitors
  imports Wiring Oracles
begin

text \<open>
  The monitors of \<open>wiring.rs\<close> beside the public paper trader: the flow tape (\<open>token_flow.rs\<close>)
  and the liquidity oracle (\<open>price_oracle.rs\<close>) read the held set that the trader keeps, and
  what they report is about its open positions, at every moment of the running whole.
\<close>

section \<open>The held set in the running whole\<close>

lemma trader_held_exact: "held_exact (pt_paper t) \<Longrightarrow> held_exact (pt_paper (paper_trader_step t e))"
proof (cases e)
  case (PaperHit pl rd hit)
  assume h: "held_exact (pt_paper t)"
  let ?d = "paper_decision rd hit t"
  from step_held_exact [OF h, of pl "PaperDecision (pd_enter rd) (pd_exit rd) ?d (kh_calldata hit)"] h
  show ?thesis by (cases ?d) (simp_all add: PaperHit run_consumer_def Let_def)
next
  case (SweepTick pl cls now_ns)
  assume h: "held_exact (pt_paper t)"
  from step_held_exact [OF h, of pl "PaperSweep cls now_ns (pt_hold_ns t)"]
  show ?thesis by (simp add: SweepTick run_sweeper_def)
qed

interpretation paper_trader: stateful paper_trader_step "\<lambda>t. held_exact (pt_paper t)"
  by unfold_locales (rule trader_held_exact)

definition monitored :: "runtime \<Rightarrow> bool" where
  "monitored rt \<longleftrightarrow> (\<forall>t. rt_public rt = Some t \<longrightarrow> held_exact (pt_paper t))"

lemma deliver_held_exact:
  assumes "\<forall>t. tp = Some t \<longrightarrow> held_exact (pt_paper t)"
    and "snd (deliver chan name (run_consumer pl rd) (ko, tp)) = Some t"
  shows "held_exact (pt_paper t)"
proof (rule deliver_cases [of chan name "run_consumer pl rd" ko tp])
  fix ks tr hit
  assume "tp = Some tr" "deliver chan name (run_consumer pl rd) (ko, tp) = (Some (kol_step ks (Received name)), Some (run_consumer pl rd hit tr))"
  then show ?thesis using assms trader_held_exact [of tr "PaperHit pl rd hit"] by simp
qed (use assms in simp)

lemma monitored_step: "monitored rt \<Longrightarrow> monitored (runtime_step rt e)"
proof (cases e)
  case (SweepPublic pl cls now_ns)
  assume "monitored rt"
  then show ?thesis using trader_held_exact [of _ "SweepTick pl cls now_ns"] by (auto simp: SweepPublic monitored_def)
qed (auto simp: monitored_def split_def Let_def intro: deliver_held_exact)

interpretation monitors: stateful runtime_step monitored
  by unfold_locales (rule monitored_step)

section \<open>The flow tape follows the book\<close>

text \<open>What a trader restores at the start: a consistent book, all of whose keys the map yields.\<close>

definition restores_well :: "paper_boot \<Rightarrow> bool" where
  "restores_well b \<longleftrightarrow> (case pb_positions b of None \<Rightarrow> True
     | Some book \<Rightarrow> book_inv book \<and> set (pb_order b (dom book)) = dom book)"

lemma start_held_exact: "start_paper cfg b lb le = Some t \<Longrightarrow> restores_well b \<Longrightarrow> held_exact (pt_paper t)"
proof -
  assume start: "start_paper cfg b lb le = Some t" and well: "restores_well b"
  from start have p: "pt_paper t = paper_new (pb_order b) (pb_positions b) (budgets_of cfg b) (costs_of cfg) (tr_archive_rpc_url cfg \<noteq> [])"
    by (auto simp: start_paper_def split: if_splits)
  have empty: "foldl (\<lambda>h k. h) h ks = h" for h :: held_tokens and ks :: "position_key list" by (induction ks) simp_all
  show ?thesis
  proof (cases "pb_positions b")
    case None
    then show ?thesis
      by (simp add: p paper_new_def Let_def held_exact_def book_new_def book_inv_def rehydrate_def empty)
  next
    case (Some book)
    then show ?thesis using well rehydrate_dom [of book "pb_order b"]
      by (simp add: p paper_new_def Let_def held_exact_def restores_well_def)
  qed
qed

text \<open>A transaction mentions a token: by the router decoder or by a word of its call data.\<close>

definition mentions :: "u8 list \<Rightarrow> u256 \<Rightarrow> address \<Rightarrow> bool" where
  "mentions input value token \<longleftrightarrow> (\<exists>s. gmgn_decode input value = Some (token, s))
     \<or> (\<exists>w \<in> set (calldata_words input). addr_like w \<and> address_of_bytes (slice 12 32 w) = token)"


text \<open>A restored position and a transfer of its token.\<close>

definition restored_key :: position_key where
  "restored_key = \<lparr>pk_portfolio = FastTip, pk_kol_name = ''D'', pk_token = example_token\<rparr>"

definition restored_boot :: run_boot where
  "restored_boot = example_run_boot\<lparr>rb_public := example_paper_boot
     \<lparr>pb_positions := Some [restored_key \<mapsto> example_position\<lparr>op_token_address := example_token\<rparr>],
      pb_order := \<lambda>_. [restored_key]\<rparr>\<rparr>"


end
