(* ===== verification/Multicall.thy ===== *)
theory Multicall
  imports Dex
begin

text \<open>
  The batching helper of \<open>crates/bsc-dex/src/multicall.rs\<close>: the calldata it composes for the
  Multicall3 contract, how it reads the answer, and what the contract's ABI makes of both.
\<close>

section \<open>Encoding\<close>

record mc_call =
  mc_target :: address
  mc_allow_failure :: bool
  mc_call_data :: "u8 list"

record mc_result =
  mr_success :: bool
  mr_return_data :: "u8 list"

text \<open>A slice out of range panics, which aborts the process; it is kept as an outcome.\<close>

datatype multicall_error = McHttp | McRpc | McShort | McPanic

definition MULTICALL3 :: address where
  "MULTICALL3 = 0xcA11bde05977b3631167028862bE2a173976CA11"

definition AGGREGATE3 :: "u8 list" where
  "AGGREGATE3 = [0x82, 0xad, 0x56, 0xcb]"

definition bool_word :: "bool \<Rightarrow> u8 list" where
  "bool_word b = replicate 31 0 @ [of_bool b]"

definition padded :: "u8 list \<Rightarrow> u8 list" where
  "padded bs = bs @ replicate ((32 - length bs mod 32) mod 32) 0"

definition encode_call :: "mc_call \<Rightarrow> u8 list" where
  "encode_call c = address_word (mc_target c) @ bool_word (mc_allow_failure c) @ uint_word 96
     @ uint_word (length (mc_call_data c)) @ padded (mc_call_data c)"

definition encode_aggregate3 :: "mc_call list \<Rightarrow> u8 list" where
  "encode_aggregate3 calls =
     AGGREGATE3 @ uint_word 32 @ uint_word (length calls) @ concat (map encode_call calls)"

section \<open>Decoding\<close>

text \<open>A 256-bit length or offset as \<open>usize\<close>: what does not fit counts as zero.\<close>

definition usize_or_zero :: "nat \<Rightarrow> u64" where
  "usize_or_zero n = (if n < 2 ^ 64 then of_nat n else 0)"

text \<open>Offsets wrap; the slice from \<open>a\<close> to \<open>b\<close> panics unless it is ordered and in range.\<close>

definition in_slice :: "u64 \<Rightarrow> u64 \<Rightarrow> u8 list \<Rightarrow> bool" where
  "in_slice a b raw \<longleftrightarrow> unat a \<le> unat b \<and> unat b \<le> length raw"

definition decode_result :: "u8 list \<Rightarrow> nat \<Rightarrow> multicall_error + mc_result" where
  "decode_result raw i =
     (let head = slice (64 + i * 64) (64 + (i + 1) * 64) raw;
          success = (head ! 31 \<noteq> 0);
          offset = be_val (slice 32 64 head);
          abs_tail = 64 + of_nat i * 64 + usize_or_zero offset :: u64
      in if length raw < unat (abs_tail + 32) then Inl McShort
         else if \<not> in_slice abs_tail (abs_tail + 32) raw then Inl McPanic
         else let bytes_len = be_val (slice (unat abs_tail) (unat (abs_tail + 32)) raw);
                  blen = usize_or_zero bytes_len
              in if length raw < unat (abs_tail + 32 + blen) then Inl McShort
                 else if \<not> in_slice (abs_tail + 32) (abs_tail + 32 + blen) raw then Inl McPanic
                 else Inr \<lparr>mr_success = success,
                           mr_return_data = slice (unat (abs_tail + 32)) (unat (abs_tail + 32 + blen)) raw\<rparr>)"

fun decode_results :: "u8 list \<Rightarrow> nat list \<Rightarrow> multicall_error + mc_result list" where
  "decode_results raw [] = Inr []"
| "decode_results raw (i # is) =
     (case decode_result raw i of
        Inl e \<Rightarrow> Inl e
      | Inr r \<Rightarrow> (case decode_results raw is of Inl e \<Rightarrow> Inl e | Inr rs \<Rightarrow> Inr (r # rs)))"

definition decode_aggregate3_results :: "u8 list \<Rightarrow> nat \<Rightarrow> multicall_error + mc_result list" where
  "decode_aggregate3_results raw n =
     (if length raw < 64 then Inl McShort
      else if be_val (slice 32 64 raw) \<noteq> n then Inl McRpc
      else if length raw < 64 + n * 64 then Inl McShort
      else decode_results raw [0..<n])"

definition mc_eth_call :: "http \<Rightarrow> address \<Rightarrow> u8 list \<Rightarrow> u64 option \<Rightarrow> multicall_error + u8 list" where
  "mc_eth_call post to data block =
     (let (ok, resp) = post (eth_call_body to data block) in
      case reply_json resp of
        None \<Rightarrow> Inl McHttp
      | Some json \<Rightarrow>
          if \<not> ok then Inl McRpc
          else if jget json ''error'' \<noteq> None then Inl McRpc
          else (case Option.bind (jget json ''result'') as_str of
                  None \<Rightarrow> Inl McRpc
                | Some result \<Rightarrow>
                    let stripped = (case strip_prefix ''0x'' result of Some t \<Rightarrow> t | None \<Rightarrow> result) in
                    (case hex_decode stripped of None \<Rightarrow> Inl McRpc | Some bytes \<Rightarrow> Inr bytes)))"

definition aggregate3 :: "http \<Rightarrow> mc_call list \<Rightarrow> u64 option \<Rightarrow> multicall_error + mc_result list" where
  "aggregate3 post calls block =
     (case mc_eth_call post MULTICALL3 (encode_aggregate3 calls) block of
        Inl e \<Rightarrow> Inl e
      | Inr raw \<Rightarrow> decode_aggregate3_results raw (length calls))"

section \<open>The contract\<close>

text \<open>
  The ABI of \<open>(address, bool, bytes)[]\<close>: after the length comes one offset per element,
  counted from the end of the length word, and each element is its three-word head and its
  data. A word that points outside the data makes the contract revert.
\<close>

definition abi_bytes :: "u8 list \<Rightarrow> nat \<Rightarrow> u8 list option" where
  "abi_bytes args p =
     (if length args < p + 32 \<or> length args < p + 32 + word_at p args then None
      else Some (slice (p + 32) (p + 32 + word_at p args) args))"

definition abi_call :: "u8 list \<Rightarrow> nat \<Rightarrow> mc_call option" where
  "abi_call args p =
     (if length args < p + 96 then None
      else map_option (\<lambda>data. \<lparr>mc_target = of_nat (word_at p args), mc_allow_failure = word_at (p + 32) args \<noteq> 0,
             mc_call_data = data\<rparr>) (abi_bytes args (p + word_at (p + 64) args)))"

fun abi_elements :: "u8 list \<Rightarrow> nat \<Rightarrow> nat \<Rightarrow> nat \<Rightarrow> mc_call list option" where
  "abi_elements args base i 0 = Some []"
| "abi_elements args base i (Suc n) =
     (if length args < base + 32 * i + 32 then None
      else Option.bind (abi_call args (base + word_at (base + 32 * i) args)) (\<lambda>c.
             map_option (\<lambda>cs. c # cs) (abi_elements args base (Suc i) n)))"

definition abi_calls :: "u8 list \<Rightarrow> mc_call list option" where
  "abi_calls calldata =
     (let args = drop 4 calldata; off = word_at 0 args in
      if take 4 calldata \<noteq> AGGREGATE3 \<or> length args < 32 \<or> length args < off + 32 then None
      else abi_elements args (off + 32) 0 (word_at off args))"

text \<open>One result of the contract, as its ABI lays it out.\<close>

definition abi_one_result :: "bool \<Rightarrow> u8 list \<Rightarrow> u8 list" where
  "abi_one_result success data = uint_word 32 @ uint_word 1 @ uint_word 32 @ bool_word success @ uint_word 64
     @ uint_word (length data) @ padded data"

definition multicall3 ::
  "(string \<Rightarrow> mc_call list \<Rightarrow> u8 list option) \<Rightarrow> string \<Rightarrow> string \<Rightarrow> u8 list \<Rightarrow> u8 list option" where
  "multicall3 run tag to data =
     (if to \<noteq> addr_text MULTICALL3 then None else Option.bind (abi_calls data) (run tag))"

section \<open>The calldata is not what the contract reads\<close>

lemma length_bool_word [simp]: "length (bool_word b) = 32"
  by (simp add: bool_word_def)

lemma be_val_bool_word [simp]: "be_val (bool_word b) = of_bool b"
  by (simp add: bool_word_def be_val_append) (simp add: be_val_def)

lemma bool_word_False: "bool_word False = replicate 32 0"
  using replicate_Suc [of 31 "0 :: u8"] by (simp add: bool_word_def replicate_append_same)

lemma be_bytes_snoc: "be_bytes (Suc n) v = be_bytes n (v div 256) @ [of_nat (v mod 256)]"
  by (induction n arbitrary: v) (simp_all add: div_mult2_eq [symmetric] mult.commute)

lemma uint_word_snoc: "uint_word v = be_bytes 31 (v div 256) @ [of_nat (v mod 256)]"
  using be_bytes_snoc [of 31 v] by (simp add: uint_word_def)

lemma be_bytes_zeros: "be_bytes n 0 = replicate n 0"
  by (induction n) simp_all

lemma abi_calls_rejects:
  assumes "calls \<noteq> []" and "length calls < 2 ^ 256"
    and "length (encode_aggregate3 calls) \<le> unat (mc_target (hd calls))"
  shows "abi_calls (encode_aggregate3 calls) = None"
proof -
  obtain c cs where calls: "calls = c # cs" using assms(1) by (cases calls) auto
  define rest where "rest = bool_word (mc_allow_failure c) @ uint_word 96 @ uint_word (length (mc_call_data c))
    @ padded (mc_call_data c) @ concat (map encode_call cs)"
  have args: "drop 4 (encode_aggregate3 calls)
      = uint_word 32 @ uint_word (length calls) @ address_word (mc_target c) @ rest"
    by (simp add: encode_aggregate3_def AGGREGATE3_def calls encode_call_def rest_def)
  let ?args = "uint_word 32 @ uint_word (length calls) @ address_word (mc_target c) @ rest"
  have off: "word_at 0 ?args = 32" by (simp add: be_val_uint_word)
  have n: "word_at 32 ?args = length calls" using assms(2) by (simp add: word_at_skip be_val_uint_word)
  have p: "word_at 64 ?args = unat (mc_target c)" by (simp add: word_at_skip)
  have "length ?args \<le> unat (mc_target c)"
    using assms(3) args [symmetric] by (simp add: calls)
  then have "abi_call ?args (64 + word_at 64 ?args) = None"
    unfolding abi_call_def p by simp
  then have "abi_elements ?args 64 0 (Suc (length cs)) = None"
    by simp
  then show ?thesis
    unfolding abi_calls_def Let_def args off n by (simp add: calls del: abi_elements.simps)
qed

text \<open>With the missing offset word the contract would read the call back.\<close>

lemma abi_calls_with_offset:
  assumes "length (mc_call_data c) < 2 ^ 255"
  shows "abi_calls (AGGREGATE3 @ uint_word 32 @ uint_word 1 @ uint_word 32 @ encode_call c) = Some [c]"
proof -
  let ?d = "mc_call_data c"
  define body where "body = address_word (mc_target c) @ bool_word (mc_allow_failure c) @ uint_word 96
     @ uint_word (length ?d) @ padded ?d"
  define args where "args = uint_word 32 @ uint_word 1 @ uint_word 32 @ body"
  have w: "word_at 0 args = 32" "word_at 32 args = 1" "word_at 64 args = 32"
    "word_at 96 args = unat (mc_target c)" "word_at 128 args = of_bool (mc_allow_failure c)"
    "word_at 160 args = 96" "word_at 192 args = length ?d"
    using assms
    by (simp_all add: args_def body_def word_at_skip be_val_uint_word)
  have data: "slice 224 (224 + length ?d) args = ?d"
    by (simp add: args_def body_def slice_skip padded_def) (simp add: slice_def)
  have len: "224 + length ?d \<le> length args" by (simp add: args_def body_def padded_def)
  have "abi_call args 96 = Some c"
    using len data by (simp add: abi_call_def abi_bytes_def w)
  then have "abi_elements args 64 0 1 = Some [c]" using len by (simp add: w)
  moreover have "drop 4 (AGGREGATE3 @ args) = args" by (simp add: AGGREGATE3_def)
  ultimately have "abi_calls (AGGREGATE3 @ args) = Some [c]"
    using len by (simp add: abi_calls_def Let_def w AGGREGATE3_def del: abi_elements.simps)
  then show ?thesis by (simp add: encode_call_def args_def body_def)
qed

text \<open>
  C34: The batching helper does not speak the ABI of the contract: the array of the dynamic
  tuples \<open>(address, bool, bytes)\<close> needs one offset word per element, which
  \<open>encode_aggregate3\<close> leaves out. A contract that decodes its calldata as the ABI says
  reads the address of the first target as an offset, and reverts as soon as that address is
  not smaller than the calldata is long, as every real address is. So every batch of at least
  one call fails, whatever the contract would compute and whatever block is asked.
\<close>

theorem aggregate3_always_fails:
  assumes "calls \<noteq> []" and "length calls < 2 ^ 256"
    and "length (encode_aggregate3 calls) \<le> unat (mc_target (hd calls))"
  shows "aggregate3 (node (multicall3 run)) calls block = Inl McRpc"
  using abi_calls_rejects [OF assms]
  by (simp add: aggregate3_def mc_eth_call_def node_eth_call multicall3_def)

theorem aggregate3_always_fails_witness:
  "aggregate3 (node (multicall3 (\<lambda>tag calls. Some (abi_one_result True []))))
     [\<lparr>mc_target = PANCAKE_V2_FACTORY, mc_allow_failure = True, mc_call_data = [0xde, 0xad, 0xbe, 0xef]\<rparr>] None
   = Inl McRpc"
  by (rule aggregate3_always_fails)
    (simp_all add: encode_aggregate3_def AGGREGATE3_def encode_call_def padded_def PANCAKE_V2_FACTORY_def)

section \<open>The answer is misread\<close>

text \<open>
  The decoder leaves the offset words out as well: it takes the offset for the success flag
  and the success flag for the offset. A failed call comes back as a success with a zero
  word for data; a successful one fails to decode unless its data is longer than 8 kB.
\<close>

lemma failed_result_reads_as_success:
  "decode_aggregate3_results (abi_one_result False data) 1
    = Inr [\<lparr>mr_success = True, mr_return_data = replicate 32 0\<rparr>]"
proof -
  let ?raw = "abi_one_result False data"
  have len: "192 \<le> length ?raw" by (simp add: abi_one_result_def padded_def)
  have head: "slice 64 128 ?raw = uint_word 32 @ bool_word False"
    by (simp add: abi_one_result_def slice_skip) (simp add: slice_def)
  have s: "(uint_word 32 @ bool_word False) ! 31 = 32"
    by (simp add: uint_word_snoc nth_append)
  have o: "be_val (slice 32 64 (uint_word 32 @ bool_word False)) = 0"
    by (simp add: slice_def)
  have l: "slice 64 96 ?raw = uint_word 32" "slice 96 128 ?raw = replicate 32 0" "slice 32 64 ?raw = uint_word 1"
    by (simp_all add: abi_one_result_def slice_skip) (simp_all add: slice_def bool_word_False)
  have "decode_result ?raw 0 = Inr \<lparr>mr_success = True, mr_return_data = replicate 32 0\<rparr>"
    using len by (simp add: decode_result_def Let_def head s o l be_val_uint_word usize_or_zero_def in_slice_def)
  then show ?thesis
    using len by (simp add: decode_aggregate3_results_def l be_val_uint_word)
qed

lemma successful_result_is_short:
  assumes "length data < 8000"
  shows "decode_aggregate3_results (abi_one_result True data) 1 = Inl McShort"
proof -
  let ?raw = "abi_one_result True data"
  have pad: "(32 - length data mod 32) mod 32 < 32" by simp
  have len: "192 \<le> length ?raw" "length ?raw < 8224"
    using assms pad by (simp_all add: abi_one_result_def padded_def)
  have head: "slice 64 128 ?raw = uint_word 32 @ bool_word True"
    by (simp add: abi_one_result_def slice_skip) (simp add: slice_def)
  have o: "be_val (slice 32 64 (uint_word 32 @ bool_word True)) = 1"
    by (simp add: slice_def)
  have w: "slice 32 64 ?raw = uint_word 1" by (simp add: abi_one_result_def slice_skip) (simp add: slice_def)
  have w32: "uint_word 32 = replicate 31 0 @ [32]"
    using be_bytes_zeros [of 31] by (simp add: uint_word_snoc)
  have "slice 65 97 ?raw = (replicate 30 0 @ [32]) @ [0]"
    by (simp add: abi_one_result_def slice_skip) (simp add: slice_def w32 bool_word_def drop_Cons')
  then have l: "be_val (slice 65 97 ?raw) = 8192"
    by (simp add: be_val_append) (simp add: be_val_def)
  have "decode_result ?raw 0 = Inl McShort"
    using len by (simp add: decode_result_def Let_def head o l usize_or_zero_def in_slice_def)
  then show ?thesis
    using len by (simp add: decode_aggregate3_results_def w be_val_uint_word)
qed

end
