(* ===== verification/PaperLedger.thy ===== *)
theory PaperLedger
  imports PaperSafety LiveLedger
begin

text \<open>
  \<open>crates/bsc-runner/src/trader/ledger.rs\<close>: the CSV row of a closed trade and the snapshot
  of the open positions. The JSON of the snapshot is serde's and read back as written; the
  text of a floating-point number with a given number of decimals is Rust's, an argument.
\<close>

section \<open>Rows\<close>

definition PAPER_CSV_HEADER :: string where
  "PAPER_CSV_HEADER = ''ts_unix_ns,portfolio,kol_name,token_address,token_symbol,'' @
     ''bnb_in_wei,bnb_out_wei,pnl_wei,pnl_bnb,pnl_usd,pnl_pct,d_mcap_usd,our_entry_mcap_usd,'' @
     ''bnb_usd_close,opened_at_block,closed_at_block,'' @
     ''held_secs,buy_tx_count,close_reason,trigger_sell_tx,'' @
     ''kol_exit_count,kol_exit_mcap_first_usd,kol_exit_mcap_last_usd,our_avg_exit_mcap_usd'' @ [CHR 0x0A]"

definition show_int :: "int \<Rightarrow> string" where
  "show_int k = (if k < 0 then CHR ''-'' # show_nat (nat (- k)) else show_nat (nat k))"

text \<open>The columns before and after the symbol that need no quoting.\<close>

definition trade_columns :: "(nat \<Rightarrow> f64 \<Rightarrow> string) \<Rightarrow> closed_trade \<Rightarrow> string list" where
  "trade_columns show_f64 t =
     (let trigger = (case ct_trigger_sell_tx t of Some h \<Rightarrow> hash_text h | None \<Rightarrow> []);
          pnl_bnb = fdiv (f64_of_int (sint (ct_pnl_wei t))) (flit (10 ^ 18));
          pnl_usd = fmul pnl_bnb (ct_bnb_usd_at_close t)
      in [show_nat (unat (ct_bnb_in_wei t)), show_nat (unat (ct_bnb_out_wei t)), show_int (sint (ct_pnl_wei t)),
          show_f64 6 pnl_bnb, show_f64 2 pnl_usd, show_f64 6 (ct_pnl_pct t), show_f64 0 (ct_d_mcap_usd t),
          show_f64 0 (ct_our_entry_mcap_usd t), show_f64 2 (ct_bnb_usd_at_close t),
          show_nat (unat (ct_opened_at_block t)), show_nat (unat (ct_closed_at_block t)),
          show_nat (unat (ct_held_secs t)), show_nat (ct_buy_tx_count t), close_label (ct_close_reason t), trigger,
          show_nat (unat (ct_kol_exit_count t)), show_f64 0 (ct_kol_exit_mcap_first_usd t),
          show_f64 0 (ct_kol_exit_mcap_last_usd t), show_f64 0 (ct_our_avg_exit_mcap_usd t)])"

definition format_csv_row :: "(nat \<Rightarrow> f64 \<Rightarrow> string) \<Rightarrow> closed_trade \<Rightarrow> string" where
  "format_csv_row show_f64 t = join_fields
     ([show_nat (unat (ct_opened_at_unix_ns t)), portfolio_label (ct_portfolio t), csv_escape (ct_kol_name t),
       addr_text (ct_token_address t), csv_escape (ct_token_symbol t)] @ trade_columns show_f64 t) @ [CHR 0x0A]"

text \<open>The file: created with the header when missing, then one row per trade.\<close>

definition paper_ledger_new :: "string option \<Rightarrow> string" where
  "paper_ledger_new existing = (case existing of None \<Rightarrow> PAPER_CSV_HEADER | Some s \<Rightarrow> s)"

definition append_trade :: "(nat \<Rightarrow> f64 \<Rightarrow> string) \<Rightarrow> closed_trade \<Rightarrow> string \<Rightarrow> string" where
  "append_trade show_f64 t s = s @ format_csv_row show_f64 t"

section \<open>The snapshot\<close>

datatype positions_file = PositionsMissing | PositionsEmpty | PositionsUnparsable | PositionsParsed "open_position list"

text \<open>Restoring plants each position with \<open>open_or_add\<close>; \<open>now p\<close> is the clock at its insertion.\<close>

definition restore_fill :: "open_position \<Rightarrow> fill" where
  "restore_fill p = \<lparr>fl_portfolio = op_portfolio p, fl_kol_name = op_kol_name p, fl_token = op_token_address p,
     fl_symbol = op_token_symbol p, fl_decimals = op_token_decimals p, fl_bnb_in = op_bnb_in p,
     fl_tokens_in = op_tokens_held p, fl_block = op_opened_at_block p,
     fl_tx = (case op_buy_tx_hashes p of [] \<Rightarrow> 0 | h # _ \<Rightarrow> h)\<rparr>"

definition load_book :: "(open_position \<Rightarrow> u64) \<Rightarrow> positions_file \<Rightarrow> position_book option" where
  "load_book now f =
     (case f of
        PositionsMissing \<Rightarrow> Some book_new
      | PositionsEmpty \<Rightarrow> Some book_new
      | PositionsUnparsable \<Rightarrow> None
      | PositionsParsed ps \<Rightarrow> Some (foldl (\<lambda>b p. open_or_add (now p) b (restore_fill p)) book_new ps))"

section \<open>Reading a row\<close>

text \<open>The reference reader: fields up to the newline, quoted or not.\<close>

function read_row :: "string \<Rightarrow> (string list \<times> string) option" where
  "read_row s =
     (case read_field s of
        None \<Rightarrow> None
      | Some (x, rest) \<Rightarrow>
          (case rest of
             [] \<Rightarrow> None
           | c # cs \<Rightarrow>
               if c = CHR 0x0A then Some ([x], cs)
               else if length cs < length s then map_option (\<lambda>(xs, r). (x # xs, r)) (read_row cs) else None))"
  by pat_completeness auto
termination by (relation "measure length") auto

declare read_row.simps [simp del]

lemma read_row_last: "read_field (x' @ [CHR 0x0A] @ r) = Some (x, [CHR 0x0A] @ r) \<Longrightarrow> read_row (x' @ [CHR 0x0A] @ r) = Some ([x], r)"
  by (subst read_row.simps) simp

lemma read_row_more:
  assumes "read_field (x' @ CHR '','' # s) = Some (x, CHR '','' # s)" and "read_row s = Some (xs, r)"
  shows "read_row (x' @ CHR '','' # s) = Some (x # xs, r)"
  using assms by (subst read_row.simps) simp

text \<open>A field written so that it is read back: escaped, or plain.\<close>

definition writes :: "string \<Rightarrow> string \<Rightarrow> bool" where
  "writes x' x \<longleftrightarrow> (\<forall>sep rest. sep = CHR '','' \<or> sep = CHR 0x0A \<longrightarrow> read_field (x' @ sep # rest) = Some (x, sep # rest))"

definition plain :: "string \<Rightarrow> bool" where
  "plain s \<longleftrightarrow> CHR '','' \<notin> set s \<and> CHR 0x22 \<notin> set s \<and> CHR 0x0A \<notin> set s"

lemma writes_escaped: "writes (csv_escape s) s"
  by (auto simp: writes_def csv_escape_roundtrip)

lemma writes_plain: "plain s \<Longrightarrow> writes s s"
  using writes_escaped [of s] by (simp add: plain_def csv_escape_def)

lemma join_reads_back:
  assumes "xs' \<noteq> []" and "list_all2 writes xs' xs"
  shows "read_row (join_fields xs' @ [CHR 0x0A]) = Some (xs, [])"
  using assms(2,1)
proof (induction rule: list_all2_induct)
  case (Cons x' xs' x xs)
  show ?case
  proof (cases xs')
    case Nil
    with Cons have "xs = []" by simp
    with Nil Cons(1) show ?thesis using read_row_last [of x' "[]" x] by (simp add: writes_def)
  next
    case (Cons y ys)
    have "read_field (x' @ CHR '','' # join_fields xs' @ [CHR 0x0A]) = Some (x, CHR '','' # join_fields xs' @ [CHR 0x0A])"
      using \<open>writes x' x\<close> by (simp add: writes_def)
    moreover have "read_row (join_fields xs' @ [CHR 0x0A]) = Some (xs, [])" using Cons.IH Cons by simp
    ultimately show ?thesis using Cons read_row_more [of x' "join_fields xs' @ [CHR 0x0A]" x xs "[]"] by simp
  qed
qed simp

lemma plain_digits:
  assumes "\<forall>c \<in> set s. \<exists>k < 16. c = digit_char k"
  shows "plain s"
proof -
  have "digit_val CHR '','' = None" "digit_val CHR 0x22 = None" "digit_val CHR 0x0A = None"
    by (simp_all add: digit_val_def)
  moreover have "\<forall>c \<in> set s. digit_val c \<noteq> None" using assms digit_val_digit by fastforce
  ultimately show ?thesis unfolding plain_def by metis
qed

lemma plain_field_nat: "plain (show_nat n)"
proof (rule plain_digits, rule ballI)
  fix c assume "c \<in> set (show_nat n)"
  then obtain k where "k < 10" "c = digit_char k" using show_nat_chars by blast
  then show "\<exists>k < 16. c = digit_char k" by (intro exI [of _ k]) simp
qed

lemma plain_append: "plain (xs @ ys) \<longleftrightarrow> plain xs \<and> plain ys"
  by (auto simp: plain_def)

lemma plain_hex: "plain (hex_encode bs)"
proof (rule plain_digits, rule ballI)
  fix c assume "c \<in> set (hex_encode bs)"
  then obtain b where b: "c = digit_char (unat b div 16) \<or> c = digit_char (unat (b :: u8) mod 16)"
    by (auto simp: hex_encode_def hex_byte_def)
  have "unat b < 256" using unsigned_less [of b] by simp
  then have "unat b div 16 < 16" "unat b mod 16 < 16" by simp_all
  with b show "\<exists>k < 16. c = digit_char k" by blast
qed

lemma plain_0x: "plain (CHR ''0'' # CHR ''x'' # s) \<longleftrightarrow> plain s"
  by (simp add: plain_def)

lemma plain_show_int: "plain (show_int k)"
  using plain_field_nat [of "nat k"] plain_field_nat [of "nat (- k)"] by (auto simp: show_int_def plain_def)

lemma plain_labels: "plain (portfolio_label m)" "plain (close_label r)" "plain []"
  subgoal by (cases m) (simp_all add: plain_def)
  subgoal by (cases r) (simp_all add: plain_def)
  subgoal by (simp add: plain_def)
  done

lemma plain_columns [simp]:
  "plain (show_nat n)" "plain (show_int k)" "plain (addr_text a)" "plain (hash_text h)"
  "plain (portfolio_label m)" "plain (close_label r)" "plain []"
  by (simp_all add: plain_field_nat plain_show_int plain_labels plain_0x plain_hex addr_text_def hash_text_def)

text \<open>
  C35: A closed trade is readable from its row: a standard CSV reader gets from the row exactly
  twenty-four fields, as many as the header names, with the KOL's name and the token's symbol
  as they are, whatever characters they contain (a token's symbol is chosen by whoever
  deployed it), and with the addresses, hashes and amounts as printed.
\<close>

theorem paper_row_reads_back:
  assumes "\<And>d x. plain (show_f64 d x)"
  shows "read_row (format_csv_row show_f64 t) = Some ([show_nat (unat (ct_opened_at_unix_ns t)),
      portfolio_label (ct_portfolio t), ct_kol_name t, addr_text (ct_token_address t), ct_token_symbol t]
      @ trade_columns show_f64 t, [])
    \<and> 5 + length (trade_columns show_f64 t) = 24
    \<and> map_option (length \<circ> fst) (read_row PAPER_CSV_HEADER) = Some 24"
proof (intro conjI)
  let ?xs' = "[show_nat (unat (ct_opened_at_unix_ns t)), portfolio_label (ct_portfolio t), csv_escape (ct_kol_name t),
      addr_text (ct_token_address t), csv_escape (ct_token_symbol t)] @ trade_columns show_f64 t"
  let ?xs = "[show_nat (unat (ct_opened_at_unix_ns t)), portfolio_label (ct_portfolio t), ct_kol_name t,
      addr_text (ct_token_address t), ct_token_symbol t] @ trade_columns show_f64 t"
  have "\<forall>c \<in> set (trade_columns show_f64 t). plain c"
    using assms by (simp add: trade_columns_def Let_def split: option.split)
  then have "list_all2 writes (trade_columns show_f64 t) (trade_columns show_f64 t)"
    by (simp add: list.rel_refl_strong writes_plain)
  then have "list_all2 writes ?xs' ?xs" by (simp add: writes_plain writes_escaped)
  then have "read_row (join_fields ?xs' @ [CHR 0x0A]) = Some (?xs, [])" by (intro join_reads_back) simp_all
  then show "read_row (format_csv_row show_f64 t) = Some (?xs, [])" by (simp add: format_csv_row_def)
  show "5 + length (trade_columns show_f64 t) = 24" by (simp add: trade_columns_def Let_def)
  show "map_option (length \<circ> fst) (read_row PAPER_CSV_HEADER) = Some 24"
    by (simp add: PAPER_CSV_HEADER_def read_row.simps read_field_def)
qed

text \<open>Formatting that ignores the number; a symbol with a comma and a quote.\<close>

definition example_trade :: closed_trade where
  "example_trade = trade_of no_close (example_position\<lparr>op_token_symbol := ''a,'' @ [CHR 0x22]\<rparr>)
     (close_slice example_position (Fin 1)) 120 KolSell None (Fin 0, Fin 0)"

theorem paper_row_reads_back_witness:
  "\<exists>fields. read_row (format_csv_row (\<lambda>d x. ''0'') example_trade) = Some (fields, []) \<and> length fields = 24
     \<and> fields ! 4 = ''a,'' @ [CHR 0x22]"
proof -
  have "plain ''0''" by (simp add: plain_def)
  from paper_row_reads_back [of "\<lambda>d x. ''0''" example_trade, OF this] show ?thesis
    by (elim conjE) (intro exI conjI, assumption, simp_all add: example_trade_def trade_of_def)
qed

section \<open>Restarting\<close>

definition restored :: "u64 \<Rightarrow> open_position \<Rightarrow> open_position" where
  "restored now_ns p = p\<lparr>op_opened_at_unix_ns := now_ns, op_last_added_block := op_opened_at_block p,
     op_buy_tx_hashes := [hd (op_buy_tx_hashes p)], op_d_mcap_usd := Fin 0, op_our_entry_mcap_usd := Fin 0\<rparr>"

lemma first_fill_restore: "op_buy_tx_hashes p \<noteq> [] \<Longrightarrow> first_fill n (restore_fill p) = restored n p"
  by (cases "op_buy_tx_hashes p") (simp_all add: first_fill_def restore_fill_def restored_def)

lemma fill_key_restore [simp]: "fill_key (restore_fill p) = op_key p"
  by (simp add: fill_key_def restore_fill_def op_key_def)

lemma load_fold:
  assumes "distinct (map op_key ps)" and "\<forall>p \<in> set ps. op_buy_tx_hashes p \<noteq> [] \<and> b (op_key p) = None"
  shows "foldl (\<lambda>b p. open_or_add (now p) b (restore_fill p)) b ps k =
    (case find (\<lambda>p. op_key p = k) ps of Some p \<Rightarrow> Some (restored (now p) p) | None \<Rightarrow> b k)"
  using assms
proof (induction ps arbitrary: b)
  case (Cons p ps)
  define b1 where "b1 = open_or_add (now p) b (restore_fill p)"
  have b1: "b1 x = (if x = op_key p then Some (restored (now p) p) else b x)" for x
    using Cons.prems(2) by (simp add: b1_def open_or_add_def first_fill_restore)
  have ne: "op_key q \<noteq> op_key p" if "q \<in> set ps" for q
    using Cons.prems(1) imageI [OF that, of op_key] by auto
  then have none: "find (\<lambda>q. op_key q = op_key p) ps = None" by (simp add: find_None_iff)
  have "\<forall>q \<in> set ps. op_buy_tx_hashes q \<noteq> [] \<and> b1 (op_key q) = None"
    using Cons.prems(2) ne by (simp add: b1)
  from Cons.IH [OF _ this] Cons.prems(1) none show ?case
    by (auto simp: b1_def [symmetric] b1 [of k] b1 [of "op_key p"] split: option.split)
qed simp

text \<open>
  A restart keeps the positions: read back from the snapshot of a well-formed book, in
  whatever order the snapshot lists them, the book has the same keys with the same stakes,
  tokens and opening blocks, and is well-formed again. It forgets more than the opening time:
  every buy but the first, the block of the last buy and the two market caps at entry.
\<close>

lemma restart_keeps_positions:
  assumes "book_inv b" and "set ps = book_snapshot b" and "distinct ps"
  shows "\<exists>b'. load_book now (PositionsParsed ps) = Some b' \<and> book_inv b'
    \<and> (\<forall>k. b' k = map_option (\<lambda>p. restored (now p) p) (b k))"
proof -
  have in_b: "b (op_key p) = Some p \<and> op_buy_tx_hashes p \<noteq> []" if p: "p \<in> set ps" for p
  proof -
    obtain k where "b k = Some p" using p assms(2) by (auto simp: book_snapshot_def ran_def)
    with book_inv_D [OF assms(1) this] show ?thesis by simp
  qed
  then have "inj_on op_key (set ps)" by (intro inj_onI) (metis option.inject)
  then have dist: "distinct (map op_key ps)" using assms(3) by (simp add: distinct_map)
  let ?b' = "foldl (\<lambda>b p. open_or_add (now p) b (restore_fill p)) book_new ps"
  have look: "?b' k = (case find (\<lambda>p. op_key p = k) ps of Some p \<Rightarrow> Some (restored (now p) p) | None \<Rightarrow> None)" for k
  proof -
    have none: "book_new x = None" for x by (simp add: book_new_def)
    then have "\<forall>p \<in> set ps. op_buy_tx_hashes p \<noteq> [] \<and> book_new (op_key p) = None" using in_b by blast
    from load_fold [OF dist this, of now k] show ?thesis using none [of k] by (auto split: option.split)
  qed
  have eq: "?b' k = map_option (\<lambda>p. restored (now p) p) (b k)" for k
  proof (cases "b k")
    case None
    then have "find (\<lambda>p. op_key p = k) ps = None" using in_b by (fastforce simp: find_None_iff)
    with None look show ?thesis by simp
  next
    case (Some p)
    then have p: "p \<in> set ps" "op_key p = k"
      using assms(2) book_inv_D [OF assms(1)] by (auto simp: book_snapshot_def intro: ranI)
    then obtain q where q: "find (\<lambda>p. op_key p = k) ps = Some q" by (cases "find (\<lambda>p. op_key p = k) ps") (auto simp: find_None_iff)
    then have "q \<in> set ps" "op_key q = k" by (auto simp: find_Some_iff)
    with in_b Some have "q = p" by fastforce
    with q look Some show ?thesis by simp
  qed
  have "book_inv ?b'"
    using book.run_inv [OF book_new_inv, of "map (\<lambda>p. Fill (now p) (restore_fill p)) ps"] by (simp add: foldl_map)
  then show ?thesis using eq by (intro exI [of _ ?b']) (simp add: load_book_def)
qed

end
