(* ===== verification/Telemetry.thy ===== *)
theory Telemetry
  imports Bus
begin

text \<open>
  The block-coverage oracle of \<open>bsc-telemetry/block_oracle.rs\<close>: it compares the hashes of
  each new block with the dedupe table of the bus and keeps the totals behind the coverage
  gauge. The reply to the block request is an argument.
\<close>

section \<open>Totals and phases\<close>

record aggregate_state =
  ag_blocks_seen :: u64
  ag_txs_in_blocks :: u64
  ag_txs_seen_in_mempool :: u64

definition aggregate_default :: aggregate_state where
  "aggregate_default = \<lparr>ag_blocks_seen = 0, ag_txs_in_blocks = 0, ag_txs_seen_in_mempool = 0\<rparr>"

definition block_phase_label :: "u32 \<Rightarrow> string" where
  "block_phase_label ms =
     (if ms \<le> 112 then ''0_113ms'' else if ms \<le> 224 then ''113_225ms''
      else if ms \<le> 336 then ''225_337ms'' else if ms \<le> 449 then ''337_450ms'' else ''past_450ms'')"

definition ms_since_unix_ns :: "u64 \<Rightarrow> u64 \<Rightarrow> u32" where
  "ms_since_unix_ns first_seen block_ts =
     (let delta_ns = sat_sub block_ts first_seen; total_ms = delta_ns div 1000000; mod_ms = total_ms mod 450
      in if unat mod_ms < 2 ^ 32 then ucast mod_ms else - 1)"

section \<open>A block\<close>

text \<open>The samples of the two histograms: the lead in seconds and its phase.\<close>

definition lead_sample :: "dedupe \<Rightarrow> u64 \<Rightarrow> b256 \<Rightarrow> (f64 \<times> string) option" where
  "lead_sample d block_ts_ns h = (case first_seen_ns d h of
       None \<Rightarrow> None
     | Some t \<Rightarrow>
         if t < block_ts_ns
         then Some (fdiv (f64_of_word (block_ts_ns - t)) (flit (10 ^ 9)), block_phase_label (ms_since_unix_ns t block_ts_ns))
         else None)"

definition oracle_block ::
  "dedupe \<Rightarrow> (u64 \<times> b256 list) option \<Rightarrow> aggregate_state \<Rightarrow> (f64 \<times> string) list \<times> aggregate_state" where
  "oracle_block d fetched agg = (case fetched of
       None \<Rightarrow> ([], agg)
     | Some (timestamp, hashes) \<Rightarrow>
         (let block_ts_ns = sat_mul timestamp 1000000000;
              samples = List.map_filter (lead_sample d block_ts_ns) hashes
          in (samples, agg\<lparr>ag_blocks_seen := sat_add (ag_blocks_seen agg) 1,
                ag_txs_in_blocks := sat_add (ag_txs_in_blocks agg) (of_nat (length hashes)),
                ag_txs_seen_in_mempool := sat_add (ag_txs_seen_in_mempool agg) (of_nat (length samples))\<rparr>)))"

definition coverage_ratio :: "aggregate_state \<Rightarrow> f64 option" where
  "coverage_ratio agg =
     (if 0 < ag_txs_in_blocks agg
      then Some (fdiv (f64_of_word (ag_txs_seen_in_mempool agg)) (f64_of_word (ag_txs_in_blocks agg))) else None)"

text \<open>Without an endpoint or without the table the oracle idles.\<close>

definition oracle_idles :: "string option \<Rightarrow> dedupe option \<Rightarrow> bool" where
  "oracle_idles el_ws_url d \<longleftrightarrow> el_ws_url = None \<or> d = None"

section \<open>The gauge is a ratio\<close>

definition aggregate_inv :: "aggregate_state \<Rightarrow> bool" where
  "aggregate_inv agg \<longleftrightarrow> ag_txs_seen_in_mempool agg \<le> ag_txs_in_blocks agg"

fun oracle_step :: "aggregate_state \<Rightarrow> dedupe \<times> (u64 \<times> b256 list) option \<Rightarrow> aggregate_state" where
  "oracle_step agg (d, fetched) = snd (oracle_block d fetched agg)"

lemma length_map_filter: "length (List.map_filter f xs) \<le> length xs"
  by (simp add: List.map_filter_def)

lemma sat_add_mono:
  fixes a b c d :: u64
  assumes "a \<le> b" "c \<le> d"
  shows "sat_add a c \<le> sat_add b d"
  using assms by (simp add: word_le_nat_alt unat_sat_add min_def)

text \<open>Blocks hold far fewer than \<open>2 ^ 64\<close> transactions: \<open>len() as u64\<close> is exact on a 64-bit machine.\<close>

lemma oracle_step_inv:
  assumes "aggregate_inv agg" "\<And>ts hashes. snd e = Some (ts, hashes) \<Longrightarrow> length hashes < 2 ^ 64"
  shows "aggregate_inv (oracle_step agg e)"
proof (cases "snd e")
  case None
  with assms(1) show ?thesis by (cases e) (simp add: oracle_block_def)
next
  case (Some f)
  obtain ts hashes where f: "f = (ts, hashes)" by (cases f)
  let ?s = "List.map_filter (lead_sample (fst e) (sat_mul ts 1000000000)) hashes"
  have "length ?s \<le> length hashes" by (rule length_map_filter)
  moreover have "length hashes < 2 ^ 64" using assms(2) Some f by simp
  ultimately have "(of_nat (length ?s) :: u64) \<le> of_nat (length hashes)"
    by (simp add: word_le_nat_alt unat_of_nat)
  then show ?thesis
    using assms(1) Some f by (cases e) (simp add: oracle_block_def aggregate_inv_def Let_def sat_add_mono)
qed

lemma f64_of_u64: "\<exists>q. f64_of_word (w :: u64) = Fin q \<and> 0 \<le> q"
proof -
  have "uint w < 2 ^ 64" using uint_bounded [of w] by simp
  then have "fle (f64_of_int (uint w)) (f64_of_int (2 ^ 64))" by (intro f64_of_int_mono) simp
  moreover have "f64_of_int (2 ^ 64) = Fin (2 ^ 64)"
    unfolding f64_of_int_def using rnd_dyadic [of 1 64] by simp
  moreover have "fle (f64_of_int 0) (f64_of_int (uint w))" by (intro f64_of_int_mono) simp
  ultimately show ?thesis
    by (cases "f64_of_int (uint w)") (simp_all add: f64_of_word_def f64_of_int_def)
qed

lemma f64_of_u64_mono: "(v :: u64) \<le> w \<Longrightarrow> fle (f64_of_word v) (f64_of_word w)"
  by (simp add: f64_of_word_def f64_of_int_mono word_le_def)

text \<open>The coverage gauge. Whatever blocks arrive (of fewer than 2^64 transactions each) and
  whatever the dedupe table holds at the time, the gauge is undefined while no transaction
  was mined and otherwise a proper fraction: a float between zero and one, never NaN.\<close>
lemma coverage_is_a_fraction:
  assumes "\<forall>e \<in> set es. \<forall>ts hashes. snd e = Some (ts, hashes) \<longrightarrow> length hashes < 2 ^ 64"
    and "coverage_ratio (foldl oracle_step aggregate_default es) = Some r"
  shows "\<exists>q. r = Fin q \<and> 0 \<le> q \<and> q \<le> 1"
proof -
  have "aggregate_inv (foldl oracle_step agg es)" if "aggregate_inv agg" for agg
    using that assms(1)
  proof (induction es arbitrary: agg)
    case (Cons e es)
    have "aggregate_inv (oracle_step agg e)" using Cons.prems by (intro oracle_step_inv) simp_all
    with Cons show ?case by simp
  qed simp
  then have inv: "aggregate_inv (foldl oracle_step aggregate_default es)"
    by (simp add: aggregate_inv_def aggregate_default_def)
  let ?agg = "foldl oracle_step aggregate_default es"
  obtain a where a: "f64_of_word (ag_txs_seen_in_mempool ?agg) = Fin a" "0 \<le> a" using f64_of_u64 by blast
  obtain b where b: "f64_of_word (ag_txs_in_blocks ?agg) = Fin b" "0 \<le> b" using f64_of_u64 by blast
  have "a \<le> b" using f64_of_u64_mono [of "ag_txs_seen_in_mempool ?agg" "ag_txs_in_blocks ?agg"] inv a(1) b(1)
    by (simp add: aggregate_inv_def)
  have pos: "1 \<le> ag_txs_in_blocks ?agg" using assms(2)
    by (simp add: coverage_ratio_def word_le_nat_alt word_less_nat_alt Suc_le_eq split: if_splits)
  have "1 \<le> b" using f64_of_u64_mono [OF pos] b(1) by (simp add: f64_of_word_def f64_of_int_small)
  have r: "r = rnd (a / b)"
    using assms(2) a(1) b(1) \<open>1 \<le> b\<close> by (simp add: coverage_ratio_def split: if_splits)
  have "0 \<le> a / b" "a / b \<le> 1" using a(2) \<open>a \<le> b\<close> \<open>1 \<le> b\<close> by simp_all
  from this [THEN rnd_mono] show ?thesis unfolding r by (cases "rnd (a / b)") simp_all
qed

text \<open>The remainder modulo 450 never reaches the last bucket.\<close>

lemma past_deadline_unreachable: "block_phase_label (ms_since_unix_ns first_seen block_ts) \<noteq> ''past_450ms''"
proof -
  let ?m = "(sat_sub block_ts first_seen div 1000000) mod 450 :: u64"
  have lt: "unat ?m < 450" by (simp add: unat_mod)
  then have "unat (ucast ?m :: u32) < 450" by (simp add: unsigned_ucast_eq take_bit_nat_eq_self)
  then have "(ucast ?m :: u32) \<le> 449" by (simp add: word_le_nat_alt)
  moreover have "ms_since_unix_ns first_seen block_ts = ucast ?m"
    using lt by (simp add: ms_since_unix_ns_def Let_def)
  ultimately show ?thesis by (simp add: block_phase_label_def)
qed

definition example_seen :: dedupe where
  "example_seen = snd (dedupe_record 1 LOCAL_IPC 500 (dedupe_new 60))"

end
