(* ===== verification/TrailLedger.thy ===== *)
theory TrailLedger
  imports TrailWatcher
begin

text \<open>
  Where the live ledger and the trail watcher meet: the watcher initialises a trail state by
  splitting the ledger's lines at commas. The rows \<open>LiveLedger\<close> writes are found again as
  long as no field needs quoting; a quoted name shifts the columns.
\<close>

section \<open>Lines and fields\<close>

text \<open>\<open>BufRead::lines\<close>: pieces between newlines, a last empty piece dropped, a trailing CR too.\<close>

definition strip_cr :: "string \<Rightarrow> string" where
  "strip_cr l = (if l \<noteq> [] \<and> last l = CHR 0x0D then butlast l else l)"

definition text_lines :: "string \<Rightarrow> string list" where
  "text_lines s = (let ps = split_on (CHR 0x0A) s in map strip_cr (if last ps = [] then butlast ps else ps))"

lemma split_on_nonempty [simp]: "split_on c s \<noteq> []"
  by (induction s) (auto split: list.splits)

lemma split_on_none: "c \<notin> set s \<Longrightarrow> split_on c s = [s]"
  by (induction s) auto

lemma split_on_sep: "c \<notin> set p \<Longrightarrow> split_on c (p @ c # rest) = p # split_on c rest"
  by (induction p) auto

lemma split_join_fields:
  "fs \<noteq> [] \<Longrightarrow> \<forall>f \<in> set fs. CHR '','' \<notin> set f \<Longrightarrow> split_on (CHR '','') (join_fields fs) = fs"
  by (induction fs rule: join_fields.induct) (auto simp: split_on_none split_on_sep)

lemma set_join_fields: "set (join_fields fs) \<subseteq> insert (CHR '','') (\<Union>f \<in> set fs. set f)"
  by (induction fs rule: join_fields.induct) auto

lemma text_lines_rows:
  assumes "\<forall>l \<in> set ls. CHR 0x0A \<notin> set l \<and> CHR 0x0D \<notin> set l"
  shows "text_lines (concat (map (\<lambda>l. l @ [CHR 0x0A]) ls)) = ls"
proof -
  have "split_on (CHR 0x0A) (concat (map (\<lambda>l. l @ [CHR 0x0A]) ls)) = ls @ [[]]"
    using assms by (induction ls) (simp_all add: split_on_sep)
  moreover have "map strip_cr ls = ls"
    using assms by (intro map_idI) (auto simp: strip_cr_def dest: last_in_set)
  ultimately show ?thesis by (simp add: text_lines_def)
qed

section \<open>Rows without quoting\<close>

definition plain_field :: "string \<Rightarrow> bool" where
  "plain_field s \<longleftrightarrow> set s \<inter> {CHR '','', CHR 0x22, CHR 0x0A, CHR 0x0D} = {}"

definition row_fields :: "row_format \<Rightarrow> u64 \<Rightarrow> live_entry \<Rightarrow> string list" where
  "row_fields rf now e =
     [show_nat (unat now), le_phase e, le_kol_name e, le_visibility e, rf_address rf (le_token_address e),
      le_token_symbol e, show_nat (unat (le_bnb_in_wei e)), show_nat (unat (le_gas_gwei e)),
      show_nat (unat (le_nonce e)), rf_hash rf (le_tx_hash e), rf_f6 rf (le_wallet_bnb e),
      show_bool (le_broadcast e), (case le_limit_skip_reason e of Some r \<Rightarrow> r | None \<Rightarrow> [])]"

definition plain_row :: "row_format \<Rightarrow> live_entry \<Rightarrow> bool" where
  "plain_row rf e \<longleftrightarrow> plain_field (le_phase e) \<and> plain_field (le_kol_name e) \<and> plain_field (le_visibility e)
     \<and> plain_field (le_token_symbol e) \<and> plain_field (rf_hash rf (le_tx_hash e))
     \<and> plain_field (rf_f6 rf (le_wallet_bnb e))
     \<and> plain_field (case le_limit_skip_reason e of Some r \<Rightarrow> r | None \<Rightarrow> [])"

text \<open>What \<open>{:#x}\<close> of an address gives: 42 lower-case characters, different for each address.\<close>

definition address_format :: "(address \<Rightarrow> string) \<Rightarrow> bool" where
  "address_format fmt \<longleftrightarrow> inj fmt
     \<and> (\<forall>a. length (fmt a) = 42 \<and> to_lower (fmt a) = fmt a \<and> plain_field (fmt a))"

lemma plain_from_48: "\<forall>c \<in> set s. 48 \<le> (of_char c :: nat) \<Longrightarrow> plain_field s"
proof -
  assume *: "\<forall>c \<in> set s. 48 \<le> (of_char c :: nat)"
  have "c \<notin> set s" if "(of_char c :: nat) < 48" for c using * that by auto
  from this [of "CHR '',''"] this [of "CHR 0x22"] this [of "CHR 0x0A"] this [of "CHR 0x0D"]
  show "plain_field s" unfolding plain_field_def by simp
qed

lemma plain_show_nat: "plain_field (show_nat n)"
  using show_nat_chars [of n] by (intro plain_from_48) (auto simp: of_char_digit)

lemma plain_csv: "plain_field s \<Longrightarrow> csv_escape s = s"
  by (auto simp: csv_escape_def plain_field_def)

lemma row_is_joined:
  "plain_row rf e \<Longrightarrow> ledger_row rf now e = join_fields (row_fields rf now e) @ [CHR 0x0A]"
  by (simp add: ledger_row_def row_fields_def plain_row_def plain_csv)

lemma row_fields_plain:
  assumes "plain_row rf e" and "address_format (rf_address rf)"
  shows "\<forall>f \<in> set (row_fields rf now e). plain_field f"
  using assms by (simp add: row_fields_def plain_row_def address_format_def plain_show_nat)
    (simp add: show_bool_def plain_field_def)

section \<open>Finding the buy again\<close>

definition is_buy_of :: "address \<Rightarrow> live_entry \<Rightarrow> bool" where
  "is_buy_of token e \<longleftrightarrow> le_token_address e = token \<and> le_visibility e \<noteq> ''exit''
     \<and> 0 < unat (le_bnb_in_wei e) \<and> unat (le_bnb_in_wei e) < 2 ^ 128"

lemma contains_same_length: "length s = length p \<Longrightarrow> p \<noteq> [] \<Longrightarrow> contains_str p s \<longleftrightarrow> s = p"
proof (induction s)
  case (Cons c cs)
  have "\<not> contains_str p cs" if "length cs < length p" for cs
    using that by (induction cs) (auto dest: arg_cong [where f = length])
  then show ?case using Cons.prems by simp
qed simp

lemma row_matches_buy:
  assumes "address_format (rf_address rf)"
  shows "row_matches (rf_address rf token) (row_fields rf now e) \<longleftrightarrow> is_buy_of token e"
proof -
  have a: "length (rf_address rf a) = 42" "to_lower (rf_address rf a) = rf_address rf a"
    "rf_address rf a = rf_address rf b \<longleftrightarrow> a = b" for a b
    using assms by (auto simp: address_format_def inj_eq)
  have ne: "rf_address rf token \<noteq> []" using a(1) [of token] by auto
  have "contains_str (rf_address rf token) (rf_address rf (le_token_address e)) \<longleftrightarrow> le_token_address e = token"
    using contains_same_length [OF _ ne] a by auto
  moreover have "(case parse_u128 10 (show_nat n) of Some m \<Rightarrow> m | None \<Rightarrow> 0) \<noteq> 0 \<longleftrightarrow> 0 < n \<and> n < 2 ^ 128" for n
    by (cases "n = 0")
      (auto simp: parse_u128_def from_str_show_nat word_of_nat_eq_0_iff nat_dvd_not_less)
  ultimately show ?thesis
    by (simp add: row_matches_def row_fields_def a is_buy_of_def)
qed

lemma find_buy_row_last:
  assumes "address_format (rf_address rf)" and "\<forall>(now, e) \<in> set es. plain_row rf e"
  shows "foldl (\<lambda>acc line. let parts = split_on CHR '','' line in
      if row_matches (rf_address rf token) parts then Some parts else acc) acc
      (map (\<lambda>(now, e). join_fields (row_fields rf now e)) es)
    = (case find (\<lambda>(now, e). is_buy_of token e) (rev es) of
         Some (now, e) \<Rightarrow> Some (row_fields rf now e) | None \<Rightarrow> acc)"
  using assms(2)
proof (induction es rule: rev_induct)
  case (snoc ne es)
  obtain now e where ne: "ne = (now, e)" by (cases ne)
  have "\<forall>f \<in> set (row_fields rf now e). CHR '','' \<notin> set f"
    using row_fields_plain [OF _ assms(1)] snoc.prems by (auto simp: ne plain_field_def)
  then have "split_on CHR '','' (join_fields (row_fields rf now e)) = row_fields rf now e"
    by (intro split_join_fields) (simp_all add: row_fields_def)
  then show ?case using snoc by (simp add: ne row_matches_buy [OF assms(1)] Let_def)
qed simp

lemma header_no_match: "length p = 42 \<Longrightarrow> \<not> row_matches p (split_on CHR '','' (butlast CSV_HEADER))"
proof -
  assume p: "length p = 42"
  have short: "\<not> contains_str p s" if "length s < 42" for s
    using that p by (induction s) (auto dest: arg_cong [where f = length])
  have "split_on CHR '','' (butlast CSV_HEADER) ! 4 = ''token_address''" by (simp add: CSV_HEADER_def)
  then have "\<not> contains_str p (to_lower (split_on CHR '','' (butlast CSV_HEADER) ! 4))"
    by (intro short) (simp add: to_lower_def)
  then show ?thesis unfolding row_matches_def by blast
qed


section \<open>A failed exit\<close>

text \<open>
  A failed trail exit forgets the trail: when the sell of a tick does not go through,
  all tokens are still held but the state is dropped, so the next block starts from the
  ledger with the peak back at the entry price, unarmed and with an empty ring.
\<close>

lemma failed_exit_restarts_trail:
  assumes "ready_at (tw_exec w) token i"
    and "process_one_position pf tr block token i w = (Some out, w')"
    and "\<nexists>tx. out = SellBroadcast tx" and "tokens_at (tw_exec w) i \<noteq> 0"
    and "init_state_from_ledger pf2 tr2 token block2 = Some s0"
  shows "tokens_at (tw_exec w') i = tokens_at (tw_exec w) i
    \<and> process_one_position pf2 tr2 block2 token i w' = tick_position pf2 tr2 token s0 block2 (set_state token s0 w')
    \<and> ts_peak_price s0 = ts_entry_price s0 \<and> \<not> ts_armed s0 \<and> recent_prices s0 = []"
  using assms(2)
proof (cases rule: process_cases)
  case (2 out' reason)
  have r: "ready_at (tw_exec w') token i" "tokens_at (tw_exec w') i = tokens_at (tw_exec w) i"
    using trail_exit_full [OF assms(1) 2(3)] 2(1) assms(3) by (auto split: exit_outcome.splits)
  obtain e b where s0: "s0 = fresh_state e b" using init_state_fresh [OF assms(5)] by blast
  have "process_one_position pf2 tr2 block2 token i w' = tick_position pf2 tr2 token s0 block2 (set_state token s0 w')"
    using r assms(4,5) 2(2) by (simp add: process_one_position_def ready_at_def tokens_at_def Let_def)
  then show ?thesis using r s0 by simp
qed simp

section \<open>A concrete log\<close>

text \<open>\<open>{:#x}\<close> of an address, digit by digit.\<close>

definition hex_byte :: "u8 \<Rightarrow> string" where
  "hex_byte b = [digit_char (unat b div 16), digit_char (unat b mod 16)]"

definition hex_address :: "address \<Rightarrow> string" where
  "hex_address a = ''0x'' @ concat (map hex_byte (be_bytes 20 (unat a)))"

lemma hex_digit_bounds: "unat (b :: u8) div 16 < 16" "unat b mod 16 < 16"
proof -
  have "unat b < 256" using unsigned_less [of b] by simp
  then show "unat b div 16 < 16" "unat b mod 16 < 16" by simp_all
qed

lemma hex_byte_inj: "hex_byte a = hex_byte b \<Longrightarrow> a = b"
proof -
  assume "hex_byte a = hex_byte b"
  then have "digit_val (digit_char (unat a div 16)) = digit_val (digit_char (unat b div 16))"
    "digit_val (digit_char (unat a mod 16)) = digit_val (digit_char (unat b mod 16))"
    by (simp_all add: hex_byte_def)
  then have "unat a div 16 = unat b div 16" "unat a mod 16 = unat b mod 16"
    by (simp_all add: hex_digit_bounds)
  then have "unat a = unat b" by (metis div_mult_mod_eq)
  then show "a = b" by (simp add: word_unat_eq_iff)
qed

lemma hex_address_inj: "inj hex_address"
proof
  fix a b assume "hex_address a = hex_address b"
  then have "concat (map hex_byte (be_bytes 20 (unat a))) = concat (map hex_byte (be_bytes 20 (unat b)))"
    by (simp add: hex_address_def)
  then have "map hex_byte (be_bytes 20 (unat a)) = map hex_byte (be_bytes 20 (unat b))"
    by (rule concat_injective) (auto simp: hex_byte_def set_zip)
  then have "be_bytes 20 (unat a) = be_bytes 20 (unat b)"
    by (rule map_injective) (auto intro: injI hex_byte_inj)
  then show "a = b" by (metis address_bytes_roundtrip)
qed

lemma hex_char: "k < 16 \<Longrightarrow> 48 \<le> (of_char (digit_char k) :: nat) \<and> to_lower [digit_char k] = [digit_char k]"
  by (cases "k < 10") (simp_all add: of_char_digit to_lower_def Let_def)

lemma to_lower_append: "to_lower (xs @ ys) = to_lower xs @ to_lower ys"
  by (simp add: to_lower_def)

lemma hex_byte_lower:
  "to_lower (hex_byte b) = hex_byte b" "length (hex_byte b) = 2" "c \<in> set (hex_byte b) \<Longrightarrow> 48 \<le> (of_char c :: nat)"
proof -
  note h = hex_char [OF hex_digit_bounds(1), of b] hex_char [OF hex_digit_bounds(2), of b]
  have "hex_byte b = [digit_char (unat b div 16)] @ [digit_char (unat b mod 16)]" by (simp add: hex_byte_def)
  then show "to_lower (hex_byte b) = hex_byte b" using h by (simp only: to_lower_append)
  show "length (hex_byte b) = 2" by (simp add: hex_byte_def)
  show "c \<in> set (hex_byte b) \<Longrightarrow> 48 \<le> (of_char c :: nat)" using h by (auto simp only: hex_byte_def list.set)
qed

lemma hex_bytes_lower:
  "to_lower (concat (map hex_byte bs)) = concat (map hex_byte bs)"
  "length (concat (map hex_byte bs)) = 2 * length bs"
  by (induction bs) (simp_all add: to_lower_append hex_byte_lower, simp add: to_lower_def)

lemma hex_address_format: "address_format hex_address"
proof -
  have nil: "to_lower ''0x'' = ''0x''" by (simp add: to_lower_def)
  have "to_lower (hex_address a) = hex_address a" for a
    unfolding hex_address_def to_lower_append nil hex_bytes_lower ..
  moreover have "length (hex_address a) = 42" for a
    unfolding hex_address_def length_append hex_bytes_lower(2) by simp
  moreover have "plain_field (hex_address a)" for a
  proof (rule plain_from_48, rule ballI)
    fix c assume "c \<in> set (hex_address a)"
    then have "c = CHR ''0'' \<or> c = CHR ''x'' \<or> (\<exists>b. c \<in> set (hex_byte b))" by (auto simp: hex_address_def)
    then show "48 \<le> (of_char c :: nat)" using hex_byte_lower(3) by auto
  qed
  ultimately show ?thesis by (simp add: address_format_def hex_address_inj)
qed

definition log_rows :: row_format where
  "log_rows = \<lparr>rf_address = hex_address, rf_hash = (\<lambda>_. ''0xabc''), rf_f6 = (\<lambda>_. ''1.000000'')\<rparr>"

definition log_buy :: live_entry where
  "log_buy = \<lparr>le_phase = ''full'', le_kol_name = ''D'', le_visibility = ''public'', le_token_address = 5,
     le_token_symbol = [], le_bnb_in_wei = 1000, le_gas_gwei = 10, le_nonce = 41, le_tx_hash = 7,
     le_wallet_bnb = Fin 1, le_broadcast = True, le_limit_skip_reason = None\<rparr>"

lemma log_plain: "plain_row log_rows (log_buy\<lparr>le_visibility := ''exit''\<rparr>)" "plain_row log_rows log_buy"
  by (simp_all add: plain_row_def plain_field_def log_rows_def log_buy_def)


text \<open>The failing exit of the concrete position, and the state the log gives it afterwards.\<close>

definition log_platform :: platform where
  "log_platform = example_platform\<lparr>pf_sign := \<lambda>_. None, pf_rows := log_rows,
     pf_parse_u256 := \<lambda>s. map_option of_nat (from_str_radix 16 (2 ^ 256) s)\<rparr>"

definition log_readings :: trail_readings where
  "log_readings = (example_trail_readings example_readings)
     \<lparr>tr_ledger := Some [join_fields (row_fields log_rows 1 log_buy)],
      tr_receipt := \<lambda>_. Reply (JObj [(''result'', JObj [(''logs'', JArr [JObj [(''address'', JStr (hex_address 5)),
        (''topics'', JArr [JStr TRANSFER_TOPIC]), (''data'', JStr ''64'')]])])])\<rparr>"

lemma log_init: "\<exists>s0. init_state_from_ledger log_platform log_readings 5 5001 = Some s0"
proof -
  have f: "address_format (rf_address log_rows)" by (simp add: log_rows_def hex_address_format)
  have l: "to_lower (hex_address 5) = hex_address 5" using hex_address_format by (simp add: address_format_def)
  have row: "find_buy_row (hex_address 5) [join_fields (row_fields log_rows 1 log_buy)]
      = Some (row_fields log_rows 1 log_buy)"
    using find_buy_row_last [OF f, of "[(1, log_buy)]" 5 None] log_plain
    by (simp add: find_buy_row_def is_buy_of_def log_rows_def log_buy_def)
  have rfa: "rf_address log_rows = hex_address" by (simp add: log_rows_def)
  have cols: "row_fields log_rows 1 log_buy ! 6 = show_nat 1000"
    by (simp add: row_fields_def log_buy_def)
  have topic: "to_lower TRANSFER_TOPIC = TRANSFER_TOPIC" by (simp add: TRANSFER_TOPIC_def to_lower_def)
  have data: "trim_start_matches ''0x'' ''64'' = ''64''" by (simp add: trim_start_matches.simps)
  have num: "from_str_radix 16 (2 ^ 256) ''64'' = Some 100"
    by (simp add: from_str_radix_def digit_val_def)
  have "f64_of_word (100 :: u256) = Fin 100" by (simp add: f64_of_word_def f64_of_int_small)
  then show ?thesis
    by (simp add: init_state_from_ledger_def log_readings_def log_platform_def l row cols parse_u128_def
        from_str_show_nat topic data num [simplified] Let_def rfa)
qed

end
